theory Spec2Isabelle
  imports Complex_Main
begin

section \<open>Errors, tensors and configuration\<close>

text \<open>
  The model follows \<^verbatim>\<open>onmt/Models.py\<close>. Every Python exception is a value: a function
  that can raise returns \<open>error + 'a\<close>, with \<open>Inl\<close> the exception.
\<close>

datatype error = AssertionError | RuntimeError | IndexError | ValueError | UnboundLocalError

definition and_then :: "error + 'a \<Rightarrow> ('a \<Rightarrow> error + 'b) \<Rightarrow> error + 'b" where
  "and_then r f = (case r of Inl e \<Rightarrow> Inl e | Inr v \<Rightarrow> f v)"

text \<open>
  Tensors are rectangular nested lists, outermost axis first. Floating-point entries are
  idealised as real numbers; token tensors hold integers. A tensor with a leading axis
  of size zero is the empty list.
\<close>

type_synonym vec = "real list"
type_synonym mat = "real list list"
type_synonym tensor3 = "real list list list"
type_synonym tokens = "int list list"

subsection \<open>Tensor operations of the library\<close>

text \<open>The size of axis 1 of a two-dimensional tensor, and of axis 2 of a three-dimensional one.\<close>

definition size1 :: "'a list list \<Rightarrow> nat" where
  "size1 t = (case t of [] \<Rightarrow> 0 | r # _ \<Rightarrow> length r)"

definition size2 :: "'a list list list \<Rightarrow> nat" where
  "size2 t = (case t of [] \<Rightarrow> 0 | m # _ \<Rightarrow> size1 m)"

text \<open>A tensor has shape (a, b), or (a, b, c).\<close>

definition has_shape2 :: "'a list list \<Rightarrow> nat \<Rightarrow> nat \<Rightarrow> bool" where
  "has_shape2 t a b = (length t = a \<and> list_all (\<lambda>row. length row = b) t)"

definition has_shape3 :: "'a list list list \<Rightarrow> nat \<Rightarrow> nat \<Rightarrow> nat \<Rightarrow> bool" where
  "has_shape3 t a b c = (length t = a \<and> list_all (\<lambda>m. has_shape2 m b c) t)"

definition dims3 :: "'a list list list \<Rightarrow> nat \<times> nat \<times> nat" where
  "dims3 t = (length t, size1 t, size2 t)"

text \<open>
  \<^verbatim>\<open>torch.cat((a, b), 2)\<close>: the sizes of axes 0 and 1 must agree; the rows are joined.
\<close>

definition cat_dim2 :: "'a list list list \<Rightarrow> 'a list list list \<Rightarrow> error + 'a list list list" where
  "cat_dim2 a b =
     (if map length a = map length b then Inr (map2 (map2 (@)) a b) else Inl RuntimeError)"

text \<open>
  \<^verbatim>\<open>t.view(t.size(0), -1)\<close> on a contiguous three-dimensional tensor: every slice of
  axis 0 is laid out as one row. With no slice the size \<open>-1\<close> cannot be inferred.
\<close>

definition view_rows :: "'a list list list \<Rightarrow> error + 'a list list" where
  "view_rows t = (if t = [] then Inl RuntimeError else Inr (map concat t))"

text \<open>
  \<^verbatim>\<open>x.view(l, b, -1)\<close> on a contiguous two-dimensional tensor: the elements keep their
  row-major order and are regrouped; the inferred size must divide the element count.
\<close>

definition view3 :: "nat \<Rightarrow> nat \<Rightarrow> 'a list list \<Rightarrow> error + 'a list list list" where
  "view3 l b x =
     (let data = concat x; n = length data in
      if l * b = 0 \<or> n mod (l * b) \<noteq> 0 then Inl RuntimeError
      else
        let inner = n div (l * b) in
        Inr (map (\<lambda>i. map (\<lambda>j. take inner (drop ((i * b + j) * inner) data)) [0..<b]) [0..<l]))"

text \<open>
  \<^verbatim>\<open>torch.chunk(t, 2, 2)\<close> followed by the unpacking \<^verbatim>\<open>h_0, c_0 = hidden\<close> of its
  result: the last axis is cut after \<open>ceil(n / 2)\<close> entries. When that axis has fewer
  than two entries there are not two chunks and the unpacking raises.
\<close>

definition chunk2 :: "'a list list list \<Rightarrow> error + ('a list list list \<times> 'a list list list)" where
  "chunk2 t =
     (let n = size2 t; k = (n + 1) div 2 in
      if n < 2 then Inl ValueError
      else Inr (map (map (take k)) t, map (map (drop k)) t))"

text \<open>
  Broadcasting of a binary elementwise operation over two-dimensional tensors: on each
  axis the sizes are equal or one of them is 1, and the axis of size 1 is repeated
  (\<open>expand\<close> takes the head of an axis only where that axis has size 1).
\<close>

definition bcast_size :: "nat \<Rightarrow> nat \<Rightarrow> nat option" where
  "bcast_size a b =
     (if a = b then Some a else if a = 1 then Some b else if b = 1 then Some a else None)"

definition expand :: "nat \<Rightarrow> nat \<Rightarrow> 'a list list \<Rightarrow> 'a list list" where
  "expand r c t =
     (let t' = (if size1 t = c then t else map (\<lambda>row. replicate c (hd row)) t)
      in if length t' = r then t' else replicate r (hd t'))"

definition broadcast2 ::
  "('a \<Rightarrow> 'b \<Rightarrow> 'c) \<Rightarrow> 'a list list \<Rightarrow> 'b list list \<Rightarrow> error + 'c list list" where
  "broadcast2 f a b =
     (case (bcast_size (length a) (length b), bcast_size (size1 a) (size1 b)) of
        (Some r, Some c) \<Rightarrow> Inr (map2 (map2 f) (expand r c a) (expand r c b))
      | _ \<Rightarrow> Inl RuntimeError)"

text \<open>\<^verbatim>\<open>.long()\<close>: conversion of a float to an integer, truncating towards zero.\<close>

definition long :: "real \<Rightarrow> int" where
  "long x = (if 0 \<le> x then \<lfloor>x\<rfloor> else \<lceil>x\<rceil>)"

text \<open>
  \<^verbatim>\<open>t.max(-1)\<close>, the indices: for every row the position of its largest entry (the
  first one among equals). A row with no entry has no maximum.
\<close>

fun argmax_from :: "nat \<Rightarrow> real \<Rightarrow> nat \<Rightarrow> real list \<Rightarrow> nat" where
  "argmax_from best v i [] = best"
| "argmax_from best v i (x # xs) =
     (if v < x then argmax_from i x (Suc i) xs else argmax_from best v (Suc i) xs)"

definition argmax :: "real list \<Rightarrow> nat" where
  "argmax row = (case row of [] \<Rightarrow> 0 | x # xs \<Rightarrow> argmax_from 0 x 1 xs)"

definition max_indices :: "mat \<Rightarrow> error + nat list" where
  "max_indices t = (if [] \<in> set t then Inl RuntimeError else Inr (map argmax t))"

text \<open>
  \<^verbatim>\<open>torch.stack\<close> of a list of two-dimensional tensors: the list must not be empty and
  its tensors must have one shape.
\<close>

definition stack :: "'a list list list \<Rightarrow> error + 'a list list list" where
  "stack ts =
     (if ts = [] then Inl RuntimeError
      else if list_all (\<lambda>t. map length t = map length (hd ts)) ts then Inr ts
      else Inl RuntimeError)"

text \<open>
  \<^verbatim>\<open>nn.Embedding\<close>: the module holds a table with one row per token id; looking up an
  id outside the table raises. It is applied to a vector of ids and to a (time, batch)
  tensor of ids.
\<close>

type_synonym embedding = "vec list"

definition valid_ids :: "embedding \<Rightarrow> int list \<Rightarrow> bool" where
  "valid_ids w ids = list_all (\<lambda>t. 0 \<le> t \<and> t < int (length w)) ids"

definition Embedding_forward1 :: "embedding \<Rightarrow> int list \<Rightarrow> error + mat" where
  "Embedding_forward1 w ids =
     (if valid_ids w ids then Inr (map (\<lambda>t. w ! nat t) ids) else Inl IndexError)"

definition Embedding_forward :: "embedding \<Rightarrow> tokens \<Rightarrow> error + tensor3" where
  "Embedding_forward w input =
     (if list_all (valid_ids w) input then Inr (map (map (\<lambda>t. w ! nat t)) input)
      else Inl IndexError)"

subsection \<open>The random source\<close>

text \<open>
  The generator of the library is a state: a stream of uniform draws from \<open>[0, 1)\<close>, a
  stream of standard normal draws, and a cursor that every draw advances.
\<close>

record rng =
  rng_uniform :: "nat \<Rightarrow> real"
  rng_normal :: "nat \<Rightarrow> real"
  rng_pos :: nat

definition draw_like :: "(nat \<Rightarrow> real) \<Rightarrow> nat \<Rightarrow> 'a list list \<Rightarrow> mat" where
  "draw_like src pos t =
     map (\<lambda>r. map (\<lambda>c. src (pos + sum_list (map length (take r t)) + c)) [0..<length (t ! r)])
       [0..<length t]"

definition advance :: "rng \<Rightarrow> 'a list list \<Rightarrow> rng" where
  "advance g t = g\<lparr>rng_pos := rng_pos g + sum_list (map length t)\<rparr>"

text \<open>\<^verbatim>\<open>torch.FloatTensor(size).normal_()\<close> for the size of \<open>t\<close>.\<close>

definition normal_like :: "'a list list \<Rightarrow> rng \<Rightarrow> mat \<times> rng" where
  "normal_like t g = (draw_like (rng_normal g) (rng_pos g) t, advance g t)"

text \<open>
  \<^verbatim>\<open>torch.bernoulli(probs)\<close>: an entry is 1 when the uniform draw is below its
  probability, else 0; a probability outside \<open>[0, 1]\<close> is refused.
\<close>

definition bernoulli :: "mat \<Rightarrow> rng \<Rightarrow> error + (mat \<times> rng)" where
  "bernoulli probs g =
     (if list_all (list_all (\<lambda>p. 0 \<le> p \<and> p \<le> 1)) probs
      then Inr (map2 (map2 (\<lambda>p u. if u < p then 1 else 0)) probs
                  (draw_like (rng_uniform g) (rng_pos g) probs), advance g probs)
      else Inl RuntimeError)"

text \<open>
  \<^verbatim>\<open>nn.Dropout(p)\<close>: the identity in evaluation mode; in training mode every entry is
  kept with probability \<open>1 - p\<close> and scaled by \<open>1 / (1 - p)\<close>, else zeroed. \<open>training\<close>
  is the mode flag of the module.
\<close>

record dropout =
  drop_p :: real
  drop_training :: bool

text \<open>The constructor refuses a probability outside \<open>[0, 1]\<close>.\<close>

definition Dropout :: "real \<Rightarrow> bool \<Rightarrow> error + dropout" where
  "Dropout p training =
     (if p < 0 \<or> 1 < p then Inl ValueError else Inr \<lparr>drop_p = p, drop_training = training\<rparr>)"

definition Dropout_forward :: "dropout \<Rightarrow> mat \<Rightarrow> rng \<Rightarrow> mat \<times> rng" where
  "Dropout_forward d x g =
     (if drop_training d
      then (map2 (map2 (\<lambda>v u. if u < 1 - drop_p d then v / (1 - drop_p d) else 0)) x
              (draw_like (rng_uniform g) (rng_pos g) x), advance g x)
      else (x, g))"

text \<open>
  \<^verbatim>\<open>nn.Linear\<close>: \<open>y = x W\<^sup>T + b\<close>, with \<open>W\<close> of shape (out, in), on a batch of rows. The
  constructor cannot build a weight tensor with a negative size.
\<close>

record linear =
  in_features :: nat
  out_features :: nat
  weight :: "real list list"
  bias :: "real list"

definition Linear ::
  "int \<Rightarrow> int \<Rightarrow> (nat \<Rightarrow> nat \<Rightarrow> real) \<Rightarrow> (nat \<Rightarrow> real) \<Rightarrow> error + linear" where
  "Linear n_in n_out w b =
     (if n_in < 0 \<or> n_out < 0 then Inl RuntimeError
      else Inr \<lparr>in_features = nat n_in, out_features = nat n_out,
                weight = map (\<lambda>j. map (w j) [0..<nat n_in]) [0..<nat n_out],
                bias = map b [0..<nat n_out]\<rparr>)"

definition Linear_forward :: "linear \<Rightarrow> mat \<Rightarrow> error + mat" where
  "Linear_forward l x =
     (if list_all (\<lambda>row. length row = in_features l) x
      then Inr (map (\<lambda>row. map2 (\<lambda>w b. sum_list (map2 (*) w row) + b) (weight l) (bias l)) x)
      else Inl RuntimeError)"

definition ReLU :: "mat \<Rightarrow> mat" where
  "ReLU x = map (map (max 0)) x"

text \<open>\<^verbatim>\<open>nn.PReLU()\<close> with its single learned slope \<open>a\<close>: \<open>max(0, x) + a * min(0, x)\<close>.\<close>

definition PReLU :: "real \<Rightarrow> mat \<Rightarrow> mat" where
  "PReLU a x = map (map (\<lambda>v. max 0 v + a * min 0 v)) x"

text \<open>
  The fields of \<^verbatim>\<open>opt\<close> that the modelled code reads. \<^verbatim>\<open>rnn_size\<close> is an integer of
  either sign, which the constructors divide, with Python's \<^verbatim>\<open>%\<close> and \<^verbatim>\<open>//\<close>, and
  multiply before a library module sees it.
\<close>

record opt =
  opt_layers :: nat
  opt_brnn :: bool
  opt_rnn_size :: int
  opt_word_vec_size :: nat
  opt_dropout :: real
  opt_dynamic_decode :: bool
  opt_gpus :: "nat list"
  opt_latent_size :: nat
  opt_feed_gt_prob :: real
  opt_deterministic :: bool
  opt_prelu :: bool

section \<open>Encoder\<close>

text \<open>
  \<^verbatim>\<open>nn.LSTM\<close> is a library module. Its forward function takes the embedded input
  (with the lengths of a packed batch, if any), an optional initial state and the random
  source (it has dropout between its layers), and returns the padded output sequence and
  the final \<open>(h, c)\<close>, each of shape (layers * directions, batch, dim); it raises on an
  input that does not fit the module.
\<close>

type_synonym lstm = "tensor3 \<times> int list option \<Rightarrow> (tensor3 \<times> tensor3) option \<Rightarrow> rng
  \<Rightarrow> error + ((tensor3 \<times> (tensor3 \<times> tensor3)) \<times> rng)"

text \<open>
  The constructor of \<^verbatim>\<open>nn.LSTM\<close> (input size, hidden size, layers, dropout,
  bidirectional) checks its arguments: the dropout is a probability, the hidden size and
  the number of layers are positive. \<open>forward\<close> stands for the forward function of the
  module it builds.
\<close>

definition LSTM :: "nat \<Rightarrow> int \<Rightarrow> nat \<Rightarrow> real \<Rightarrow> bool \<Rightarrow> lstm \<Rightarrow> error + lstm" where
  "LSTM input_size hidden_size num_layers dropout bidirectional forward =
     (if dropout < 0 \<or> 1 < dropout then Inl ValueError
      else if hidden_size \<le> 0 then Inl ValueError
      else if num_layers = 0 then Inl ValueError
      else Inr forward)"

record encoder =
  enc_layers :: nat
  enc_num_directions :: nat
  enc_hidden_size :: int
  enc_word_lut :: embedding
  enc_rnn :: lstm

text \<open>
  \<^verbatim>\<open>Encoder.__init__\<close>; \<open>forward\<close> stands for the forward function of the \<^verbatim>\<open>nn.LSTM\<close>
  module that the constructor builds.
\<close>

definition Encoder_init :: "opt \<Rightarrow> embedding \<Rightarrow> lstm \<Rightarrow> error + encoder" where
  "Encoder_init opt word_lut forward =
     (let num_directions = (if opt_brnn opt then 2 else 1) in
      if opt_rnn_size opt mod int num_directions \<noteq> 0 then Inl AssertionError
      else
        let hidden_size = opt_rnn_size opt div int num_directions;
            input_size = opt_word_vec_size opt
        in and_then (LSTM input_size hidden_size (opt_layers opt) (opt_dropout opt)
                       (opt_brnn opt) forward)
             (\<lambda>rnn. Inr \<lparr>enc_layers = opt_layers opt,
                          enc_num_directions = num_directions,
                          enc_hidden_size = hidden_size,
                          enc_word_lut = word_lut,
                          enc_rnn = rnn\<rparr>))"

text \<open>
  \<^verbatim>\<open>pack_padded_sequence(emb, lengths)\<close>: the embedded batch must have an element, there
  is one length for every sequence of the batch, the lengths are sorted in decreasing
  order, and every length is positive. A length beyond the number of time steps gives a
  packed batch with fewer rows than its lengths announce, on which the recurrent network
  raises; the model raises for it here.
\<close>

definition pack :: "tensor3 \<Rightarrow> int list \<Rightarrow> error + (tensor3 \<times> int list option)" where
  "pack emb lengths =
     (if concat (concat emb) \<noteq> [] \<and> length lengths = size1 emb \<and> sorted (rev lengths) \<and>
         list_all (\<lambda>l. 0 < l \<and> l \<le> int (length emb)) lengths
      then Inr (emb, Some lengths) else Inl RuntimeError)"

text \<open>
  \<^verbatim>\<open>Encoder.forward\<close>: the input is a token tensor (time, batch), or a tuple of one
  and the lengths of its sequences, which is packed before the recurrent network runs
  and unpacked after.
\<close>

datatype enc_input = Padded tokens | Packed tokens "int list"

definition Encoder_forward ::
  "encoder \<Rightarrow> enc_input \<Rightarrow> (tensor3 \<times> tensor3) option \<Rightarrow> rng
     \<Rightarrow> error + (((tensor3 \<times> tensor3) \<times> tensor3) \<times> rng)" where
  "Encoder_forward e input hidden g =
     and_then (case input of
                 Packed toks lens \<Rightarrow>
                   and_then (Embedding_forward (enc_word_lut e) toks) (\<lambda>emb. pack emb lens)
               | Padded toks \<Rightarrow>
                   and_then (Embedding_forward (enc_word_lut e) toks) (\<lambda>emb. Inr (emb, None)))
       (\<lambda>emb.
     and_then (enc_rnn e emb hidden g) (\<lambda>((outputs, hidden_t), g').
       Inr ((hidden_t, outputs), g')))"

section \<open>StackedLSTM\<close>

text \<open>
  \<^verbatim>\<open>nn.LSTMCell\<close> is a library module with an input size and a hidden size. Its forward
  function takes the input and \<open>(h, c)\<close> to the new \<open>(h, c)\<close>; it checks them against the
  module before it computes: the input is a batch of rows of the input size, and \<open>h\<close> and
  \<open>c\<close> have one row of the hidden size for every row of the input. The arithmetic of the
  update is a parameter of the model.
\<close>

record lstm_cell =
  cell_input_size :: nat
  cell_hidden_size :: nat
  cell_update :: "mat \<Rightarrow> mat \<times> mat \<Rightarrow> mat \<times> mat"

text \<open>
  The constructor of \<^verbatim>\<open>nn.LSTMCell\<close> (input size, hidden size) cannot build a weight
  tensor with a negative size.
\<close>

definition LSTMCell ::
  "int \<Rightarrow> int \<Rightarrow> (mat \<Rightarrow> mat \<times> mat \<Rightarrow> mat \<times> mat) \<Rightarrow> error + lstm_cell" where
  "LSTMCell input_size hidden_size update =
     (if input_size < 0 \<or> hidden_size < 0 then Inl RuntimeError
      else Inr \<lparr>cell_input_size = nat input_size, cell_hidden_size = nat hidden_size,
                cell_update = update\<rparr>)"

definition LSTMCell_forward :: "lstm_cell \<Rightarrow> mat \<Rightarrow> mat \<times> mat \<Rightarrow> error + (mat \<times> mat)" where
  "LSTMCell_forward cell input hx =
     (let (h, c) = hx; batch = length input in
      if has_shape2 input batch (cell_input_size cell) \<and>
         has_shape2 h batch (cell_hidden_size cell) \<and> has_shape2 c batch (cell_hidden_size cell)
      then Inr (cell_update cell input (h, c))
      else Inl RuntimeError)"

record stacked_lstm =
  sl_dropout :: dropout
  sl_num_layers :: nat
  sl_layers :: "lstm_cell list"

text \<open>
  The loop of \<^verbatim>\<open>StackedLSTM.__init__\<close> over \<^verbatim>\<open>range(num_layers)\<close>; \<open>update i\<close> stands
  for the arithmetic of the \<open>i\<close>-th cell.
\<close>

fun StackedLSTM_layers ::
  "(nat \<Rightarrow> mat \<Rightarrow> mat \<times> mat \<Rightarrow> mat \<times> mat) \<Rightarrow> nat \<Rightarrow> nat \<Rightarrow> int \<Rightarrow> int
     \<Rightarrow> error + lstm_cell list" where
  "StackedLSTM_layers update i 0 input_size rnn_size = Inr []"
| "StackedLSTM_layers update i (Suc n) input_size rnn_size =
     and_then (LSTMCell input_size rnn_size (update i)) (\<lambda>layer.
     and_then (StackedLSTM_layers update (Suc i) n rnn_size rnn_size) (\<lambda>layers.
       Inr (layer # layers)))"

text \<open>\<^verbatim>\<open>StackedLSTM.__init__\<close>; \<open>training\<close> is the mode flag of the module.\<close>

definition StackedLSTM_init ::
  "nat \<Rightarrow> int \<Rightarrow> int \<Rightarrow> real \<Rightarrow> bool \<Rightarrow> (nat \<Rightarrow> mat \<Rightarrow> mat \<times> mat \<Rightarrow> mat \<times> mat)
     \<Rightarrow> error + stacked_lstm" where
  "StackedLSTM_init num_layers input_size rnn_size p training update =
     and_then (Dropout p training) (\<lambda>dropout.
     and_then (StackedLSTM_layers update 0 num_layers input_size rnn_size) (\<lambda>layers.
       Inr \<lparr>sl_dropout = dropout, sl_num_layers = num_layers, sl_layers = layers\<rparr>))"

text \<open>The loop of \<^verbatim>\<open>StackedLSTM.forward\<close> over \<^verbatim>\<open>enumerate(self.layers)\<close>.\<close>

fun StackedLSTM_loop ::
  "stacked_lstm \<Rightarrow> nat \<Rightarrow> lstm_cell list \<Rightarrow> mat \<Rightarrow> tensor3 \<Rightarrow> tensor3 \<Rightarrow> mat list \<Rightarrow> mat list
     \<Rightarrow> rng \<Rightarrow> error + (mat \<times> mat list \<times> mat list \<times> rng)" where
  "StackedLSTM_loop s i [] input h_0 c_0 h_1 c_1 g = Inr (input, h_1, c_1, g)"
| "StackedLSTM_loop s i (layer # rest) input h_0 c_0 h_1 c_1 g =
     (if i < length h_0 \<and> i < length c_0 then
        and_then (LSTMCell_forward layer input (h_0 ! i, c_0 ! i)) (\<lambda>(h_1_i, c_1_i).
          let (input', g') = (if i + 1 \<noteq> sl_num_layers s
                              then Dropout_forward (sl_dropout s) h_1_i g else (h_1_i, g))
          in StackedLSTM_loop s (i + 1) rest input' h_0 c_0 (h_1 @ [h_1_i]) (c_1 @ [c_1_i]) g')
      else Inl IndexError)"

text \<open>\<^verbatim>\<open>StackedLSTM.forward\<close>.\<close>

definition StackedLSTM_forward ::
  "stacked_lstm \<Rightarrow> mat \<Rightarrow> tensor3 \<times> tensor3 \<Rightarrow> rng \<Rightarrow> error + ((mat \<times> (tensor3 \<times> tensor3)) \<times> rng)" where
  "StackedLSTM_forward s input hidden g =
     (let (h_0, c_0) = hidden in
      and_then (StackedLSTM_loop s 0 (sl_layers s) input h_0 c_0 [] [] g)
        (\<lambda>(input', h_1, c_1, g').
      and_then (stack h_1) (\<lambda>h_1.
      and_then (stack c_1) (\<lambda>c_1. Inr ((input', (h_1, c_1)), g')))))"

section \<open>Decoder\<close>

text \<open>
  The generator is a module given to the constructor: outputs to vocabulary logits; it
  raises on an input that does not fit it. The attribute \<^verbatim>\<open>ss\<close>, which no method reads,
  is left out.
\<close>

record decoder =
  dec_layers :: nat
  dec_dynamic_decode :: bool
  dec_rnn :: stacked_lstm
  dec_word_lut :: embedding
  dec_generator :: "mat \<Rightarrow> error + mat"
  dec_dropout :: dropout
  dec_hidden_size :: int

text \<open>
  \<^verbatim>\<open>Decoder.__init__\<close>; \<open>training\<close> is the mode flag of the module and \<open>update i\<close> the
  arithmetic of the \<open>i\<close>-th cell of the stacked recurrent network.
\<close>

definition Decoder_init ::
  "opt \<Rightarrow> embedding \<Rightarrow> (mat \<Rightarrow> error + mat) \<Rightarrow> bool
     \<Rightarrow> (nat \<Rightarrow> mat \<Rightarrow> mat \<times> mat \<Rightarrow> mat \<times> mat) \<Rightarrow> error + decoder" where
  "Decoder_init opt word_lut generator training update =
     (let input_size = int (opt_word_vec_size opt) in
      and_then (StackedLSTM_init (opt_layers opt) input_size (opt_rnn_size opt)
                  (opt_dropout opt) training update) (\<lambda>rnn.
      and_then (Dropout (opt_dropout opt) training) (\<lambda>dropout.
        Inr \<lparr>dec_layers = opt_layers opt,
             dec_dynamic_decode = opt_dynamic_decode opt,
             dec_rnn = rnn,
             dec_word_lut = word_lut,
             dec_generator = generator,
             dec_dropout = dropout,
             dec_hidden_size = opt_rnn_size opt\<rparr>)))"

text \<open>
  The state of the loop of \<^verbatim>\<open>Decoder.forward\<close>: the variable \<^verbatim>\<open>input_t\<close> (unbound before
  the first iteration), \<^verbatim>\<open>hidden\<close>, the random source and \<^verbatim>\<open>outputs\<close>.
\<close>

type_synonym dec_state = "mat option \<times> (tensor3 \<times> tensor3) \<times> rng \<times> mat list"

text \<open>
  The body of the loop of \<^verbatim>\<open>Decoder.forward\<close> at iteration \<open>i\<close>, on the time slice
  \<^verbatim>\<open>emb_t.squeeze(0)\<close>. \<^verbatim>\<open>input_t\<close> is assigned from the slice when dynamic decoding is
  off or \<open>i = 0\<close>, else it keeps the value that the iteration before has left.
\<close>

definition Decoder_step :: "decoder \<Rightarrow> nat \<Rightarrow> mat \<Rightarrow> dec_state \<Rightarrow> error + dec_state" where
  "Decoder_step d i emb_t st =
     (case st of (input_t, hidden, g, outputs) \<Rightarrow>
        and_then (if \<not> dec_dynamic_decode d \<or> i = 0 then Inr emb_t
                  else (case input_t of None \<Rightarrow> Inl UnboundLocalError | Some v \<Rightarrow> Inr v))
          (\<lambda>input_t.
        and_then (StackedLSTM_forward (dec_rnn d) input_t hidden g) (\<lambda>((output, hidden'), g1).
          let (output', g2) = Dropout_forward (dec_dropout d) output g1 in
          and_then (dec_generator d output') (\<lambda>logit.
            if dec_dynamic_decode d
            then and_then (max_indices logit) (\<lambda>indices.
                 and_then (Embedding_forward1 (dec_word_lut d) (map int indices)) (\<lambda>input_t'.
                   Inr (Some input_t', hidden', g2, outputs @ [logit])))
            else Inr (Some input_t, hidden', g2, outputs @ [logit])))))"

text \<open>
  The loop over \<^verbatim>\<open>enumerate(emb.split(1))\<close>: the slices of size 1 along the time axis,
  each squeezed to a (batch, width) matrix, are the rows of \<open>emb\<close>.
\<close>

fun Decoder_loop :: "decoder \<Rightarrow> nat \<Rightarrow> mat list \<Rightarrow> dec_state \<Rightarrow> error + dec_state" where
  "Decoder_loop d i [] st = Inr st"
| "Decoder_loop d i (emb_t # rest) st =
     and_then (Decoder_step d i emb_t st) (Decoder_loop d (Suc i) rest)"

text \<open>\<^verbatim>\<open>Decoder.forward(input, hidden, init_output, step)\<close>.\<close>

definition Decoder_forward ::
  "decoder \<Rightarrow> tokens \<Rightarrow> tensor3 \<times> tensor3 \<Rightarrow> mat \<Rightarrow> int \<Rightarrow> rng
     \<Rightarrow> error + ((tensor3 \<times> (tensor3 \<times> tensor3)) \<times> rng)" where
  "Decoder_forward d input hidden init_output step g =
     and_then (Embedding_forward (dec_word_lut d) input) (\<lambda>emb.
     and_then (Decoder_loop d 0 emb (None, hidden, g, [])) (\<lambda>(input_t, hidden', g', outputs).
     and_then (stack outputs) (\<lambda>outputs. Inr ((outputs, hidden'), g'))))"

section \<open>NMTModel\<close>

record nmt_model =
  m_encoder :: encoder
  m_decoder :: decoder
  m_layers :: nat
  m_gpus :: "nat list"
  m_latent_size :: nat
  m_feed_gt_prob :: real
  m_dynamic_decode :: bool
  m_deterministic :: bool
  m_prelu :: bool
  encoder_to_mu :: linear
  encoder_to_nu :: linear
  nu_to_logvar :: linear
  latent_to_decoder :: linear
  prelu_mu :: real
  prelu_logvar :: real
  prelu_dec :: real
  m_training :: bool

text \<open>
  The current values of the learned parameters: weights and biases of the four linear
  maps and the slopes of the three \<^verbatim>\<open>nn.PReLU\<close> modules (which exist when \<^verbatim>\<open>opt.prelu\<close>
  is set).
\<close>

record nmt_params =
  mu_w :: "nat \<Rightarrow> nat \<Rightarrow> real"
  mu_b :: "nat \<Rightarrow> real"
  nu_w :: "nat \<Rightarrow> nat \<Rightarrow> real"
  nu_b :: "nat \<Rightarrow> real"
  logvar_w :: "nat \<Rightarrow> nat \<Rightarrow> real"
  logvar_b :: "nat \<Rightarrow> real"
  dec_w :: "nat \<Rightarrow> nat \<Rightarrow> real"
  dec_b :: "nat \<Rightarrow> real"
  a_mu :: real
  a_logvar :: real
  a_dec :: real

text \<open>\<^verbatim>\<open>NMTModel.__init__\<close>; \<open>training\<close> is the mode flag of the module.\<close>

definition NMTModel_init ::
  "encoder \<Rightarrow> decoder \<Rightarrow> opt \<Rightarrow> bool \<Rightarrow> nmt_params \<Rightarrow> error + nmt_model" where
  "NMTModel_init encoder decoder opt training ps =
     (let concat_hidden_size = int (opt_layers opt) * opt_rnn_size opt * 2;
          latent_size = int (opt_latent_size opt) in
      and_then (Linear concat_hidden_size latent_size (mu_w ps) (mu_b ps)) (\<lambda>to_mu.
      and_then (Linear concat_hidden_size latent_size (nu_w ps) (nu_b ps)) (\<lambda>to_nu.
      and_then (Linear latent_size latent_size (logvar_w ps) (logvar_b ps)) (\<lambda>to_logvar.
      and_then (Linear latent_size concat_hidden_size (dec_w ps) (dec_b ps)) (\<lambda>to_decoder.
        Inr \<lparr>m_encoder = encoder,
             m_decoder = decoder,
             m_layers = opt_layers opt,
             m_gpus = opt_gpus opt,
             m_latent_size = opt_latent_size opt,
             m_feed_gt_prob = opt_feed_gt_prob opt,
             m_dynamic_decode = opt_dynamic_decode opt,
             m_deterministic = opt_deterministic opt,
             m_prelu = opt_prelu opt,
             encoder_to_mu = to_mu,
             encoder_to_nu = to_nu,
             nu_to_logvar = to_logvar,
             latent_to_decoder = to_decoder,
             prelu_mu = a_mu ps,
             prelu_logvar = a_logvar ps,
             prelu_dec = a_dec ps,
             m_training = training\<rparr>)))))"

text \<open>
  \<^verbatim>\<open>NMTModel.encode\<close>, the two statements that turn the encoder's final state into a
  matrix: \<^verbatim>\<open>torch.cat((h, c), 2).transpose(0, 1).contiguous()\<close>, then
  \<^verbatim>\<open>.view(size(0), -1)\<close>.
\<close>

definition flatten_hidden :: "tensor3 \<times> tensor3 \<Rightarrow> error + mat" where
  "flatten_hidden enc_hidden =
     and_then (cat_dim2 (fst enc_hidden) (snd enc_hidden)) (\<lambda>t. view_rows (transpose t))"

text \<open>\<^verbatim>\<open>NMTModel.encode\<close> from the encoder's final state on.\<close>

definition encode_hidden :: "nmt_model \<Rightarrow> tensor3 \<times> tensor3 \<Rightarrow> error + (mat \<times> mat)" where
  "encode_hidden m enc_hidden =
     and_then (flatten_hidden enc_hidden) (\<lambda>flat.
     and_then (Linear_forward (encoder_to_mu m) flat) (\<lambda>mu.
     and_then (Linear_forward (encoder_to_nu m) flat) (\<lambda>nu0.
     and_then (Linear_forward (nu_to_logvar m) (ReLU nu0)) (\<lambda>lv.
       let logvar = map (map (\<lambda>v. - 2 * \<bar>v\<bar>)) lv in
       if m_prelu m then Inr (PReLU (prelu_mu m) mu, PReLU (prelu_logvar m) logvar)
       else Inr (mu, logvar)))))"

definition NMTModel_encode ::
  "nmt_model \<Rightarrow> enc_input \<Rightarrow> rng \<Rightarrow> error + ((mat \<times> mat) \<times> rng)" where
  "NMTModel_encode m x g =
     and_then (Encoder_forward (m_encoder m) x None g) (\<lambda>((enc_hidden, outputs), g').
     and_then (encode_hidden m enc_hidden) (\<lambda>r. Inr (r, g')))"

text \<open>
  \<^verbatim>\<open>NMTModel.reparameterize\<close>; the two branches on \<^verbatim>\<open>self.gpus\<close> differ in the device
  of \<open>eps\<close> only.
\<close>

definition reparameterize :: "nmt_model \<Rightarrow> mat \<Rightarrow> mat \<Rightarrow> rng \<Rightarrow> error + (mat \<times> rng)" where
  "reparameterize m mu logvar g =
     (let std = map (map (\<lambda>v. exp (v * 0.5))) logvar;
          (eps, g') = (if m_gpus m \<noteq> [] then normal_like std g else normal_like std g)
      in and_then (broadcast2 (*) eps std) (\<lambda>es.
         and_then (broadcast2 (+) es mu) (\<lambda>z. Inr (z, g'))))"

text \<open>The choice of \<open>z\<close> in \<^verbatim>\<open>NMTModel.forward\<close>.\<close>

definition sample_z :: "nmt_model \<Rightarrow> mat \<Rightarrow> mat \<Rightarrow> rng \<Rightarrow> error + (mat \<times> rng)" where
  "sample_z m mu logvar g =
     (if \<not> m_deterministic m then reparameterize m mu logvar g else Inr (mu, g))"

text \<open>
  \<^verbatim>\<open>NMTModel.make_init_decoder_output\<close>: a new tensor of zeros; a tensor cannot be
  built with a negative size.
\<close>

definition make_init_decoder_output :: "nmt_model \<Rightarrow> mat \<Rightarrow> error + mat" where
  "make_init_decoder_output m z =
     (let batch_size = length z;
          hidden_size = dec_hidden_size (m_decoder m) in
      if hidden_size < 0 then Inl RuntimeError
      else Inr (replicate batch_size (replicate (nat hidden_size) 0)))"

text \<open>\<^verbatim>\<open>NMTModel.decode\<close> up to the initial state of the decoder.\<close>

definition decode_states :: "nmt_model \<Rightarrow> mat \<Rightarrow> error + (tensor3 \<times> tensor3)" where
  "decode_states m z =
     and_then (Linear_forward (latent_to_decoder m) z) (\<lambda>d.
       let decStates = (if m_prelu m then PReLU (prelu_dec m) d else d) in
       and_then (view3 (m_layers m) (length z) decStates) chunk2)"

definition NMTModel_decode ::
  "nmt_model \<Rightarrow> mat \<Rightarrow> tokens \<Rightarrow> int \<Rightarrow> rng \<Rightarrow> error + (tensor3 \<times> rng)" where
  "NMTModel_decode m z tgt step g =
     and_then (decode_states m z) (\<lambda>decStates.
     and_then (make_init_decoder_output m z) (\<lambda>init_output.
     and_then (Decoder_forward (m_decoder m) tgt decStates init_output step g)
       (\<lambda>((x, dec_hidden), g'). Inr (x, g'))))"

text \<open>
  \<^verbatim>\<open>NMTModel._fix_enc_hidden\<close>: \<^verbatim>\<open>h.view(k // 2, 2, b, d)\<close> pairs the slices of axis 0
  (it needs an even \<open>k\<close>), \<^verbatim>\<open>transpose(1, 2)\<close> swaps the pair and the batch axis, and
  the last view joins each pair.
\<close>

definition fix_enc_hidden :: "nmt_model \<Rightarrow> tensor3 \<Rightarrow> error + tensor3" where
  "fix_enc_hidden m h =
     (if enc_num_directions (m_encoder m) = 2 then
        if even (length h)
        then Inr (map (map concat)
               (map transpose (map (\<lambda>i. [h ! (2 * i), h ! (2 * i + 1)]) [0..<length h div 2])))
        else Inl RuntimeError
      else Inr h)"

text \<open>
  The reading of the specification, for comparison with \<open>NMTModel_encode\<close>: the final
  states of the encoder are merged by \<open>fix_enc_hidden\<close> before the bottleneck's encode
  step flattens them.
\<close>

definition encode_with_merge ::
  "nmt_model \<Rightarrow> enc_input \<Rightarrow> rng \<Rightarrow> error + ((mat \<times> mat) \<times> rng)" where
  "encode_with_merge m x g =
     and_then (Encoder_forward (m_encoder m) x None g) (\<lambda>((enc_hidden, outputs), g').
     and_then (fix_enc_hidden m (fst enc_hidden)) (\<lambda>h.
     and_then (fix_enc_hidden m (snd enc_hidden)) (\<lambda>c.
     and_then (encode_hidden m (h, c)) (\<lambda>r. Inr (r, g')))))"

text \<open>
  \<^verbatim>\<open>NMTModel.replace_by_unk\<close>; \<open>UNK\<close> is \<^verbatim>\<open>onmt.Constants.UNK\<close>. A tensor cannot be
  built with a negative size.
\<close>

definition replace_by_unk ::
  "int \<Rightarrow> nmt_model \<Rightarrow> tokens \<Rightarrow> real \<Rightarrow> rng \<Rightarrow> error + (tokens \<times> rng)" where
  "replace_by_unk UNK m seqs prob g =
     (let seq_len = int (length seqs);
          batch_size = size1 seqs;
          n = (if m_gpus m \<noteq> [] then seq_len - 1 else seq_len - 2)
      in if n < 0 then Inl RuntimeError
         else
           let probs = replicate (nat n) (replicate batch_size prob);
               ones = [replicate batch_size 1];
               probs = ones @ probs
           in and_then (bernoulli probs g) (\<lambda>(samples, g').
                let added = map (map (\<lambda>s. (1 - s) * real_of_int UNK)) samples in
                and_then (broadcast2 (*) seqs (map (map long) samples)) (\<lambda>kept.
                and_then (broadcast2 (+) kept (map (map long) added)) (\<lambda>r. Inr (r, g')))))"

text \<open>\<^verbatim>\<open>NMTModel.forward\<close>; \<open>input\<close> is the pair of the source and the target.\<close>

definition NMTModel_forward ::
  "int \<Rightarrow> nmt_model \<Rightarrow> enc_input \<times> tokens \<Rightarrow> int \<Rightarrow> rng
     \<Rightarrow> error + ((tensor3 \<times> mat \<times> mat) \<times> rng)" where
  "NMTModel_forward UNK m input step g =
     (let src = fst input; tgt = butlast (snd input) in
      and_then (if m_training m \<and> m_feed_gt_prob m < 1
                then replace_by_unk UNK m tgt (m_feed_gt_prob m) g else Inr (tgt, g))
        (\<lambda>(tgt, g1).
      and_then (NMTModel_encode m src g1) (\<lambda>((mu, logvar), g2).
      and_then (sample_z m mu logvar g2) (\<lambda>(z, g3).
      and_then (NMTModel_decode m z tgt step g3) (\<lambda>(out, g4).
        Inr ((out, mu, logvar), g4))))))"

section \<open>The forward pass over a store of tensors\<close>

text \<open>
  Tensors are objects: a slice such as \<^verbatim>\<open>input[1][:-1]\<close> shares the storage of the tensor
  it is taken from, and the operations whose name ends in an underscore (\<^verbatim>\<open>fill_\<close>,
  \<^verbatim>\<open>normal_\<close>, \<^verbatim>\<open>zero_\<close>) write into the storage of their argument. To state what a
  call does to the tensors of its caller, the forward pass is modelled once more, over
  a store: a list of storages, in which an address is a position and a new storage is
  appended. A reference is a view of consecutive slices of axis 0 of a storage.
\<close>

type_synonym addr = nat

datatype tval = Long tokens | Float mat | Float3 tensor3

type_synonym store = "tval list"

datatype tref = View (base: addr) (first_row: nat) (n_rows: nat)

definition rows_of :: "nat \<Rightarrow> nat \<Rightarrow> 'a list \<Rightarrow> 'a list" where
  "rows_of lo n t = take n (drop lo t)"

text \<open>Reading a tensor of the given element type through a reference.\<close>

definition read_long :: "store \<Rightarrow> tref \<Rightarrow> error + tokens" where
  "read_long st r =
     (case r of View a lo n \<Rightarrow>
        if a < length st
        then (case st ! a of Long t \<Rightarrow> Inr (rows_of lo n t) | _ \<Rightarrow> Inl RuntimeError)
        else Inl RuntimeError)"

definition read_float :: "store \<Rightarrow> tref \<Rightarrow> error + mat" where
  "read_float st r =
     (case r of View a lo n \<Rightarrow>
        if a < length st
        then (case st ! a of Float t \<Rightarrow> Inr (rows_of lo n t) | _ \<Rightarrow> Inl RuntimeError)
        else Inl RuntimeError)"

definition read_float3 :: "store \<Rightarrow> tref \<Rightarrow> error + tensor3" where
  "read_float3 st r =
     (case r of View a lo n \<Rightarrow>
        if a < length st
        then (case st ! a of Float3 t \<Rightarrow> Inr (rows_of lo n t) | _ \<Rightarrow> Inl RuntimeError)
        else Inl RuntimeError)"

text \<open>The result of an operation is a new tensor, with a storage of its own.\<close>

definition alloc_long :: "store \<Rightarrow> tokens \<Rightarrow> tref \<times> store" where
  "alloc_long st t = (View (length st) 0 (length t), st @ [Long t])"

definition alloc_float :: "store \<Rightarrow> mat \<Rightarrow> tref \<times> store" where
  "alloc_float st t = (View (length st) 0 (length t), st @ [Float t])"

definition alloc_float3 :: "store \<Rightarrow> tensor3 \<Rightarrow> tref \<times> store" where
  "alloc_float3 st t = (View (length st) 0 (length t), st @ [Float3 t])"

text \<open>
  Writing in place: the slices that the reference covers are replaced in the storage it
  points to. \<^verbatim>\<open>fill_\<close> (and \<^verbatim>\<open>zero_\<close>, which fills with 0) and \<^verbatim>\<open>normal_\<close> are such writes.
\<close>

definition write_rows :: "store \<Rightarrow> tref \<Rightarrow> mat \<Rightarrow> error + store" where
  "write_rows st r new =
     (case r of View a lo n \<Rightarrow>
        if a < length st
        then (case st ! a of
                Float t \<Rightarrow> Inr (st[a := Float (take lo t @ new @ drop (lo + n) t)])
              | _ \<Rightarrow> Inl RuntimeError)
        else Inl RuntimeError)"

definition fill_inplace :: "store \<Rightarrow> tref \<Rightarrow> real \<Rightarrow> error + store" where
  "fill_inplace st r v =
     and_then (read_float st r) (\<lambda>t. write_rows st r (map (map (\<lambda>_. v)) t))"

definition normal_inplace :: "store \<Rightarrow> tref \<Rightarrow> rng \<Rightarrow> error + (store \<times> rng)" where
  "normal_inplace st r g =
     and_then (read_float st r) (\<lambda>t.
       let (eps, g') = normal_like t g in
       and_then (write_rows st r eps) (\<lambda>st'. Inr (st', g')))"

text \<open>
  \<^verbatim>\<open>torch.FloatTensor(rows, cols)\<close>: a new tensor, whose uninitialised entries are taken
  to be 0; a negative size is refused.
\<close>

definition FloatTensor :: "store \<Rightarrow> int \<Rightarrow> int \<Rightarrow> error + (tref \<times> store)" where
  "FloatTensor st rows cols =
     (if rows < 0 \<or> cols < 0 then Inl RuntimeError
      else Inr (alloc_float st (replicate (nat rows) (replicate (nat cols) 0))))"

text \<open>
  Operations that read their arguments and return a new tensor: on one or two float
  tensors, \<^verbatim>\<open>.long()\<close> of a float tensor, and on two integer tensors.
\<close>

definition float_op :: "store \<Rightarrow> tref \<Rightarrow> (mat \<Rightarrow> error + mat) \<Rightarrow> error + (tref \<times> store)" where
  "float_op st a f =
     and_then (read_float st a) (\<lambda>x. and_then (f x) (\<lambda>y. Inr (alloc_float st y)))"

definition float_op2 ::
  "store \<Rightarrow> tref \<Rightarrow> tref \<Rightarrow> (mat \<Rightarrow> mat \<Rightarrow> error + mat) \<Rightarrow> error + (tref \<times> store)" where
  "float_op2 st a b f =
     and_then (read_float st a) (\<lambda>x. and_then (read_float st b) (\<lambda>y.
       and_then (f x y) (\<lambda>z. Inr (alloc_float st z))))"

definition to_long :: "store \<Rightarrow> tref \<Rightarrow> error + (tref \<times> store)" where
  "to_long st a = and_then (read_float st a) (\<lambda>x. Inr (alloc_long st (map (map long) x)))"

definition long_op2 ::
  "store \<Rightarrow> tref \<Rightarrow> tref \<Rightarrow> (tokens \<Rightarrow> tokens \<Rightarrow> error + tokens) \<Rightarrow> error + (tref \<times> store)" where
  "long_op2 st a b f =
     and_then (read_long st a) (\<lambda>x. and_then (read_long st b) (\<lambda>y.
       and_then (f x y) (\<lambda>z. Inr (alloc_long st z))))"

text \<open>The slice \<^verbatim>\<open>t[:-1]\<close>: a view of the same storage without its last slice.\<close>

definition butlast_view :: "store \<Rightarrow> tref \<Rightarrow> error + tref" where
  "butlast_view st r =
     and_then (read_long st r) (\<lambda>t. case r of View a lo n \<Rightarrow> Inr (View a lo (length t - 1)))"

text \<open>The source is a token tensor, or a tuple of one and the lengths of its sequences.\<close>

datatype src_ref = PaddedRef tref | PackedRef tref "int list"

definition read_src :: "store \<Rightarrow> src_ref \<Rightarrow> error + enc_input" where
  "read_src st s =
     (case s of
        PaddedRef r \<Rightarrow> and_then (read_long st r) (\<lambda>t. Inr (Padded t))
      | PackedRef r lens \<Rightarrow> and_then (read_long st r) (\<lambda>t. Inr (Packed t lens)))"

text \<open>\<^verbatim>\<open>NMTModel.replace_by_unk\<close>, statement by statement.\<close>

definition replace_by_unk_st ::
  "int \<Rightarrow> nmt_model \<Rightarrow> store \<Rightarrow> tref \<Rightarrow> real \<Rightarrow> rng \<Rightarrow> error + (tref \<times> store \<times> rng)" where
  "replace_by_unk_st UNK m st seqs prob g =
     and_then (read_long st seqs) (\<lambda>seqs_v.
       let seq_len = int (length seqs_v);
           batch_size = int (size1 seqs_v)
       in
       and_then (FloatTensor st (if m_gpus m \<noteq> [] then seq_len - 1 else seq_len - 2) batch_size)
         (\<lambda>(probs, st).
       and_then (fill_inplace st probs prob) (\<lambda>st.
       and_then (FloatTensor st 1 batch_size) (\<lambda>(ones, st).
       and_then (fill_inplace st ones 1) (\<lambda>st.
       and_then (float_op2 st ones probs (\<lambda>x y. Inr (x @ y))) (\<lambda>(probs, st).
       and_then (read_float st probs) (\<lambda>probs_v.
       and_then (bernoulli probs_v g) (\<lambda>(samples_v, g').
       let (samples, st) = alloc_float st samples_v in
       and_then (float_op st samples (\<lambda>x. Inr (map (map (\<lambda>s. 1 - s)) x))) (\<lambda>(one_minus, st).
       and_then (float_op st one_minus (\<lambda>x. Inr (map (map (\<lambda>s. s * real_of_int UNK)) x)))
         (\<lambda>(added, st).
       and_then (to_long st samples) (\<lambda>(samples_long, st).
       and_then (long_op2 st seqs samples_long (broadcast2 (*))) (\<lambda>(kept, st).
       and_then (to_long st added) (\<lambda>(added_long, st).
       and_then (long_op2 st kept added_long (broadcast2 (+))) (\<lambda>(r, st).
         Inr (r, st, g')))))))))))))))"

text \<open>
  \<^verbatim>\<open>NMTModel.reparameterize\<close>: \<^verbatim>\<open>FloatTensor(std.size())\<close> is a new tensor of the shape of
  \<open>std\<close>, which \<^verbatim>\<open>normal_\<close> then fills in place.
\<close>

definition reparameterize_st ::
  "nmt_model \<Rightarrow> store \<Rightarrow> tref \<Rightarrow> tref \<Rightarrow> rng \<Rightarrow> error + (tref \<times> store \<times> rng)" where
  "reparameterize_st m st mu logvar g =
     and_then (float_op st logvar (\<lambda>x. Inr (map (map (\<lambda>v. v * 0.5)) x))) (\<lambda>(half, st).
     and_then (float_op st half (\<lambda>x. Inr (map (map exp) x))) (\<lambda>(std, st).
     and_then (float_op st std (\<lambda>x. Inr (map (map (\<lambda>_. 0)) x))) (\<lambda>(eps, st).
     and_then (normal_inplace st eps g) (\<lambda>(st, g').
     and_then (float_op2 st eps std (broadcast2 (*))) (\<lambda>(es, st).
     and_then (float_op2 st es mu (broadcast2 (+))) (\<lambda>(z, st).
       Inr (z, st, g')))))))"

text \<open>\<^verbatim>\<open>NMTModel.make_init_decoder_output\<close>: \<^verbatim>\<open>z.data.new(batch, hidden).zero_()\<close>.\<close>

definition make_init_decoder_output_st :: "nmt_model \<Rightarrow> store \<Rightarrow> tref \<Rightarrow> error + (tref \<times> store)" where
  "make_init_decoder_output_st m st z =
     and_then (read_float st z) (\<lambda>z_v.
       let batch_size = length z_v in
       and_then (FloatTensor st (int batch_size) (dec_hidden_size (m_decoder m))) (\<lambda>(h, st).
       and_then (fill_inplace st h 0) (\<lambda>st. Inr (h, st))))"

text \<open>
  \<^verbatim>\<open>NMTModel.forward\<close>. The encoder, the linear maps and the decoder have no operation that
  writes in place: they are run on the values read from the store, as in
  \<open>NMTModel_encode\<close>, \<open>decode_states\<close> and \<open>Decoder_forward\<close>, and their results are put
  in the store.
\<close>

definition NMTModel_forward_st ::
  "int \<Rightarrow> nmt_model \<Rightarrow> store \<Rightarrow> src_ref \<times> tref \<Rightarrow> int \<Rightarrow> rng
     \<Rightarrow> error + ((tref \<times> tref \<times> tref) \<times> store \<times> rng)" where
  "NMTModel_forward_st UNK m st input step g =
     (let src = fst input in
      and_then (butlast_view st (snd input)) (\<lambda>tgt.
      and_then (if m_training m \<and> m_feed_gt_prob m < 1
                then replace_by_unk_st UNK m st tgt (m_feed_gt_prob m) g else Inr (tgt, st, g))
        (\<lambda>(tgt, st, g1).
      and_then (read_src st src) (\<lambda>x.
      and_then (NMTModel_encode m x g1) (\<lambda>((mu_v, logvar_v), g2).
      let (mu, st) = alloc_float st mu_v;
          (logvar, st) = alloc_float st logvar_v in
      and_then (if \<not> m_deterministic m then reparameterize_st m st mu logvar g2
                else Inr (mu, st, g2)) (\<lambda>(z, st, g3).
      and_then (read_float st z) (\<lambda>z_v.
      and_then (decode_states m z_v) (\<lambda>decStates.
      and_then (make_init_decoder_output_st m st z) (\<lambda>(init_output, st).
      and_then (read_float st init_output) (\<lambda>init_output_v.
      and_then (read_long st tgt) (\<lambda>tgt_v.
      and_then (Decoder_forward (m_decoder m) tgt_v decStates init_output_v step g3)
        (\<lambda>((x, dec_hidden), g4).
      let (out, st) = alloc_float3 st x in
      Inr ((out, mu, logvar), st, g4)))))))))))))"

section \<open>Contracts of the library modules\<close>

text \<open>
  The arithmetic of the cells and the generator are parameters of the model. What the
  library guarantees of them is stated as contracts: the update of a cell for inputs of
  width \<open>n\<close> and states of width \<open>r\<close> returns, for a batch of \<open>b\<close> rows, states of the
  shape of its state; a generator for outputs of width \<open>r\<close> returns \<open>v\<close> logits for
  every row of the batch.
\<close>

definition update_keeps_shape ::
  "(mat \<Rightarrow> mat \<times> mat \<Rightarrow> mat \<times> mat) \<Rightarrow> nat \<Rightarrow> nat \<Rightarrow> nat \<Rightarrow> bool" where
  "update_keeps_shape update b n r =
     (\<forall>x h c. has_shape2 x b n \<and> has_shape2 h b r \<and> has_shape2 c b r \<longrightarrow>
        has_shape2 (fst (update x (h, c))) b r \<and> has_shape2 (snd (update x (h, c))) b r)"

text \<open>A cell of these sizes whose update keeps the contract.\<close>

definition cell_fits :: "lstm_cell \<Rightarrow> nat \<Rightarrow> nat \<Rightarrow> nat \<Rightarrow> bool" where
  "cell_fits cell b n r =
     (cell_input_size cell = n \<and> cell_hidden_size cell = r \<and>
      update_keeps_shape (cell_update cell) b n r)"

definition generator_accepts :: "(mat \<Rightarrow> error + mat) \<Rightarrow> nat \<Rightarrow> nat \<Rightarrow> nat \<Rightarrow> bool" where
  "generator_accepts generator b r v =
     (\<forall>x. has_shape2 x b r \<longrightarrow> (\<exists>y. generator x = Inr y \<and> has_shape2 y b v))"

section \<open>Concrete instances\<close>


definition demo_lut :: embedding where
  "demo_lut = [[0], [1], [2], [3], [4], [5], [6], [7], [8], [9]]"

definition const_lstm :: "tensor3 \<times> tensor3 \<Rightarrow> lstm" where
  "const_lstm hc = (\<lambda>emb hidden g. Inr (([], hc), g))"

definition sum_update :: "mat \<Rightarrow> mat \<times> mat \<Rightarrow> mat \<times> mat" where
  "sum_update x hc = (map2 (\<lambda>xr hr. map (\<lambda>v. v + sum_list xr) hr) x (fst hc), snd hc)"

definition demo_gen :: "mat \<Rightarrow> error + mat" where
  "demo_gen out = Inr (map (\<lambda>row. [0, sum_list row, 1]) out)"

definition demo_ps :: nmt_params where
  "demo_ps = \<lparr>mu_w = (\<lambda>j i. if j = i then 1 else 0), mu_b = (\<lambda>j. 0),
     nu_w = (\<lambda>j i. 1), nu_b = (\<lambda>j. 0),
     logvar_w = (\<lambda>j i. 1), logvar_b = (\<lambda>j. 0),
     dec_w = (\<lambda>j i. if j = i then 1 else 0), dec_b = (\<lambda>j. 0),
     a_mu = 1, a_logvar = - 1, a_dec = 1\<rparr>"

definition demo_encoder :: "nat \<Rightarrow> tensor3 \<times> tensor3 \<Rightarrow> encoder" where
  "demo_encoder nd hc = \<lparr>enc_layers = 1, enc_num_directions = nd, enc_hidden_size = 1,
     enc_word_lut = demo_lut, enc_rnn = const_lstm hc\<rparr>"

text \<open>
  The decoder and the model that the constructors build; they return on the
  configurations below (lemmas \<open>demo_decoder_built\<close> and \<open>demo_model_built\<close>).
\<close>

definition demo_decoder :: "opt \<Rightarrow> bool \<Rightarrow> decoder" where
  "demo_decoder opt training =
     projr (Decoder_init opt demo_lut demo_gen training (\<lambda>i. sum_update))"

definition bi_opt :: opt where
  "bi_opt = \<lparr>opt_layers = 1, opt_brnn = True, opt_rnn_size = 2, opt_word_vec_size = 1,
     opt_dropout = 0, opt_dynamic_decode = False, opt_gpus = [], opt_latent_size = 4,
     opt_feed_gt_prob = 1, opt_deterministic = True, opt_prelu = False\<rparr>"

definition bi_state :: "tensor3 \<times> tensor3" where
  "bi_state = ([[[1]], [[2]]], [[[3]], [[4]]])"

definition demo_model :: "opt \<Rightarrow> bool \<Rightarrow> nmt_model" where
  "demo_model opt training =
     projr (NMTModel_init (demo_encoder 2 bi_state) (demo_decoder opt training) opt training
              demo_ps)"

definition demo_rng :: rng where
  "demo_rng = \<lparr>rng_uniform = (\<lambda>n. 0), rng_normal = (\<lambda>n. 1), rng_pos = 0\<rparr>"

text \<open>A unidirectional configuration with two layers.\<close>

definition two_layer_opt :: opt where
  "two_layer_opt = \<lparr>opt_layers = 2, opt_brnn = False, opt_rnn_size = 1, opt_word_vec_size = 1,
     opt_dropout = 0, opt_dynamic_decode = False, opt_gpus = [], opt_latent_size = 4,
     opt_feed_gt_prob = 1, opt_deterministic = True, opt_prelu = False\<rparr>"

text \<open>A decoder with dynamic decoding, in evaluation mode.\<close>

definition dyn_decoder :: decoder where
  "dyn_decoder = demo_decoder (bi_opt\<lparr>opt_dynamic_decode := True\<rparr>) False"

text \<open>A store with a source and a target tensor of the caller.\<close>

definition demo_store :: store where
  "demo_store = [Long [[2], [5], [1]], Long [[2], [7], [3], [1]]]"

text \<open>
  Two models in training mode with feed-ground-truth probability 0: one without
  accelerators (\<^verbatim>\<open>gpus\<close> empty), one with.
\<close>

definition cpu_model :: nmt_model where
  "cpu_model = demo_model (bi_opt\<lparr>opt_feed_gt_prob := 0\<rparr>) True"

definition gpu_model :: nmt_model where
  "gpu_model = demo_model (bi_opt\<lparr>opt_feed_gt_prob := 0, opt_gpus := [0]\<rparr>) True"

section \<open>Properties\<close>

subsection \<open>Shapes\<close>

lemma length_concat_const:
  "(\<And>x. x \<in> set xs \<Longrightarrow> length (f x) = n) \<Longrightarrow> length (concat (map f xs)) = length xs * n"
  by (induction xs) auto

lemma length_concat_shape2: "has_shape2 x b n \<Longrightarrow> length (concat x) = b * n"
  unfolding has_shape2_def
proof (induction x arbitrary: b)
  case Nil
  then show ?case by simp
next
  case (Cons r x)
  then have "length (concat x) = length x * n" by simp
  with Cons.prems show ?case by auto
qed

text \<open>
  The layout of the flattened state: row \<open>j\<close> (a batch element) holds, for every slice
  \<open>i\<close> of axis 0 in turn, \<open>h[i][j]\<close> followed by \<open>c[i][j]\<close>.
\<close>

lemma flatten_hidden_layout:
  assumes k: "length h = k" "length c = k" "0 < k"
    and b: "\<forall>i<k. length (h ! i) = b \<and> length (c ! i) = b" "0 < b"
  shows "flatten_hidden (h, c) =
           Inr (map (\<lambda>j. concat (map (\<lambda>i. h ! i ! j @ c ! i ! j) [0..<k])) [0..<b])"
proof -
  have lens: "map length h = map length c"
    using k b by (auto intro!: nth_equalityI)
  let ?t = "map2 (map2 (@)) h c"
  have len_t: "length ?t = k" using k by simp
  have row: "\<And>i. i < k \<Longrightarrow> length (?t ! i) = b"
    using k b by simp
  have el: "\<And>i j. i < k \<Longrightarrow> j < b \<Longrightarrow> ?t ! i ! j = h ! i ! j @ c ! i ! j"
    using k b by simp
  have tr: "transpose ?t = map (\<lambda>j. map (\<lambda>i. ?t ! i ! j) [0..<length ?t]) [0..<b]"
    by (rule transpose_rectangle) (use k row len_t in auto)
  have tr': "transpose ?t = map (\<lambda>j. map (\<lambda>i. h ! i ! j @ c ! i ! j) [0..<k]) [0..<b]"
    unfolding tr len_t using el by (auto intro!: nth_equalityI)
  have ne: "transpose ?t \<noteq> []"
    unfolding tr' using b by simp
  show ?thesis
    unfolding flatten_hidden_def cat_dim2_def and_then_def view_rows_def
    using lens ne by (simp add: tr' comp_def)
qed

lemma flatten_hidden_shape:
  assumes h: "has_shape3 h k b d" and c: "has_shape3 c k b d" and pos: "0 < k" "0 < b"
  shows "\<exists>flat. flatten_hidden (h, c) = Inr flat \<and> has_shape2 flat b (k * (2 * d))"
proof -
  have k: "length h = k" "length c = k" using h c by (simp_all add: has_shape3_def)
  have hb: "\<And>i. i < k \<Longrightarrow> length (h ! i) = b \<and> length (c ! i) = b"
    using h c by (simp add: has_shape3_def has_shape2_def list_all_length)
  have hd: "\<And>i j. i < k \<Longrightarrow> j < b \<Longrightarrow> length (h ! i ! j) = d \<and> length (c ! i ! j) = d"
    using h c by (simp add: has_shape3_def has_shape2_def list_all_length)
  have eq: "flatten_hidden (h, c) =
           Inr (map (\<lambda>j. concat (map (\<lambda>i. h ! i ! j @ c ! i ! j) [0..<k])) [0..<b])"
    using flatten_hidden_layout [OF k pos(1) _ pos(2)] hb by blast
  have "\<And>j. j < b \<Longrightarrow> length (concat (map (\<lambda>i. h ! i ! j @ c ! i ! j) [0..<k])) = k * (2 * d)"
  proof -
    fix j assume j: "j < b"
    have "length (concat (map (\<lambda>i. h ! i ! j @ c ! i ! j) [0..<k])) = length [0..<k] * (2 * d)"
      by (rule length_concat_const) (use hd j in auto)
    then show "length (concat (map (\<lambda>i. h ! i ! j @ c ! i ! j) [0..<k])) = k * (2 * d)" by simp
  qed
  then show ?thesis
    unfolding eq by (simp add: has_shape2_def list_all_length)
qed

lemma Linear_forward_shape:
  assumes "Linear n_in n_out w bs = Inr l" and "has_shape2 x b (nat n_in)"
  shows "\<exists>y. Linear_forward l x = Inr y \<and> has_shape2 y b (nat n_out)"
  using assms
  by (auto simp: Linear_forward_def Linear_def has_shape2_def list_all_length split: if_splits)

lemma ReLU_shape: "has_shape2 x b n \<Longrightarrow> has_shape2 (ReLU x) b n"
  by (simp add: ReLU_def has_shape2_def list_all_length)

lemma PReLU_shape: "has_shape2 x b n \<Longrightarrow> has_shape2 (PReLU a x) b n"
  by (simp add: PReLU_def has_shape2_def list_all_length)

lemma scaled_abs_shape: "has_shape2 x b n \<Longrightarrow> has_shape2 (map (map (\<lambda>v. - 2 * \<bar>v\<bar>)) x) b n"
  by (simp add: has_shape2_def list_all_length)

lemma chunk2_shape:
  assumes t: "has_shape3 t l b (2 * r)" and pos: "0 < l" "0 < b" "0 < r"
  shows "\<exists>h c. chunk2 t = Inr (h, c) \<and> has_shape3 h l b r \<and> has_shape3 c l b r"
proof -
  obtain m t' where t_eq: "t = m # t'" using t pos by (cases t) (auto simp: has_shape3_def)
  obtain row m' where m_eq: "m = row # m'"
    using t pos t_eq by (cases m) (auto simp: has_shape3_def has_shape2_def)
  have "length row = 2 * r"
    using t t_eq m_eq by (simp add: has_shape3_def has_shape2_def)
  then have s2: "size2 t = 2 * r" by (simp add: size2_def size1_def t_eq m_eq)
  have ck: "chunk2 t = Inr (map (map (take r)) t, map (map (drop r)) t)"
    using s2 pos by (simp add: chunk2_def Let_def)
  have sh1: "has_shape3 (map (map (take r)) t) l b r"
    using t by (auto simp: has_shape3_def has_shape2_def list_all_iff)
  have sh2: "has_shape3 (map (map (drop r)) t) l b r"
    using t by (auto simp: has_shape3_def has_shape2_def list_all_iff)
  show ?thesis using ck sh1 sh2 by simp
qed

lemma view3_shape:
  assumes x: "has_shape2 x b (l * n)" and pos: "0 < l" "0 < b"
  shows "\<exists>t. view3 l b x = Inr t \<and> has_shape3 t l b n"
proof -
  let ?data = "concat x"
  have len: "length ?data = b * (l * n)"
    using x by (rule length_concat_shape2)
  have n': "length ?data = (l * b) * n" using len by (simp add: mult_ac)
  have lb: "l * b \<noteq> 0" using pos by simp
  have md: "length ?data mod (l * b) = 0" using n' by simp
  have dv: "length ?data div (l * b) = n" using n' lb by simp
  let ?t = "map (\<lambda>i. map (\<lambda>j. take n (drop ((i * b + j) * n) ?data)) [0..<b]) [0..<l]"
  have v: "view3 l b x = Inr ?t"
    using lb md dv by (simp add: view3_def Let_def)
  have bound: "\<And>i j. i < l \<Longrightarrow> j < b \<Longrightarrow> (i * b + j) * n + n \<le> length ?data"
  proof -
    fix i j assume i: "i < l" and j: "j < b"
    have "i * b + j + 1 \<le> l * b"
    proof -
      have "i * b + j + 1 \<le> i * b + b" using j by simp
      also have "\<dots> = (i + 1) * b" by simp
      also have "\<dots> \<le> l * b" using i by (intro mult_le_mono1) simp
      finally show ?thesis .
    qed
    then have "(i * b + j + 1) * n \<le> (l * b) * n" by (rule mult_le_mono1)
    then show "(i * b + j) * n + n \<le> length ?data"
      unfolding n' by (simp add: algebra_simps)
  qed
  have "has_shape3 ?t l b n"
    using bound by (force simp: has_shape3_def has_shape2_def list_all_length)
  then show ?thesis using v by simp
qed

text \<open>What the constructor of the model returns.\<close>

lemma NMTModel_init_Inr:
  assumes "NMTModel_init enc dec opt training ps = Inr m"
  shows "Linear (int (opt_layers opt) * opt_rnn_size opt * 2) (int (opt_latent_size opt))
           (mu_w ps) (mu_b ps) = Inr (encoder_to_mu m)"
    and "Linear (int (opt_layers opt) * opt_rnn_size opt * 2) (int (opt_latent_size opt))
           (nu_w ps) (nu_b ps) = Inr (encoder_to_nu m)"
    and "Linear (int (opt_latent_size opt)) (int (opt_latent_size opt))
           (logvar_w ps) (logvar_b ps) = Inr (nu_to_logvar m)"
    and "Linear (int (opt_latent_size opt)) (int (opt_layers opt) * opt_rnn_size opt * 2)
           (dec_w ps) (dec_b ps) = Inr (latent_to_decoder m)"
    and "m_encoder m = enc" and "m_decoder m = dec" and "m_layers m = opt_layers opt"
    and "m_gpus m = opt_gpus opt" and "m_feed_gt_prob m = opt_feed_gt_prob opt"
    and "m_training m = training" and "m_dynamic_decode m = opt_dynamic_decode opt"
    and "m_deterministic m = opt_deterministic opt" and "m_prelu m = opt_prelu opt"
  using assms
  by (auto simp: NMTModel_init_def Let_def and_then_def split: sum.splits)

lemma NMTModel_init_returns:
  assumes "0 \<le> opt_rnn_size opt"
  shows "\<exists>m. NMTModel_init enc dec opt training ps = Inr m"
proof -
  have "0 \<le> int (opt_layers opt) * opt_rnn_size opt * 2" using assms by simp
  then have "\<not> int (opt_layers opt) * opt_rnn_size opt * 2 < 0" by linarith
  then show ?thesis
    unfolding NMTModel_init_def Let_def and_then_def Linear_def by simp
qed

lemma encode_hidden_shape:
  assumes m: "NMTModel_init enc dec opt training ps = Inr m"
    and h: "has_shape3 h0 k b d" and c: "has_shape3 c0 k b d" and pos: "0 < k" "0 < b"
    and w: "k * (2 * d) = nat (int (opt_layers opt) * opt_rnn_size opt * 2)"
  shows "\<exists>mu logvar. encode_hidden m (h0, c0) = Inr (mu, logvar) \<and>
           has_shape2 mu b (opt_latent_size opt) \<and> has_shape2 logvar b (opt_latent_size opt)"
proof -
  let ?n = "int (opt_layers opt) * opt_rnn_size opt * 2"
  note lin = NMTModel_init_Inr(1-3) [OF m]
  obtain flat where flat: "flatten_hidden (h0, c0) = Inr flat" "has_shape2 flat b (nat ?n)"
    using flatten_hidden_shape [OF h c pos] w by auto
  obtain mu where mu: "Linear_forward (encoder_to_mu m) flat = Inr mu"
      "has_shape2 mu b (opt_latent_size opt)"
    using Linear_forward_shape [OF lin(1) flat(2)] by auto
  obtain nu where nu: "Linear_forward (encoder_to_nu m) flat = Inr nu"
      "has_shape2 nu b (opt_latent_size opt)"
    using Linear_forward_shape [OF lin(2) flat(2)] by auto
  have rs: "has_shape2 (ReLU nu) b (nat (int (opt_latent_size opt)))"
    using ReLU_shape [OF nu(2)] by simp
  obtain lv where lv: "Linear_forward (nu_to_logvar m) (ReLU nu) = Inr lv"
      "has_shape2 lv b (opt_latent_size opt)"
    using Linear_forward_shape [OF lin(3) rs] by auto
  have lvs: "has_shape2 (map (map (\<lambda>v. - 2 * \<bar>v\<bar>)) lv) b (opt_latent_size opt)"
    using lv(2) by (rule scaled_abs_shape)
  show ?thesis
    using flat(1) mu nu(1) lv(1) lvs PReLU_shape [OF lvs] PReLU_shape [OF mu(2)]
    by (simp add: encode_hidden_def and_then_def Let_def)
qed

lemma decode_states_shape:
  assumes m: "NMTModel_init enc dec opt training ps = Inr m"
    and z: "has_shape2 z b (opt_latent_size opt)"
    and pos: "0 < opt_layers opt" "0 < opt_rnn_size opt" "0 < b"
  shows "\<exists>h c. decode_states m z = Inr (h, c) \<and>
           has_shape3 h (opt_layers opt) b (nat (opt_rnn_size opt)) \<and>
           has_shape3 c (opt_layers opt) b (nat (opt_rnn_size opt))"
proof -
  let ?l = "opt_layers opt" and ?r = "nat (opt_rnn_size opt)"
  have lz: "length z = b" using z by (simp add: has_shape2_def)
  have z': "has_shape2 z b (nat (int (opt_latent_size opt)))" using z by simp
  have n: "nat (int ?l * opt_rnn_size opt * 2) = ?l * (2 * ?r)"
    using pos(2) by (simp add: nat_mult_distrib mult_ac)
  obtain d where d: "Linear_forward (latent_to_decoder m) z = Inr d"
      "has_shape2 d b (?l * (2 * ?r))"
    using Linear_forward_shape [OF NMTModel_init_Inr(4) [OF m] z'] n by auto
  define d' where "d' = (if m_prelu m then PReLU (prelu_dec m) d else d)"
  have d': "has_shape2 d' b (?l * (2 * ?r))"
    using d(2) by (simp add: d'_def PReLU_shape)
  obtain t where t: "view3 ?l b d' = Inr t" "has_shape3 t ?l b (2 * ?r)"
    using view3_shape [OF d' pos(1) pos(3)] by auto
  have r: "0 < ?r" using pos(2) by simp
  obtain h c where hc: "chunk2 t = Inr (h, c)" "has_shape3 h ?l b ?r" "has_shape3 c ?l b ?r"
    using chunk2_shape [OF t(2) pos(1) pos(3) r] by auto
  have "m_layers m = ?l" by (rule NMTModel_init_Inr(7) [OF m])
  then have "decode_states m z = Inr (h, c)"
    using d(1) t(1) hc(1) lz by (simp add: decode_states_def and_then_def Let_def d'_def)
  then show ?thesis using hc by blast
qed

subsection \<open>Evaluation on the concrete instances\<close>

lemma Decoder_init_Inr:
  assumes "Decoder_init opt word_lut generator training update = Inr d"
  shows "\<exists>layers. StackedLSTM_layers update 0 (opt_layers opt)
                     (int (opt_word_vec_size opt)) (opt_rnn_size opt) = Inr layers \<and>
           dec_rnn d = \<lparr>sl_dropout = \<lparr>drop_p = opt_dropout opt, drop_training = training\<rparr>,
                        sl_num_layers = opt_layers opt, sl_layers = layers\<rparr>"
    and "dec_dropout d = \<lparr>drop_p = opt_dropout opt, drop_training = training\<rparr>"
    and "dec_word_lut d = word_lut" and "dec_generator d = generator"
    and "dec_dynamic_decode d = opt_dynamic_decode opt" and "dec_layers d = opt_layers opt"
    and "dec_hidden_size d = opt_rnn_size opt"
  using assms
  by (auto simp: Decoder_init_def StackedLSTM_init_def Dropout_def Let_def and_then_def
      split: sum.splits if_splits)

lemma Encoder_init_Inr:
  assumes "Encoder_init opt word_lut forward = Inr enc"
  shows "enc_layers enc = opt_layers opt"
    and "enc_num_directions enc = (if opt_brnn opt then 2 else 1)"
    and "int (enc_num_directions enc) * enc_hidden_size enc = opt_rnn_size opt"
    and "enc_word_lut enc = word_lut"
    and "enc_rnn enc = forward"
    and "0 < enc_hidden_size enc" and "0 < opt_layers opt"
    and "0 \<le> opt_dropout opt" and "opt_dropout opt \<le> 1"
  using assms
  by (auto simp: Encoder_init_def LSTM_def Let_def and_then_def split: if_splits sum.splits)

lemma StackedLSTM_layers_length:
  "StackedLSTM_layers update i n input_size rnn_size = Inr layers \<Longrightarrow> length layers = n"
  by (induction n arbitrary: i input_size layers) (auto simp: and_then_def split: sum.splits)

text \<open>The cells that the constructor of the stacked recurrent network builds.\<close>

lemma StackedLSTM_layers_Inr:
  assumes "0 \<le> a" "0 \<le> r"
  shows "StackedLSTM_layers update i n a r =
           Inr (map (\<lambda>k. \<lparr>cell_input_size = nat (if k = 0 then a else r),
                           cell_hidden_size = nat r, cell_update = update (i + k)\<rparr>) [0..<n])"
  using assms(1)
proof (induction n arbitrary: i a)
  case 0
  then show ?case by simp
next
  case (Suc n)
  have rest: "StackedLSTM_layers update (Suc i) n r r =
      Inr (map (\<lambda>k. \<lparr>cell_input_size = nat (if k = 0 then r else r),
                      cell_hidden_size = nat r, cell_update = update (Suc i + k)\<rparr>) [0..<n])"
    using Suc.IH [OF assms(2)] .
  have cell: "LSTMCell a r (update i) =
      Inr \<lparr>cell_input_size = nat a, cell_hidden_size = nat r, cell_update = update i\<rparr>"
    using Suc.prems assms(2) by (simp add: LSTMCell_def)
  have "map (\<lambda>k. \<lparr>cell_input_size = nat (if k = 0 then a else r),
                   cell_hidden_size = nat r, cell_update = update (i + k)\<rparr>) [0..<Suc n]
        = \<lparr>cell_input_size = nat a, cell_hidden_size = nat r, cell_update = update i\<rparr>
          # map (\<lambda>k. \<lparr>cell_input_size = nat r,
                        cell_hidden_size = nat r, cell_update = update (Suc i + k)\<rparr>) [0..<n]"
    by (simp add: upt_conv_Cons map_Suc_upt [symmetric] del: upt_Suc)
  then show ?case
    using cell rest by (simp add: and_then_def del: upt_Suc)
qed

lemma demo_decoder_built:
  assumes "0 \<le> opt_rnn_size opt" "0 \<le> opt_dropout opt" "opt_dropout opt \<le> 1"
  shows "Decoder_init opt demo_lut demo_gen training (\<lambda>i. sum_update)
           = Inr (demo_decoder opt training)"
  using assms
  by (simp add: demo_decoder_def Decoder_init_def StackedLSTM_init_def Dropout_def Let_def
      and_then_def StackedLSTM_layers_Inr)

lemma demo_decoder_eq:
  assumes "0 \<le> opt_rnn_size opt" "0 \<le> opt_dropout opt" "opt_dropout opt \<le> 1"
  shows "demo_decoder opt training =
           \<lparr>dec_layers = opt_layers opt,
            dec_dynamic_decode = opt_dynamic_decode opt,
            dec_rnn = \<lparr>sl_dropout = \<lparr>drop_p = opt_dropout opt, drop_training = training\<rparr>,
                       sl_num_layers = opt_layers opt,
                       sl_layers =
                         map (\<lambda>k. \<lparr>cell_input_size =
                                      nat (if k = 0 then int (opt_word_vec_size opt)
                                           else opt_rnn_size opt),
                                    cell_hidden_size = nat (opt_rnn_size opt),
                                    cell_update = sum_update\<rparr>) [0..<opt_layers opt]\<rparr>,
            dec_word_lut = demo_lut,
            dec_generator = demo_gen,
            dec_dropout = \<lparr>drop_p = opt_dropout opt, drop_training = training\<rparr>,
            dec_hidden_size = opt_rnn_size opt\<rparr>"
  using assms
  by (simp add: demo_decoder_def Decoder_init_def StackedLSTM_init_def Dropout_def Let_def
      and_then_def StackedLSTM_layers_Inr)

lemma demo_model_built:
  assumes "0 \<le> opt_rnn_size opt"
  shows "NMTModel_init (demo_encoder 2 bi_state) (demo_decoder opt training) opt training demo_ps
           = Inr (demo_model opt training)"
proof -
  obtain m where "NMTModel_init (demo_encoder 2 bi_state) (demo_decoder opt training) opt
      training demo_ps = Inr m"
    using NMTModel_init_returns [OF assms] by blast
  then show ?thesis by (simp add: demo_model_def)
qed

lemma demo_model_fields:
  assumes "0 \<le> opt_rnn_size opt"
  shows "m_encoder (demo_model opt training) = demo_encoder 2 bi_state"
    and "m_decoder (demo_model opt training) = demo_decoder opt training"
    and "m_layers (demo_model opt training) = opt_layers opt"
    and "m_gpus (demo_model opt training) = opt_gpus opt"
    and "m_feed_gt_prob (demo_model opt training) = opt_feed_gt_prob opt"
    and "m_training (demo_model opt training) = training"
    and "m_dynamic_decode (demo_model opt training) = opt_dynamic_decode opt"
    and "m_deterministic (demo_model opt training) = opt_deterministic opt"
    and "m_prelu (demo_model opt training) = opt_prelu opt"
  using NMTModel_init_Inr(5-13) [OF demo_model_built [OF assms]] by simp_all

lemmas demo_defs = demo_model_def NMTModel_init_def demo_encoder_def demo_decoder_def
  Decoder_init_def StackedLSTM_init_def Dropout_def LSTMCell_def LSTMCell_forward_def LSTM_def
  bi_opt_def bi_state_def demo_ps_def const_lstm_def demo_rng_def sum_update_def demo_gen_def
  demo_lut_def and_then_def Linear_def Let_def

lemmas tensor_defs = and_then_def cat_dim2_def view_rows_def view3_def chunk2_def size1_def
  size2_def Linear_forward_def Linear_def ReLU_def PReLU_def has_shape2_def has_shape3_def
  dims3_def Embedding_forward_def Embedding_forward1_def valid_ids_def stack_def

lemma demo_encode:
  "NMTModel_encode (demo_model bi_opt False) (Padded [[2], [5], [1]]) demo_rng
     = Inr (([[1, 3, 2, 4]], [[- 80, - 80, - 80, - 80]]), demo_rng)"
  by (simp add: NMTModel_encode_def Encoder_forward_def encode_hidden_def flatten_hidden_def
      demo_defs tensor_defs upt_rec)

text \<open>
  The calls of the library raise in the model where they do in the program: a source
  token outside the embedding table, lengths of a packed batch that are not sorted in
  decreasing order, and a target batch of another size than the batch of the state.
\<close>

lemma Encoder_forward_raises:
  "map_sum id fst (Encoder_forward (demo_encoder 2 bi_state) (Padded [[2], [10]]) None demo_rng)
     = Inl IndexError \<and>
   map_sum id fst
     (Encoder_forward (demo_encoder 2 bi_state) (Packed [[2, 5], [1, 3]] [1, 2]) None demo_rng)
     = Inl RuntimeError \<and>
   map_sum id fst
     (Encoder_forward (demo_encoder 2 bi_state) (Packed [[2, 5], [1, 3]] [2, 1]) None demo_rng)
     = Inr (bi_state, [])"
  by (simp add: Encoder_forward_def pack_def demo_defs tensor_defs)

lemma Decoder_forward_raises:
  "map_sum id fst
     (Decoder_forward (demo_decoder bi_opt False) [[2, 3]] ([[[1, 3]]], [[[2, 4]]]) [[0, 0]] 0
        demo_rng) = Inl RuntimeError \<and>
   map_sum id fst
     (Decoder_forward (demo_decoder bi_opt False) [[2], [10]] ([[[1, 3]]], [[[2, 4]]]) [[0, 0]] 0
        demo_rng) = Inl IndexError"
  by (simp add: Decoder_forward_def Decoder_step_def StackedLSTM_forward_def demo_defs tensor_defs)

subsection \<open>The latent bottleneck\<close>

text \<open>
  C1 (as amended). In \<open>NMTModel_encode\<close> the bottleneck flattens the final states exactly as
  the encoder returns them, with layers * directions slices on axis 0: row \<open>j\<close> of the
  flattened matrix is \<open>h[0][j], c[0][j], h[1][j], c[1][j], ...\<close> over these slices.
  \<open>fix_enc_hidden\<close> is not applied on this path.
\<close>

theorem encode_flattens_encoder_states:
  assumes "Encoder_forward (m_encoder m) x None g = Inr (((h, c), outputs), g')"
    and "length h = enc_layers (m_encoder m) * enc_num_directions (m_encoder m)"
    and "length c = enc_layers (m_encoder m) * enc_num_directions (m_encoder m)"
    and "0 < enc_layers (m_encoder m) * enc_num_directions (m_encoder m)"
    and "\<forall>i < enc_layers (m_encoder m) * enc_num_directions (m_encoder m).
           length (h ! i) = b \<and> length (c ! i) = b"
    and "0 < b"
  shows "NMTModel_encode m x g = and_then (encode_hidden m (h, c)) (\<lambda>r. Inr (r, g')) \<and>
         flatten_hidden (h, c) =
           Inr (map (\<lambda>j. concat (map (\<lambda>i. h ! i ! j @ c ! i ! j)
                  [0..<enc_layers (m_encoder m) * enc_num_directions (m_encoder m)])) [0..<b])"
  using assms(1) flatten_hidden_layout [OF assms(2-6)]
  by (simp add: NMTModel_encode_def and_then_def)

theorem encode_flattens_encoder_states_witness:
  "NMTModel_encode (demo_model bi_opt False) (Padded [[2], [5], [1]]) demo_rng
     = and_then (encode_hidden (demo_model bi_opt False) bi_state) (\<lambda>r. Inr (r, demo_rng)) \<and>
   flatten_hidden bi_state = Inr [[1, 3, 2, 4]]"
proof -
  let ?m = "demo_model bi_opt False"
  have run: "Encoder_forward (m_encoder ?m) (Padded [[2], [5], [1]]) None demo_rng
      = Inr (((fst bi_state, snd bi_state), []), demo_rng)"
    by (simp add: Encoder_forward_def demo_defs tensor_defs)
  have k: "enc_layers (m_encoder ?m) * enc_num_directions (m_encoder ?m) = 2"
    by (simp add: demo_defs)
  have len: "length (fst bi_state) = enc_layers (m_encoder ?m) * enc_num_directions (m_encoder ?m)"
      "length (snd bi_state) = enc_layers (m_encoder ?m) * enc_num_directions (m_encoder ?m)"
      "0 < enc_layers (m_encoder ?m) * enc_num_directions (m_encoder ?m)"
    by (simp_all add: demo_defs)
  have rows: "\<forall>i < enc_layers (m_encoder ?m) * enc_num_directions (m_encoder ?m).
      length (fst bi_state ! i) = 1 \<and> length (snd bi_state ! i) = 1"
    unfolding k by (simp add: bi_state_def less_Suc_eq numeral_2_eq_2)
  from encode_flattens_encoder_states [OF run len rows] k
  show ?thesis by (simp add: bi_state_def upt_rec)
qed

text \<open>
  With the merge before the flattening the statement fails: for a bidirectional encoder,
  encoding differs from encoding the merged states.
\<close>

theorem merge_before_flatten_counterexample:
  "enc_num_directions (m_encoder (demo_model bi_opt False)) = 2 \<and>
   NMTModel_encode (demo_model bi_opt False) (Padded [[2], [5], [1]]) demo_rng
     \<noteq> encode_with_merge (demo_model bi_opt False) (Padded [[2], [5], [1]]) demo_rng"
proof -
  have "encode_with_merge (demo_model bi_opt False) (Padded [[2], [5], [1]]) demo_rng
     = Inr (([[1, 2, 3, 4]], [[- 80, - 80, - 80, - 80]]), demo_rng)"
    by (simp add: encode_with_merge_def fix_enc_hidden_def Encoder_forward_def encode_hidden_def
        flatten_hidden_def demo_defs tensor_defs upt_rec)
  then show ?thesis using demo_encode by (simp add: demo_defs)
qed


lemma nonpos_scaled_abs: "list_all (list_all (\<lambda>v::real. v \<le> 0)) (map (map (\<lambda>v. - 2 * \<bar>v\<bar>)) t)"
  by (simp add: list_all_iff)

lemma PReLU_nonpos:
  "0 \<le> a \<Longrightarrow> list_all (list_all (\<lambda>v. v \<le> 0)) t \<Longrightarrow> list_all (list_all (\<lambda>v. v \<le> 0)) (PReLU a t)"
  by (auto simp: list_all_iff PReLU_def mult_nonneg_nonpos)

text \<open>
  C2 (as amended). Every entry of the log-variance that \<open>NMTModel_encode\<close> returns is at
  most 0 when the \<open>prelu\<close> flag is off, or when it is on and the learned slope of
  \<open>prelu_logvar\<close> is not negative.
\<close>

theorem encode_logvar_nonpositive:
  assumes "NMTModel_encode m x g = Inr ((mu, logvar), g')"
    and "\<not> m_prelu m \<or> 0 \<le> prelu_logvar m"
  shows "list_all (list_all (\<lambda>v. v \<le> 0)) logvar"
  using assms nonpos_scaled_abs PReLU_nonpos
  by (auto simp: NMTModel_encode_def encode_hidden_def and_then_def Let_def
      split: prod.splits sum.splits if_splits)

theorem encode_logvar_nonpositive_witness:
  "NMTModel_encode (demo_model bi_opt False) (Padded [[2], [5], [1]]) demo_rng
     = Inr (([[1, 3, 2, 4]], [[- 80, - 80, - 80, - 80]]), demo_rng) \<and>
   \<not> m_prelu (demo_model bi_opt False) \<and>
   list_all (list_all (\<lambda>v. v \<le> 0)) [[- 80, - 80, - 80, - 80 :: real]]"
proof -
  have np: "\<not> m_prelu (demo_model bi_opt False) \<or> 0 \<le> prelu_logvar (demo_model bi_opt False)"
    by (simp add: demo_defs)
  from encode_logvar_nonpositive [OF demo_encode np] demo_encode np
  show ?thesis by (simp add: demo_defs)
qed

text \<open>
  Without the condition on the slope the statement fails: with the \<open>prelu\<close> flag on
  and slope \<open>- 1\<close> the log-variance is positive.
\<close>

theorem logvar_positive_counterexample:
  "map_sum id (\<lambda>r. snd (fst r))
     (NMTModel_encode (demo_model (bi_opt\<lparr>opt_prelu := True\<rparr>) False) (Padded [[2], [5], [1]]) demo_rng)
     = Inr [[80, 80, 80, 80]] \<and>
   \<not> list_all (list_all (\<lambda>v. v \<le> 0)) [[80, 80, 80, 80 :: real]]"
  by (simp add: NMTModel_encode_def Encoder_forward_def encode_hidden_def flatten_hidden_def
      demo_defs tensor_defs upt_rec)

text \<open>
  C5 (as amended). For an encoder built by its constructor, with positive layers and
  \<open>rnn_size\<close>, and a final encoder state of shape (layers * directions, batch,
  hidden_size): the constructor of the model returns a model, whose encode step returns
  a mean and a log-variance of shape (batch, latent_size), and for every \<open>z\<close> of that
  shape its decode step returns a hidden and a cell state of shape (layers, batch,
  directions * hidden_size) each.
\<close>

theorem encode_decode_shapes:
  assumes enc: "Encoder_init opt word_lut forward = Inr enc"
    and pos: "0 < opt_layers opt" "0 < opt_rnn_size opt" "0 < b"
    and h0: "has_shape3 h0 (enc_layers enc * enc_num_directions enc) b (nat (enc_hidden_size enc))"
    and c0: "has_shape3 c0 (enc_layers enc * enc_num_directions enc) b (nat (enc_hidden_size enc))"
  shows "\<exists>m. NMTModel_init enc dec opt training ps = Inr m \<and>
           (\<exists>mu logvar.
              encode_hidden m (h0, c0) = Inr (mu, logvar) \<and>
              has_shape2 mu b (opt_latent_size opt) \<and> has_shape2 logvar b (opt_latent_size opt)) \<and>
           (\<forall>z. has_shape2 z b (opt_latent_size opt) \<longrightarrow>
              (\<exists>h c. decode_states m z = Inr (h, c) \<and>
                 has_shape3 h (opt_layers opt) b
                   (enc_num_directions enc * nat (enc_hidden_size enc)) \<and>
                 has_shape3 c (opt_layers opt) b
                   (enc_num_directions enc * nat (enc_hidden_size enc))))"
proof -
  obtain m where m: "NMTModel_init enc dec opt training ps = Inr m"
    using NMTModel_init_returns [of opt enc dec training ps] pos(2) by auto
  note e = Encoder_init_Inr(1-3) [OF enc]
  have nd: "0 < enc_num_directions enc" using e(2) by simp
  have hs: "0 < enc_hidden_size enc"
  proof (rule ccontr)
    assume "\<not> 0 < enc_hidden_size enc"
    then have "int (enc_num_directions enc) * enc_hidden_size enc \<le> 0"
      by (simp add: mult_le_0_iff)
    then show False using e(3) pos(2) by simp
  qed
  have r: "enc_num_directions enc * nat (enc_hidden_size enc) = nat (opt_rnn_size opt)"
    using e(3) hs by (metis nat_int nat_mult_distrib of_nat_0_le_iff)
  have k: "0 < enc_layers enc * enc_num_directions enc"
    using e(1) pos(1) nd by simp
  have "nat (int (opt_layers opt) * opt_rnn_size opt * 2) = opt_layers opt * nat (opt_rnn_size opt) * 2"
    using pos(2) by (simp add: nat_mult_distrib)
  then have w: "enc_layers enc * enc_num_directions enc * (2 * nat (enc_hidden_size enc))
             = nat (int (opt_layers opt) * opt_rnn_size opt * 2)"
    using e(1) r by (metis mult.assoc mult.commute)
  show ?thesis
    using m encode_hidden_shape [OF m h0 c0 k pos(3) w] decode_states_shape [OF m _ pos] r
    by simp
qed


theorem encode_decode_shapes_witness:
  "Encoder_init bi_opt demo_lut (const_lstm bi_state) = Inr (demo_encoder 2 bi_state) \<and>
   has_shape3 (fst bi_state) 2 1 1 \<and> has_shape3 (snd bi_state) 2 1 1 \<and>
   NMTModel_init (demo_encoder 2 bi_state) (demo_decoder bi_opt False) bi_opt False demo_ps
     = Inr (demo_model bi_opt False) \<and>
   (\<exists>mu logvar. encode_hidden (demo_model bi_opt False) bi_state = Inr (mu, logvar) \<and>
      has_shape2 mu 1 4 \<and> has_shape2 logvar 1 4) \<and>
   (\<exists>h c. decode_states (demo_model bi_opt False) [[1, 3, 2, 4]] = Inr (h, c) \<and>
      has_shape3 h 1 1 2 \<and> has_shape3 c 1 1 2)"
proof -
  have enc: "Encoder_init bi_opt demo_lut (const_lstm bi_state)
     = Inr (demo_encoder 2 bi_state)"
    by (simp add: Encoder_init_def LSTM_def and_then_def bi_opt_def demo_encoder_def)
  have h0: "has_shape3 (fst bi_state)
      (enc_layers (demo_encoder 2 bi_state) * enc_num_directions (demo_encoder 2 bi_state)) 1
      (nat (enc_hidden_size (demo_encoder 2 bi_state)))"
    by (simp add: demo_encoder_def bi_state_def has_shape3_def has_shape2_def)
  have c0: "has_shape3 (snd bi_state)
      (enc_layers (demo_encoder 2 bi_state) * enc_num_directions (demo_encoder 2 bi_state)) 1
      (nat (enc_hidden_size (demo_encoder 2 bi_state)))"
    by (simp add: demo_encoder_def bi_state_def has_shape3_def has_shape2_def)
  have z: "has_shape2 [[1, 3, 2, 4 :: real]] 1 (opt_latent_size bi_opt)"
    by (simp add: has_shape2_def bi_opt_def)
  have pos: "0 < opt_layers bi_opt" "0 < opt_rnn_size bi_opt" "0 < (1::nat)"
    by (simp_all add: bi_opt_def)
  have built: "NMTModel_init (demo_encoder 2 bi_state) (demo_decoder bi_opt False) bi_opt False
      demo_ps = Inr (demo_model bi_opt False)"
    by (rule demo_model_built) (simp add: bi_opt_def)
  from encode_decode_shapes [OF enc pos h0 c0, of "demo_decoder bi_opt False" False demo_ps]
    z enc h0 c0 built
  show ?thesis
    by (simp add: demo_encoder_def bi_opt_def)
qed

text \<open>
  For a bidirectional encoder the decoded states do not have the shape of the states
  that the flattening consumed: (1, 1, 2) against (2, 1, 1).
\<close>

theorem decoded_shape_counterexample:
  "map_sum id (\<lambda>hc. (dims3 (fst hc), dims3 (snd hc)))
     (and_then (encode_hidden (demo_model bi_opt False) bi_state)
        (\<lambda>r. decode_states (demo_model bi_opt False) (fst r)))
     = Inr ((1, 1, 2), (1, 1, 2)) \<and>
   (dims3 (fst bi_state), dims3 (snd bi_state)) = ((2, 1, 1), (2, 1, 1))"
  by (simp add: encode_hidden_def decode_states_def flatten_hidden_def demo_defs tensor_defs upt_rec)


text \<open>
  The shapes agree, the order of the entries does not: \<open>decode_states\<close> regroups the
  rows of its matrix without the transposition that \<open>flatten_hidden\<close> applies, so with
  two layers and a batch of two the state \<open>h[1][0] = 3\<close> of the first batch element
  comes back as state of the second one.
\<close>

lemma decode_states_mixes_batch:
  "flatten_hidden ([[[1], [2]], [[3], [4]]], [[[5], [6]], [[7], [8]]])
     = Inr [[1, 5, 3, 7], [2, 6, 4, 8]] \<and>
   decode_states (demo_model two_layer_opt False) [[1, 5, 3, 7], [2, 6, 4, 8]]
     = Inr ([[[1], [3]], [[2], [4]]], [[[5], [7]], [[6], [8]]])"
  by (simp add: decode_states_def flatten_hidden_def two_layer_opt_def demo_model_def
      NMTModel_init_def demo_ps_def tensor_defs upt_rec)

subsection \<open>Sampling the latent code\<close>

lemma broadcast2_same_shape:
  assumes "map length a = map length b"
  shows "broadcast2 f a b = Inr (map2 (map2 f) a b)"
proof -
  have len: "length a = length b" using assms by (rule map_eq_imp_length_eq)
  have s1: "size1 a = size1 b"
    using assms by (cases a; cases b) (auto simp: size1_def)
  show ?thesis
    by (simp add: broadcast2_def bcast_size_def expand_def len s1)
qed

lemma draw_like_map: "draw_like src pos (map (map f) t) = draw_like src pos t"
  by (simp add: draw_like_def take_map comp_def)

lemma advance_map: "advance g (map (map f) t) = advance g t"
  by (simp add: advance_def comp_def)

lemma draw_like_shape: "map length (draw_like src pos t) = map length t"
  by (auto simp: draw_like_def intro!: nth_equalityI)

lemma reparameterize_same_shape:
  assumes "map length mu = map length logvar"
  shows "reparameterize m mu logvar g =
           Inr (map2 (map2 (+))
                  (map2 (map2 (*)) (draw_like (rng_normal g) (rng_pos g) logvar)
                     (map (map (\<lambda>v. exp (v * 0.5))) logvar)) mu,
                advance g logvar)"
proof -
  let ?std = "map (map (\<lambda>v. exp (v * 0.5))) logvar"
  let ?eps = "draw_like (rng_normal g) (rng_pos g) logvar"
  have n: "normal_like ?std g = (?eps, advance g logvar)"
    by (simp add: normal_like_def draw_like_map advance_map)
  have sh1: "map length ?eps = map length ?std"
    by (simp add: draw_like_shape comp_def)
  have b1: "broadcast2 (*) ?eps ?std = Inr (map2 (map2 (*)) ?eps ?std)"
    using sh1 by (rule broadcast2_same_shape)
  have sh2: "map length (map2 (map2 (*)) ?eps ?std) = map length mu"
    using assms sh1
    by (auto intro!: nth_equalityI dest: map_eq_imp_length_eq simp: draw_like_def)
  have b2: "broadcast2 (+) (map2 (map2 (*)) ?eps ?std) mu
              = Inr (map2 (map2 (+)) (map2 (map2 (*)) ?eps ?std) mu)"
    using sh2 by (rule broadcast2_same_shape)
  show ?thesis
    unfolding reparameterize_def Let_def if_cancel n prod.case b1 and_then_def sum.case b2 ..
qed

text \<open>
  C4. The sampling step of \<open>NMTModel_forward\<close> returns \<open>mu\<close> itself, and leaves the random
  source untouched, when the deterministic flag is set. Otherwise, for \<open>mu\<close> and
  \<open>logvar\<close> of one shape, it returns \<open>z = mu + exp(0.5 * logvar) * eps\<close> entry by entry,
  where \<open>eps\<close> is the block of normal draws of the shape of \<open>logvar\<close> taken at the cursor of
  the random source, and the cursor moves past that block, so that the next call draws
  anew.
\<close>

theorem sample_z_formula:
  "(m_deterministic m \<longrightarrow> sample_z m mu logvar g = Inr (mu, g)) \<and>
   (\<not> m_deterministic m \<and> map length mu = map length logvar \<longrightarrow>
      (\<exists>z eps. sample_z m mu logvar g = Inr (z, advance g logvar) \<and>
         eps = fst (normal_like logvar g) \<and>
         map length eps = map length logvar \<and>
         map length z = map length mu \<and>
         (\<forall>i < length mu. \<forall>j < length (mu ! i).
            z ! i ! j = mu ! i ! j + exp (0.5 * logvar ! i ! j) * eps ! i ! j)))"
proof (intro conjI impI)
  assume "m_deterministic m"
  then show "sample_z m mu logvar g = Inr (mu, g)" by (simp add: sample_z_def)
next
  assume a: "\<not> m_deterministic m \<and> map length mu = map length logvar"
  let ?eps = "draw_like (rng_normal g) (rng_pos g) logvar"
  let ?std = "map (map (\<lambda>v. exp (v * 0.5))) logvar"
  let ?z = "map2 (map2 (+)) (map2 (map2 (*)) ?eps ?std) mu"
  have len: "length mu = length logvar" using a by (auto dest: map_eq_imp_length_eq)
  have rows: "\<And>i. i < length mu \<Longrightarrow> length (mu ! i) = length (logvar ! i)"
    using a len by (metis nth_map)
  have run: "sample_z m mu logvar g = Inr (?z, advance g logvar)"
    using a by (simp add: sample_z_def reparameterize_same_shape)
  have sh: "map length ?eps = map length logvar" by (rule draw_like_shape)
  have eps_row: "\<And>i. i < length mu \<Longrightarrow> length (?eps ! i) = length (logvar ! i)"
    using len by (simp add: draw_like_def)
  have shz: "map length ?z = map length mu"
    using len rows eps_row by (auto intro!: nth_equalityI simp: draw_like_def)
  have el: "\<forall>i < length mu. \<forall>j < length (mu ! i).
      ?z ! i ! j = mu ! i ! j + exp (0.5 * logvar ! i ! j) * ?eps ! i ! j"
    using len rows by (auto simp: draw_like_def mult.commute)
  show "\<exists>z eps. sample_z m mu logvar g = Inr (z, advance g logvar) \<and>
         eps = fst (normal_like logvar g) \<and>
         map length eps = map length logvar \<and>
         map length z = map length mu \<and>
         (\<forall>i < length mu. \<forall>j < length (mu ! i).
            z ! i ! j = mu ! i ! j + exp (0.5 * logvar ! i ! j) * eps ! i ! j)"
    using run sh shz el by (simp add: normal_like_def)
qed


theorem sample_z_formula_witness:
  "sample_z (demo_model bi_opt False) [[1, 3]] [[0, 0]] demo_rng = Inr ([[1, 3]], demo_rng) \<and>
   (\<exists>z. sample_z (demo_model (bi_opt\<lparr>opt_deterministic := False\<rparr>) False) [[1, 3]] [[0, 0]] demo_rng
          = Inr (z, advance demo_rng [[0, 0 :: real]]) \<and>
        map length z = [2] \<and> z ! 0 ! 1 = 3 + exp (0.5 * 0) * 1)"
proof -
  have d: "m_deterministic (demo_model bi_opt False)"
    "\<not> m_deterministic (demo_model (bi_opt\<lparr>opt_deterministic := False\<rparr>) False)"
    by (simp_all add: demo_defs)
  have e: "fst (normal_like [[0, 0 :: real]] demo_rng) ! 0 ! 1 = 1"
    by (simp add: normal_like_def draw_like_def demo_rng_def upt_rec)
  from sample_z_formula [of "demo_model bi_opt False" "[[1, 3]]" "[[0, 0]]" demo_rng]
    sample_z_formula [of "demo_model (bi_opt\<lparr>opt_deterministic := False\<rparr>) False"
      "[[1, 3]]" "[[0, 0]]" demo_rng] d e
  show ?thesis by auto
qed

subsection \<open>Unused arguments of the decoder\<close>

text \<open>
  C10. The result of \<open>Decoder_forward\<close> does not depend on its arguments \<open>init_output\<close>
  and \<open>step\<close>: any two values of each give the same logits, final state and random
  source. Likewise \<open>NMTModel_decode\<close> does not depend on \<open>step\<close>.
\<close>

theorem Decoder_forward_ignores_step_and_init_output:
  "Decoder_forward d input hidden init_output step g
     = Decoder_forward d input hidden init_output' step' g \<and>
   NMTModel_decode m z tgt step g = NMTModel_decode m z tgt step' g"
  by (simp add: Decoder_forward_def NMTModel_decode_def)

theorem Decoder_forward_ignores_step_and_init_output_witness:
  "Decoder_forward (demo_decoder bi_opt False) [[2], [7]] ([[[1, 1]]], [[[1, 1]]]) [[0, 0]] 0 demo_rng
     = Decoder_forward (demo_decoder bi_opt False) [[2], [7]] ([[[1, 1]]], [[[1, 1]]]) [[5, 5]] 3 demo_rng \<and>
   NMTModel_decode (demo_model bi_opt False) [[1, 3, 2, 4]] [[2], [7]] 0 demo_rng
     = NMTModel_decode (demo_model bi_opt False) [[1, 3, 2, 4]] [[2], [7]] 3 demo_rng"
  using Decoder_forward_ignores_step_and_init_output
    [of "demo_decoder bi_opt False" "[[2], [7]]" "([[[1, 1]]], [[[1, 1]]])" "[[0, 0]]" 0 demo_rng
       "[[5, 5]]" 3 "demo_model bi_opt False" "[[1, 3, 2, 4]]" "[[2], [7]]"]
  by simp

subsection \<open>Replacement of target tokens\<close>

lemma length_expand: "length (expand r c t) = r"
  by (simp add: expand_def Let_def)

lemma broadcast2_length:
  "broadcast2 f a b = Inr t \<Longrightarrow> bcast_size (length a) (length b) = Some (length t)"
  by (auto simp: broadcast2_def length_expand split: option.splits)

lemma bernoulli_length:
  "bernoulli probs g = Inr (samples, g') \<Longrightarrow> length samples = length probs"
  by (auto simp: bernoulli_def draw_like_def split: if_splits)

lemma replace_by_unk_length:
  assumes "replace_by_unk UNK m seqs prob g = Inr (r, g')"
  shows "length r = length seqs"
proof -
  define n where "n = (if m_gpus m \<noteq> [] then int (length seqs) - 1 else int (length seqs) - 2)"
  define probs where "probs = [replicate (size1 seqs) 1] @ replicate (nat n) (replicate (size1 seqs) prob)"
  have n0: "\<not> n < 0"
    using assms by (auto simp: replace_by_unk_def Let_def n_def split: if_splits)
  obtain samples kept where
    s: "bernoulli probs g = Inr (samples, g')" and
    k: "broadcast2 (*) seqs (map (map long) samples) = Inr kept" and
    r: "broadcast2 (+) kept (map (map long) (map (map (\<lambda>s. (1 - s) * real_of_int UNK)) samples)) = Inr r"
    using assms n0 unfolding replace_by_unk_def Let_def n_def [symmetric] probs_def [symmetric]
    by (auto simp: and_then_def split: sum.splits prod.splits if_splits)
  have ls: "length samples = nat n + 1"
    using bernoulli_length [OF s] by (simp add: probs_def)
  have b1: "bcast_size (length seqs) (nat n + 1) = Some (length kept)"
    using broadcast2_length [OF k] ls by simp
  have b2: "bcast_size (length kept) (nat n + 1) = Some (length r)"
    using broadcast2_length [OF r] ls by simp
  show ?thesis
    using b1 b2 n0 by (auto simp: bcast_size_def n_def split: if_splits)
qed


lemma draw_like_cong:
  assumes "map length t = map length t'"
  shows "draw_like src pos t = draw_like src pos t'"
proof -
  have len: "length t = length t'" using assms by (rule map_eq_imp_length_eq)
  have row: "\<And>i. i < length t \<Longrightarrow> length (t ! i) = length (t' ! i)"
    using assms len by (metis nth_map)
  have tk: "\<And>r. map length (take r t) = map length (take r t')"
    using assms by (simp add: take_map [symmetric])
  show ?thesis
    unfolding draw_like_def using len row tk by (auto intro!: nth_equalityI)
qed

lemma advance_cong: "map length t = map length t' \<Longrightarrow> advance g t = advance g t'"
  by (simp add: advance_def)

lemma long_of_int: "long (real_of_int k) = k"
  by (simp add: long_def)

lemma shape2_lengths: "has_shape2 t s b \<Longrightarrow> map length t = replicate s b"
  by (auto simp: has_shape2_def list_all_length intro!: nth_equalityI)

lemma replace_by_unk_gpu:
  assumes gpu: "m_gpus m \<noteq> []" and p: "0 \<le> prob" "prob \<le> 1"
    and shape: "has_shape2 seqs s b" and s: "0 < s"
  shows "\<exists>r. replace_by_unk UNK m seqs prob g = Inr (r, advance g seqs) \<and> has_shape2 r s b \<and>
           (\<forall>i<s. \<forall>j<b. r ! i ! j =
              (if draw_like (rng_uniform g) (rng_pos g) seqs ! i ! j < (if i = 0 then 1 else prob)
               then seqs ! i ! j else UNK))"
proof -
  have ls: "length seqs = s" using shape by (simp add: has_shape2_def)
  have rows: "\<And>i. i < s \<Longrightarrow> length (seqs ! i) = b"
    using shape by (simp add: has_shape2_def list_all_length)
  have s1: "size1 seqs = b"
    using ls s rows [of 0] by (cases seqs) (auto simp: size1_def)
  define probs where "probs = replicate b (1::real) # replicate (nat (int s - 1)) (replicate b prob)"
  define U where "U = draw_like (rng_uniform g) (rng_pos g) seqs"
  have lp: "length probs = s" using s by (simp add: probs_def)
  have pr: "\<And>i. i < s \<Longrightarrow> probs ! i = replicate b (if i = 0 then 1 else prob)"
    by (auto simp: probs_def nth_Cons split: nat.splits)
  have shp: "map length probs = map length seqs"
    using lp ls pr rows by (auto intro!: nth_equalityI)
  have ok: "list_all (list_all (\<lambda>p. 0 \<le> p \<and> p \<le> 1)) probs"
    using p by (auto simp: probs_def list_all_iff)
  define samples where "samples = map2 (map2 (\<lambda>p u. if u < p then 1 else 0 :: real)) probs U"
  have bern: "bernoulli probs g = Inr (samples, advance g seqs)"
    using ok by (simp add: bernoulli_def samples_def U_def draw_like_cong [OF shp] advance_cong [OF shp])
  have lU: "length U = s" by (simp add: U_def draw_like_def ls)
  have rU: "\<And>i. i < s \<Longrightarrow> length (U ! i) = b"
    using rows ls by (simp add: U_def draw_like_def)
  have lsam: "length samples = s" using lp lU by (simp add: samples_def)
  have rsam: "\<And>i. i < s \<Longrightarrow> length (samples ! i) = b"
    using lp lU pr rU by (simp add: samples_def)
  have esam: "\<And>i j. i < s \<Longrightarrow> j < b \<Longrightarrow>
      samples ! i ! j = (if U ! i ! j < (if i = 0 then 1 else prob) then 1 else 0)"
    using lp lU pr rU by (simp add: samples_def)
  define added where "added = map (map (\<lambda>s. (1 - s) * real_of_int UNK)) samples"
  define kept where "kept = map2 (map2 (*)) seqs (map (map long) samples)"
  define r where "r = map2 (map2 (+)) kept (map (map long) added)"
  have sh1: "map length seqs = map length (map (map long) samples)"
    using ls lsam rows rsam by (auto intro!: nth_equalityI)
  have k: "broadcast2 (*) seqs (map (map long) samples) = Inr kept"
    unfolding kept_def using sh1 by (rule broadcast2_same_shape)
  have lk: "length kept = s" using ls lsam by (simp add: kept_def)
  have rk: "\<And>i. i < s \<Longrightarrow> length (kept ! i) = b"
    using ls lsam rows rsam by (simp add: kept_def)
  have sh2: "map length kept = map length (map (map long) added)"
    using lk rk lsam rsam by (auto intro!: nth_equalityI simp: added_def)
  have rr: "broadcast2 (+) kept (map (map long) added) = Inr r"
    unfolding r_def using sh2 by (rule broadcast2_same_shape)
  have n: "\<not> int (length seqs) - 1 < 0" using ls s by simp
  have run: "replace_by_unk UNK m seqs prob g = Inr (r, advance g seqs)"
    using gpu n bern k rr [unfolded added_def]
    by (simp add: replace_by_unk_def Let_def s1 ls probs_def [symmetric] and_then_def)
  have shr: "has_shape2 r s b"
    using lk rk lsam rsam by (simp add: r_def added_def has_shape2_def list_all_length)
  have el: "\<forall>i<s. \<forall>j<b. r ! i ! j =
      (if U ! i ! j < (if i = 0 then 1 else prob) then seqs ! i ! j else UNK)"
  proof (intro allI impI)
    fix i j assume i: "i < s" and j: "j < b"
    have "r ! i ! j = seqs ! i ! j * long (samples ! i ! j)
            + long ((1 - samples ! i ! j) * real_of_int UNK)"
      using i j ls lsam rows rsam lk rk by (simp add: r_def kept_def added_def)
    then show "r ! i ! j = (if U ! i ! j < (if i = 0 then 1 else prob) then seqs ! i ! j else UNK)"
      using esam [OF i j] by (simp add: long_def)
  qed
  show ?thesis using run shr el unfolding U_def by blast
qed


lemma cpu_replace_3:
  "map_sum id fst (replace_by_unk 1 cpu_model [[2], [7], [3]] 0 demo_rng) = Inl RuntimeError"
  by code_simp

lemma cpu_replace_1:
  "map_sum id fst (replace_by_unk 1 cpu_model [[2]] 0 demo_rng) = Inl RuntimeError"
  by code_simp

lemma cpu_replace_2:
  "map_sum id fst (replace_by_unk 1 cpu_model [[2], [7]] 0 demo_rng) = Inr [[2], [7]]"
  by code_simp

lemma gpu_replace_3:
  "map_sum id fst (replace_by_unk 1 gpu_model [[2], [7], [3]] 0 demo_rng) = Inr [[2], [1], [1]]"
  by code_simp

lemma map_sum_Inl: "map_sum id f r = Inl e \<Longrightarrow> r = Inl e"
  by (cases r) auto

lemma cpu_forward:
  "NMTModel_forward 1 cpu_model (Padded [[2], [5], [1]], [[2], [7], [3], [1]]) 0 demo_rng
     = Inl RuntimeError"
proof -
  have f: "m_training cpu_model" "m_feed_gt_prob cpu_model = 0"
    by (simp_all add: cpu_model_def demo_model_fields bi_opt_def)
  show ?thesis
    using map_sum_Inl [OF cpu_replace_3] f
    by (simp add: NMTModel_forward_def and_then_def)
qed


text \<open>
  C3. The branch of \<open>replace_by_unk\<close> without accelerators builds one row of
  probabilities too few, and does not do what the branch with accelerators does. With feed-ground-truth probability 0
  and a truncated target of three time steps (a target of four) the product of the
  target and the samples has mismatched shapes and the forward pass raises; with two
  time steps the single row of ones is broadcast and no position is replaced. The
  branch with accelerators replaces every position but the first.
\<close>

theorem replace_by_unk_without_gpus_fails:
  "map_sum id fst (replace_by_unk 1 cpu_model [[2], [7], [3]] 0 demo_rng) = Inl RuntimeError \<and>
   NMTModel_forward 1 cpu_model (Padded [[2], [5], [1]], [[2], [7], [3], [1]]) 0 demo_rng
     = Inl RuntimeError \<and>
   map_sum id fst (replace_by_unk 1 cpu_model [[2], [7]] 0 demo_rng) = Inr [[2], [7]] \<and>
   map_sum id fst (replace_by_unk 1 gpu_model [[2], [7], [3]] 0 demo_rng) = Inr [[2], [1], [1]]"
  using cpu_replace_3 cpu_forward cpu_replace_2 gpu_replace_3 by simp

subsection \<open>The loop of the decoder\<close>

lemma argmax_from_spec:
  assumes "best < i" "i + length xs = length row" "drop i row = xs"
    and "row ! best = v" "\<forall>k<i. row ! k \<le> v"
  shows "argmax_from best v i xs < length row \<and>
         (\<forall>k<length row. row ! k \<le> row ! argmax_from best v i xs)"
  using assms
proof (induction xs arbitrary: best v i)
  case Nil
  then show ?case by simp
next
  case (Cons x xs)
  have i: "i < length row" using Cons.prems(2) by simp
  have x: "row ! i = x" using Cons.prems(3) i by (metis nth_via_drop)
  have d: "drop (Suc i) row = xs" using Cons.prems(3) by (metis drop_Suc tl_drop list.sel(3))
  have l: "Suc i + length xs = length row" using Cons.prems(2) by simp
  show ?case
  proof (cases "v < x")
    case True
    have "\<forall>k<Suc i. row ! k \<le> x"
      using Cons.prems(5) True x by (auto simp: less_Suc_eq)
    from Cons.IH [OF _ l d x this] True show ?thesis by simp
  next
    case False
    have "\<forall>k<Suc i. row ! k \<le> v"
      using Cons.prems(5) False x by (auto simp: less_Suc_eq)
    from Cons.IH [OF _ l d Cons.prems(4) this] Cons.prems(1) False show ?thesis by simp
  qed
qed

lemma argmax_is_max:
  assumes "row \<noteq> []"
  shows "argmax row < length row \<and> (\<forall>x\<in>set row. x \<le> row ! argmax row)"
proof -
  obtain x xs where r: "row = x # xs" using assms by (cases row) auto
  have "argmax_from 0 x 1 xs < length row \<and>
         (\<forall>k<length row. row ! k \<le> row ! argmax_from 0 x 1 xs)"
    by (rule argmax_from_spec) (simp_all add: r)
  then have "argmax row < length row" and "\<forall>k<length row. row ! k \<le> row ! argmax row"
    by (simp_all add: argmax_def r)
  then show ?thesis by (metis in_set_conv_nth)
qed

lemma stack_Inr: "stack ts = Inr r \<Longrightarrow> r = ts \<and> ts \<noteq> []"
  by (auto simp: stack_def split: if_splits)

lemma Decoder_step_result:
  assumes "Decoder_step d i emb_t (input_t, hidden, g, outputs) = Inr (input_t', hidden', g', outputs')"
  shows "\<exists>fed out g1 logit.
           (if \<not> dec_dynamic_decode d \<or> i = 0 then fed = emb_t else input_t = Some fed) \<and>
           StackedLSTM_forward (dec_rnn d) fed hidden g = Inr ((out, hidden'), g1) \<and>
           g' = snd (Dropout_forward (dec_dropout d) out g1) \<and>
           dec_generator d (fst (Dropout_forward (dec_dropout d) out g1)) = Inr logit \<and>
           outputs' = outputs @ [logit] \<and>
           (if dec_dynamic_decode d
            then [] \<notin> set logit \<and> valid_ids (dec_word_lut d) (map (\<lambda>row. int (argmax row)) logit) \<and>
                 input_t' = Some (map (\<lambda>row. dec_word_lut d ! argmax row) logit)
            else input_t' = Some fed)"
  using assms
  by (auto simp: Decoder_step_def and_then_def Let_def max_indices_def Embedding_forward1_def
      comp_def split: sum.splits prod.splits if_splits option.splits)

lemma Decoder_loop_append:
  "Decoder_loop d i (xs @ ys) st =
     and_then (Decoder_loop d i xs st) (Decoder_loop d (i + length xs) ys)"
proof (induction xs arbitrary: i st)
  case Nil
  then show ?case by (simp add: and_then_def)
next
  case (Cons x xs)
  show ?case
    by (cases "Decoder_step d i x st") (simp_all add: and_then_def Cons.IH)
qed

lemma Decoder_loop_outputs:
  assumes "Decoder_loop d i emb (input_t, hidden, g, outputs) = Inr (input_t', hidden', g', outputs')"
  shows "length outputs' = length outputs + length emb \<and> take (length outputs) outputs' = outputs"
  using assms
proof (induction emb arbitrary: i input_t hidden g outputs)
  case Nil
  then show ?case by simp
next
  case (Cons e emb)
  from Cons.prems obtain st where
    st: "Decoder_step d i e (input_t, hidden, g, outputs) = Inr st"
    and rest: "Decoder_loop d (Suc i) emb st = Inr (input_t', hidden', g', outputs')"
    by (auto simp: and_then_def split: sum.splits)
  obtain it1 h1 g1 o1 where st_eq: "st = (it1, h1, g1, o1)" by (cases st) auto
  obtain logit where o1: "o1 = outputs @ [logit]"
    using Decoder_step_result [OF st [unfolded st_eq]] by auto
  from Cons.IH [OF rest [unfolded st_eq]] o1 show ?case
    by (auto simp: take_Suc_conv_app_nth dest: arg_cong [where f = "take (length outputs)"])
qed


lemma Decoder_loop_last:
  assumes "Decoder_loop d i emb st = Inr (input_t', hidden', g', outputs')" and "emb \<noteq> []"
    and "dec_dynamic_decode d"
  shows "outputs' \<noteq> [] \<and> [] \<notin> set (last outputs') \<and>
         valid_ids (dec_word_lut d) (map (\<lambda>row. int (argmax row)) (last outputs')) \<and>
         input_t' = Some (map (\<lambda>row. dec_word_lut d ! argmax row) (last outputs'))"
proof -
  have split: "emb = butlast emb @ [last emb]" using assms(2) by simp
  have "Decoder_loop d i emb st =
      and_then (Decoder_loop d i (butlast emb) st)
        (Decoder_loop d (i + length (butlast emb)) [last emb])"
    using Decoder_loop_append [of d i "butlast emb" "[last emb]" st] split by simp
  then obtain st1 where
    step: "Decoder_loop d (i + length (butlast emb)) [last emb] st1
             = Inr (input_t', hidden', g', outputs')"
    using assms(1) by (auto simp: and_then_def split: sum.splits)
  obtain it1 h1 g1 o1 where st1: "st1 = (it1, h1, g1, o1)" by (cases st1) auto
  have "Decoder_step d (i + length (butlast emb)) (last emb) (it1, h1, g1, o1)
          = Inr (input_t', hidden', g', outputs')"
    using step unfolding st1
    by (cases "Decoder_step d (i + length (butlast emb)) (last emb) (it1, h1, g1, o1)")
      (simp_all add: and_then_def)
  from Decoder_step_result [OF this] assms(3) show ?thesis by auto
qed

lemma Decoder_loop_prefix:
  assumes run: "Decoder_loop d 0 emb (None, hidden, g, []) = Inr (input_t', hidden', g', outputs)"
    and i: "i \<le> length emb"
  shows "\<exists>input_t h gi. Decoder_loop d 0 (take i emb) (None, hidden, g, [])
            = Inr (input_t, h, gi, take i outputs)"
proof -
  have "Decoder_loop d 0 emb (None, hidden, g, []) =
      and_then (Decoder_loop d 0 (take i emb) (None, hidden, g, []))
        (Decoder_loop d (0 + length (take i emb)) (drop i emb))"
    using Decoder_loop_append [of d 0 "take i emb" "drop i emb"] by simp
  then obtain st where
    pre: "Decoder_loop d 0 (take i emb) (None, hidden, g, []) = Inr st" and
    post: "Decoder_loop d (0 + length (take i emb)) (drop i emb) st
             = Inr (input_t', hidden', g', outputs)"
    using run by (auto simp: and_then_def split: sum.splits)
  obtain it1 h1 g1 o1 where st: "st = (it1, h1, g1, o1)" by (cases st) auto
  have "length o1 = i"
    using Decoder_loop_outputs [OF pre [unfolded st]] i by simp
  moreover have "take (length o1) outputs = o1"
    using Decoder_loop_outputs [OF post [unfolded st]] by simp
  ultimately show ?thesis using pre st by auto
qed

text \<open>Iteration \<open>i\<close> of the loop takes the state after \<open>i\<close> iterations to the next one.\<close>

lemma Decoder_loop_step:
  assumes run: "Decoder_loop d 0 emb (None, hidden, g, []) = Inr (input_t', hidden', g', outputs)"
    and i: "i < length emb"
  shows "\<exists>input_t h gi input_t2 h2 g2.
           Decoder_loop d 0 (take i emb) (None, hidden, g, []) = Inr (input_t, h, gi, take i outputs) \<and>
           Decoder_step d i (emb ! i) (input_t, h, gi, take i outputs)
             = Inr (input_t2, h2, g2, take (Suc i) outputs)"
proof -
  obtain input_t h gi where
    pre: "Decoder_loop d 0 (take i emb) (None, hidden, g, []) = Inr (input_t, h, gi, take i outputs)"
    using Decoder_loop_prefix [OF run, of i] i by auto
  obtain input_t2 h2 g2 where
    nxt: "Decoder_loop d 0 (take (Suc i) emb) (None, hidden, g, [])
            = Inr (input_t2, h2, g2, take (Suc i) outputs)"
    using Decoder_loop_prefix [OF run, of "Suc i"] i by auto
  have "take (Suc i) emb = take i emb @ [emb ! i]"
    using i by (rule take_Suc_conv_app_nth)
  then have "Decoder_loop d 0 (take (Suc i) emb) (None, hidden, g, []) =
      and_then (Decoder_loop d 0 (take i emb) (None, hidden, g, []))
        (Decoder_loop d (0 + length (take i emb)) [emb ! i])"
    using Decoder_loop_append [of d 0 "take i emb" "[emb ! i]"] by simp
  then have "Decoder_loop d i [emb ! i] (input_t, h, gi, take i outputs)
      = Inr (input_t2, h2, g2, take (Suc i) outputs)"
    using pre nxt i by (simp add: and_then_def min_def)
  then have "Decoder_step d i (emb ! i) (input_t, h, gi, take i outputs)
      = Inr (input_t2, h2, g2, take (Suc i) outputs)"
    by (cases "Decoder_step d i (emb ! i) (input_t, h, gi, take i outputs)")
      (simp_all add: and_then_def)
  then show ?thesis using pre by blast
qed

lemma Decoder_step_dynamic_ignores_emb:
  assumes "dec_dynamic_decode d" "0 < i"
  shows "Decoder_step d i e (Some v, hidden, g, outputs)
           = Decoder_step d i e' (Some v, hidden, g, outputs)"
  using assms by (simp add: Decoder_step_def)

lemma Decoder_loop_dynamic_ignores_emb:
  assumes "dec_dynamic_decode d" "0 < i" "length es = length es'"
  shows "Decoder_loop d i es (Some v, hidden, g, outputs)
           = Decoder_loop d i es' (Some v, hidden, g, outputs)"
  using assms(3,2)
proof (induction es es' arbitrary: i v hidden g outputs rule: list_induct2)
  case Nil
  then show ?case by simp
next
  case (Cons e es e' es')
  have eq: "Decoder_step d i e (Some v, hidden, g, outputs)
              = Decoder_step d i e' (Some v, hidden, g, outputs)"
    using assms(1) Cons.prems by (rule Decoder_step_dynamic_ignores_emb)
  show ?case
  proof (cases "Decoder_step d i e' (Some v, hidden, g, outputs)")
    case (Inl err)
    then show ?thesis using eq by (simp add: and_then_def)
  next
    case (Inr st)
    obtain it1 h1 g1 o1 where st: "st = (it1, h1, g1, o1)" by (cases st) auto
    obtain v1 where "it1 = Some v1"
      using Decoder_step_result [OF Inr [unfolded st]] assms(1) by auto
    then show ?thesis
      using eq Inr st Cons.IH [of "Suc i" v1 h1 g1 o1] by (simp add: and_then_def)
  qed
qed

text \<open>
  With dynamic decoding, the target tokens after the first time step are looked up in
  the embedding table and then never read.
\<close>

lemma Decoder_forward_dynamic_ignores_later_tokens:
  assumes dyn: "dec_dynamic_decode d" and len: "length input' = length input"
    and first: "take 1 input' = take 1 input"
    and valid: "list_all (valid_ids (dec_word_lut d)) input"
  shows "Decoder_forward d input' hidden init_output step g
           = (if list_all (valid_ids (dec_word_lut d)) input'
              then Decoder_forward d input hidden init_output step g else Inl IndexError)"
proof (cases "list_all (valid_ids (dec_word_lut d)) input'")
  case False
  then show ?thesis by (simp add: Decoder_forward_def Embedding_forward_def and_then_def)
next
  case valid': True
  let ?f = "map (map (\<lambda>t. dec_word_lut d ! nat t))"
  have loops: "Decoder_loop d 0 (?f input') (None, hidden, g, [])
          = Decoder_loop d 0 (?f input) (None, hidden, g, [])"
  proof (cases input)
    case Nil
    then show ?thesis using len by simp
  next
    case (Cons a rest)
    obtain a' rest' where i': "input' = a' # rest'" using len Cons by (cases input') auto
    have a: "a' = a" using first Cons i' by simp
    have l: "length rest' = length rest" using len Cons i' by simp
    let ?st = "Decoder_step d 0 (map (\<lambda>t. dec_word_lut d ! nat t) a) (None, hidden, g, [])"
    show ?thesis
    proof (cases ?st)
      case (Inl err)
      then show ?thesis by (simp add: Cons i' a and_then_def)
    next
      case (Inr st)
      obtain it1 h1 g1 o1 where st: "st = (it1, h1, g1, o1)" by (cases st) auto
      obtain v1 where "it1 = Some v1"
        using Decoder_step_result [OF Inr [unfolded st]] dyn by auto
      then show ?thesis
        using Inr st l Decoder_loop_dynamic_ignores_emb [OF dyn, of "Suc 0" "?f rest'" "?f rest" v1 h1 g1 o1]
        by (simp add: Cons i' a and_then_def)
    qed
  qed
  show ?thesis
    using valid valid' loops by (simp add: Decoder_forward_def Embedding_forward_def and_then_def)
qed

lemma Decoder_forward_Inr:
  assumes "Decoder_forward d input hidden init_output step g = Inr ((outputs, hidden'), g')"
  shows "list_all (valid_ids (dec_word_lut d)) input"
    and "\<exists>input_t. Decoder_loop d 0 (map (map (\<lambda>t. dec_word_lut d ! nat t)) input)
                      (None, hidden, g, []) = Inr (input_t, hidden', g', outputs)"
    and "outputs \<noteq> []"
  using assms
  by (auto simp: Decoder_forward_def Embedding_forward_def and_then_def
      split: if_splits sum.splits dest: stack_Inr)


lemmas decoder_defs = Decoder_forward_def Decoder_step_def StackedLSTM_forward_def
  Dropout_forward_def max_indices_def argmax_def

lemma dyn_run:
  "Decoder_forward dyn_decoder [[2], [7]] ([[[1, 1]]], [[[1, 1]]]) [[0, 0]] 0 demo_rng
     = Inr (([[[0, 6, 1]], [[0, 8, 1]]], ([[[4, 4]]], [[[1, 1]]])), demo_rng)"
  by (simp add: dyn_decoder_def decoder_defs demo_defs tensor_defs upt_rec)


text \<open>The same target without dynamic decoding: every time step is fed from the target.\<close>

lemma teacher_forced_run:
  "Decoder_forward (demo_decoder bi_opt False) [[2], [7]] ([[[1, 1]]], [[[1, 1]]]) [[0, 0]] 0
     demo_rng
     = Inr (([[[0, 6, 1]], [[0, 20, 1]]], ([[[10, 10]]], [[[1, 1]]])), demo_rng)"
  by (simp add: decoder_defs demo_defs tensor_defs upt_rec)


text \<open>
  C6. Let \<open>Decoder_forward\<close> return the logits \<open>outputs\<close>, and let \<open>i\<close> be a time step. The
  loop reaches iteration \<open>i\<close> with the first \<open>i\<close> logits computed, in a state \<open>h\<close>. The
  logits of time step \<open>i\<close> are the generator's output on (the dropout of) what the stacked
  recurrent cell returns on \<open>h\<close> and this input: with dynamic decoding and \<open>i > 0\<close>, the
  rows of the embedding table at the position of the largest logit of time step
  \<open>i - 1\<close>, for every batch element; at \<open>i = 0\<close>, or without dynamic decoding, the rows of
  the embedding table at the target tokens of position \<open>i\<close>, which are ids of the table.
  With dynamic decoding every target of the same length with the same first time step
  gives the same logits, final state and random source, as long as its tokens are ids of
  the embedding table; a token outside the table makes the lookup at the start of
  \<open>Decoder_forward\<close> raise.
\<close>

theorem decoder_input_per_timestep:
  assumes run: "Decoder_forward d input hidden init_output step g = Inr ((outputs, hidden'), g')"
    and i: "i < length input"
  shows "(\<exists>input_t h gi out h' g1.
            Decoder_loop d 0 (take i (map (map (\<lambda>t. dec_word_lut d ! nat t)) input))
              (None, hidden, g, []) = Inr (input_t, h, gi, take i outputs) \<and>
            StackedLSTM_forward (dec_rnn d)
              (if dec_dynamic_decode d \<and> 0 < i
               then map (\<lambda>row. dec_word_lut d ! argmax row) (outputs ! (i - 1))
               else map (\<lambda>t. dec_word_lut d ! nat t) (input ! i))
              h gi = Inr ((out, h'), g1) \<and>
            dec_generator d (fst (Dropout_forward (dec_dropout d) out g1)) = Inr (outputs ! i)) \<and>
         valid_ids (dec_word_lut d) (input ! i) \<and>
         (dec_dynamic_decode d \<and> 0 < i \<longrightarrow>
            (\<forall>row\<in>set (outputs ! (i - 1)).
               argmax row < length row \<and> argmax row < length (dec_word_lut d) \<and>
               (\<forall>x\<in>set row. x \<le> row ! argmax row))) \<and>
         (dec_dynamic_decode d \<longrightarrow>
            (\<forall>input'. length input' = length input \<and> take 1 input' = take 1 input \<longrightarrow>
               Decoder_forward d input' hidden init_output step g =
                 (if list_all (valid_ids (dec_word_lut d)) input'
                  then Inr ((outputs, hidden'), g') else Inl IndexError)))"
proof -
  let ?lut = "dec_word_lut d"
  let ?emb = "map (map (\<lambda>t. ?lut ! nat t)) input"
  note r = Decoder_forward_Inr [OF run]
  obtain it where loop: "Decoder_loop d 0 ?emb (None, hidden, g, []) = Inr (it, hidden', g', outputs)"
    using r(2) by blast
  have len: "length outputs = length input"
    using Decoder_loop_outputs [OF loop] by simp
  have i': "i < length ?emb" using i by simp
  obtain input_t h gi input_t2 h2 g2 where
    pre: "Decoder_loop d 0 (take i ?emb) (None, hidden, g, []) = Inr (input_t, h, gi, take i outputs)"
    and stp: "Decoder_step d i (?emb ! i) (input_t, h, gi, take i outputs)
                = Inr (input_t2, h2, g2, take (Suc i) outputs)"
    using Decoder_loop_step [OF loop i'] by blast
  have emb_i: "?emb ! i = map (\<lambda>t. ?lut ! nat t) (input ! i)" using i by simp
  have dynamic: "[] \<notin> set (outputs ! (i - 1)) \<and>
      valid_ids ?lut (map (\<lambda>row. int (argmax row)) (outputs ! (i - 1))) \<and>
      input_t = Some (map (\<lambda>row. ?lut ! argmax row) (outputs ! (i - 1)))"
    if dyn: "dec_dynamic_decode d" and pos: "0 < i"
  proof -
    have ne: "take i ?emb \<noteq> []" using i pos by auto
    have "take i outputs \<noteq> []" using i pos len by auto
    then have "last (take i outputs) = take i outputs ! (length (take i outputs) - 1)"
      by (rule last_conv_nth)
    then have "last (take i outputs) = outputs ! (i - 1)"
      using i pos len by (simp add: min_def)
    then show ?thesis using Decoder_loop_last [OF pre ne dyn] by simp
  qed
  obtain fed out g1 logit where
    fed: "if \<not> dec_dynamic_decode d \<or> i = 0 then fed = ?emb ! i else input_t = Some fed"
    and rnn: "StackedLSTM_forward (dec_rnn d) fed h gi = Inr ((out, h2), g1)"
    and gen: "dec_generator d (fst (Dropout_forward (dec_dropout d) out g1)) = Inr logit"
    and app: "take (Suc i) outputs = take i outputs @ [logit]"
    using Decoder_step_result [OF stp] by blast
  have "take (Suc i) outputs = take i outputs @ [outputs ! i]"
    using i len by (simp add: take_Suc_conv_app_nth)
  then have logit: "logit = outputs ! i" using app by simp
  have fed_eq: "fed = (if dec_dynamic_decode d \<and> 0 < i
               then map (\<lambda>row. ?lut ! argmax row) (outputs ! (i - 1))
               else map (\<lambda>t. ?lut ! nat t) (input ! i))"
    using fed dynamic emb_i by (auto split: if_splits)
  have cell: "\<exists>input_t h gi out h' g1.
            Decoder_loop d 0 (take i ?emb) (None, hidden, g, []) = Inr (input_t, h, gi, take i outputs) \<and>
            StackedLSTM_forward (dec_rnn d)
              (if dec_dynamic_decode d \<and> 0 < i
               then map (\<lambda>row. ?lut ! argmax row) (outputs ! (i - 1))
               else map (\<lambda>t. ?lut ! nat t) (input ! i))
              h gi = Inr ((out, h'), g1) \<and>
            dec_generator d (fst (Dropout_forward (dec_dropout d) out g1)) = Inr (outputs ! i)"
    using pre rnn gen unfolding logit fed_eq by blast
  have tok: "valid_ids ?lut (input ! i)"
    using r(1) i by (simp add: list_all_length)
  have best: "\<forall>row\<in>set (outputs ! (i - 1)).
      argmax row < length row \<and> argmax row < length ?lut \<and> (\<forall>x\<in>set row. x \<le> row ! argmax row)"
    if d: "dec_dynamic_decode d \<and> 0 < i"
  proof
    fix row assume row: "row \<in> set (outputs ! (i - 1))"
    have "row \<noteq> []" using dynamic d row by auto
    then have m: "argmax row < length row \<and> (\<forall>x\<in>set row. x \<le> row ! argmax row)"
      by (rule argmax_is_max)
    have "argmax row < length ?lut"
      using dynamic d row by (auto simp: valid_ids_def list_all_iff)
    then show "argmax row < length row \<and> argmax row < length ?lut \<and>
        (\<forall>x\<in>set row. x \<le> row ! argmax row)"
      using m by simp
  qed
  have indep: "Decoder_forward d input' hidden init_output step g =
        (if list_all (valid_ids ?lut) input' then Inr ((outputs, hidden'), g') else Inl IndexError)"
    if "dec_dynamic_decode d" "length input' = length input \<and> take 1 input' = take 1 input"
    for input'
    using Decoder_forward_dynamic_ignores_later_tokens
      [of d input' input hidden init_output step g] that run r(1) by simp
  show ?thesis using cell tok best indep by blast
qed

theorem decoder_input_per_timestep_witness:
  "Decoder_forward dyn_decoder [[2], [7]] ([[[1, 1]]], [[[1, 1]]]) [[0, 0]] 0 demo_rng
     = Inr (([[[0, 6, 1]], [[0, 8, 1]]], ([[[4, 4]]], [[[1, 1]]])), demo_rng) \<and>
   (\<exists>input_t h gi out h' g1.
      Decoder_loop dyn_decoder 0 [[[2]]] (None, ([[[1, 1]]], [[[1, 1]]]), demo_rng, [])
        = Inr (input_t, h, gi, [[[0, 6, 1]]]) \<and>
      StackedLSTM_forward (dec_rnn dyn_decoder) [[1]] h gi = Inr ((out, h'), g1) \<and>
      dec_generator dyn_decoder (fst (Dropout_forward (dec_dropout dyn_decoder) out g1))
        = Inr [[0, 8, 1]]) \<and>
   argmax [0, 6, 1] = 1 \<and>
   argmax [0, 6, 1] < length [0, 6, 1 :: real] \<and> argmax [0, 6, 1] < length demo_lut \<and>
   list_all (\<lambda>x. x \<le> [0, 6, 1 :: real] ! argmax [0, 6, 1]) [0, 6, 1] \<and>
   Decoder_forward dyn_decoder [[2], [9]] ([[[1, 1]]], [[[1, 1]]]) [[0, 0]] 0 demo_rng
     = Inr (([[[0, 6, 1]], [[0, 8, 1]]], ([[[4, 4]]], [[[1, 1]]])), demo_rng) \<and>
   Decoder_forward dyn_decoder [[2], [10]] ([[[1, 1]]], [[[1, 1]]]) [[0, 0]] 0 demo_rng
     = Inl IndexError \<and>
   Decoder_forward (demo_decoder bi_opt False) [[2], [7]] ([[[1, 1]]], [[[1, 1]]]) [[0, 0]] 0
     demo_rng
     = Inr (([[[0, 6, 1]], [[0, 20, 1]]], ([[[10, 10]]], [[[1, 1]]])), demo_rng) \<and>
   (\<exists>input_t h gi out h' g1.
      Decoder_loop (demo_decoder bi_opt False) 0 [[[2]]]
        (None, ([[[1, 1]]], [[[1, 1]]]), demo_rng, []) = Inr (input_t, h, gi, [[[0, 6, 1]]]) \<and>
      StackedLSTM_forward (dec_rnn (demo_decoder bi_opt False)) [[7]] h gi
        = Inr ((out, h'), g1) \<and>
      dec_generator (demo_decoder bi_opt False)
        (fst (Dropout_forward (dec_dropout (demo_decoder bi_opt False)) out g1))
        = Inr [[0, 20, 1]])"
proof -
  have dyn: "dec_dynamic_decode dyn_decoder"
    by (simp add: dyn_decoder_def demo_defs)
  have tf: "\<not> dec_dynamic_decode (demo_decoder bi_opt False)"
      "dec_word_lut (demo_decoder bi_opt False) = demo_lut"
    by (simp_all add: demo_decoder_eq bi_opt_def)
  have forced: "\<exists>input_t h gi out h' g1.
      Decoder_loop (demo_decoder bi_opt False) 0 [[[2]]]
        (None, ([[[1, 1]]], [[[1, 1]]]), demo_rng, []) = Inr (input_t, h, gi, [[[0, 6, 1]]]) \<and>
      StackedLSTM_forward (dec_rnn (demo_decoder bi_opt False)) [[7]] h gi
        = Inr ((out, h'), g1) \<and>
      dec_generator (demo_decoder bi_opt False)
        (fst (Dropout_forward (dec_dropout (demo_decoder bi_opt False)) out g1))
        = Inr [[0, 20, 1]]"
    using decoder_input_per_timestep [OF teacher_forced_run, of 1] tf
    by (simp add: demo_lut_def)
  have lut: "dec_word_lut dyn_decoder = demo_lut"
    by (simp add: dyn_decoder_def demo_defs)
  have am: "argmax [0, 6, 1] = 1" by (simp add: argmax_def)
  have v9: "list_all (valid_ids demo_lut) [[2], [9]]"
    by (simp add: valid_ids_def demo_lut_def)
  have v10: "\<not> list_all (valid_ids demo_lut) [[2], [10]]"
    by (simp add: valid_ids_def demo_lut_def)
  have nine: "Decoder_forward dyn_decoder [[2], [9]] ([[[1, 1]]], [[[1, 1]]]) [[0, 0]] 0 demo_rng
     = Inr (([[[0, 6, 1]], [[0, 8, 1]]], ([[[4, 4]]], [[[1, 1]]])), demo_rng)"
    and ten: "Decoder_forward dyn_decoder [[2], [10]] ([[[1, 1]]], [[[1, 1]]]) [[0, 0]] 0 demo_rng
     = Inl IndexError"
    using decoder_input_per_timestep [OF dyn_run, of 1] dyn lut v9 v10 by simp_all
  have "\<exists>input_t h gi out h' g1.
      Decoder_loop dyn_decoder 0 [[[2]]] (None, ([[[1, 1]]], [[[1, 1]]]), demo_rng, [])
        = Inr (input_t, h, gi, [[[0, 6, 1]]]) \<and>
      StackedLSTM_forward (dec_rnn dyn_decoder) [[1]] h gi = Inr ((out, h'), g1) \<and>
      dec_generator dyn_decoder (fst (Dropout_forward (dec_dropout dyn_decoder) out g1))
        = Inr [[0, 8, 1]]"
    using decoder_input_per_timestep [OF dyn_run, of 1] dyn lut am
    by (simp add: demo_lut_def)
  moreover have "argmax [0, 6, 1] < length [0, 6, 1 :: real] \<and>
      argmax [0, 6, 1] < length demo_lut \<and>
      list_all (\<lambda>x. x \<le> [0, 6, 1 :: real] ! argmax [0, 6, 1]) [0, 6, 1]"
    using decoder_input_per_timestep [OF dyn_run, of 1] dyn lut by simp
  ultimately show ?thesis using dyn_run am nine ten teacher_forced_run forced by blast
qed

subsection \<open>The forward pass\<close>

lemma Dropout_forward_shape:
  "has_shape2 x b n \<Longrightarrow> has_shape2 (fst (Dropout_forward d x g)) b n"
  by (auto simp: Dropout_forward_def has_shape2_def list_all_length draw_like_def)

lemma stack_same_shape:
  assumes "ts \<noteq> []" and "list_all (\<lambda>t. has_shape2 t b r) ts"
  shows "stack ts = Inr ts"
proof -
  have "\<And>t. t \<in> set ts \<Longrightarrow> map length t = replicate b r"
    using assms(2) by (auto simp: list_all_iff has_shape2_def intro!: shape2_lengths)
  then have "list_all (\<lambda>t. map length t = map length (hd ts)) ts"
    using assms(1) by (auto simp: list_all_iff)
  then show ?thesis using assms(1) by (simp add: stack_def)
qed

lemma cell_fits_forward:
  assumes "cell_fits cell b n r" and "has_shape2 x b n" and "has_shape2 h b r" "has_shape2 c b r"
  shows "\<exists>h' c'. LSTMCell_forward cell x (h, c) = Inr (h', c') \<and>
           has_shape2 h' b r \<and> has_shape2 c' b r"
proof -
  have lx: "length x = b" using assms(2) by (simp add: has_shape2_def)
  have run: "LSTMCell_forward cell x (h, c) = Inr (cell_update cell x (h, c))"
    using assms by (simp add: LSTMCell_forward_def cell_fits_def lx)
  have "has_shape2 (fst (cell_update cell x (h, c))) b r \<and>
        has_shape2 (snd (cell_update cell x (h, c))) b r"
    using assms unfolding cell_fits_def update_keeps_shape_def by blast
  then show ?thesis
    using run by (cases "cell_update cell x (h, c)") auto
qed

lemma StackedLSTM_loop_returns:
  assumes h0: "has_shape3 h_0 l b r" and c0: "has_shape3 c_0 l b r"
    and cells: "\<forall>k < length cells. cell_fits (cells ! k) b (if i + k = 0 then n else r) r"
    and inp: "has_shape2 input b (if i = 0 then n else r)"
    and le: "i + length cells \<le> l"
    and acc: "list_all (\<lambda>t. has_shape2 t b r) h_1" "list_all (\<lambda>t. has_shape2 t b r) c_1"
  shows "\<exists>inp' h c g'. StackedLSTM_loop s i cells input h_0 c_0 h_1 c_1 g = Inr (inp', h, c, g') \<and>
           length h = length h_1 + length cells \<and> length c = length c_1 + length cells \<and>
           list_all (\<lambda>t. has_shape2 t b r) h \<and> list_all (\<lambda>t. has_shape2 t b r) c \<and>
           (cells \<noteq> [] \<longrightarrow> has_shape2 inp' b r)"
  using cells inp le acc
proof (induction cells arbitrary: i input h_1 c_1 g)
  case Nil
  then show ?case by simp
next
  case (Cons layer cells)
  have i: "i < length h_0" "i < length c_0"
    using Cons.prems(3) h0 c0 by (simp_all add: has_shape3_def)
  have hi: "has_shape2 (h_0 ! i) b r" "has_shape2 (c_0 ! i) b r"
    using h0 c0 i by (simp_all add: has_shape3_def list_all_length)
  have "cell_fits layer b (if i = 0 then n else r) r"
    using Cons.prems(1) [rule_format, of 0] by simp
  then obtain h' c' where cell: "LSTMCell_forward layer input (h_0 ! i, c_0 ! i) = Inr (h', c')"
      "has_shape2 h' b r" "has_shape2 c' b r"
    using cell_fits_forward [OF _ Cons.prems(2) hi] by blast
  define nx where "nx = (if i + 1 \<noteq> sl_num_layers s
      then Dropout_forward (sl_dropout s) h' g else (h', g))"
  have nxs: "has_shape2 (fst nx) b (if i + 1 = 0 then n else r)"
    using cell(2) Dropout_forward_shape [of h' b r "sl_dropout s" g] by (simp add: nx_def)
  have step: "StackedLSTM_loop s i (layer # cells) input h_0 c_0 h_1 c_1 g
      = StackedLSTM_loop s (i + 1) cells (fst nx) h_0 c_0 (h_1 @ [h']) (c_1 @ [c']) (snd nx)"
    using i cell(1)
    by (cases "Dropout_forward (sl_dropout s) h' g") (auto simp: and_then_def nx_def)
  have cells': "\<forall>k < length cells. cell_fits (cells ! k) b (if i + 1 + k = 0 then n else r) r"
  proof (intro allI impI)
    fix k assume k: "k < length cells"
    have "cell_fits ((layer # cells) ! Suc k) b (if i + Suc k = 0 then n else r) r"
      using Cons.prems(1) k by (metis Suc_less_eq length_Cons)
    then show "cell_fits (cells ! k) b (if i + 1 + k = 0 then n else r) r" by simp
  qed
  have le': "i + 1 + length cells \<le> l" using Cons.prems(3) by simp
  have acc': "list_all (\<lambda>t. has_shape2 t b r) (h_1 @ [h'])"
      "list_all (\<lambda>t. has_shape2 t b r) (c_1 @ [c'])"
    using Cons.prems(4,5) cell(2,3) by simp_all
  obtain inp' h c g' where
    rest: "StackedLSTM_loop s (i + 1) cells (fst nx) h_0 c_0 (h_1 @ [h']) (c_1 @ [c']) (snd nx)
             = Inr (inp', h, c, g')"
    and lens: "length h = length (h_1 @ [h']) + length cells"
      "length c = length (c_1 @ [c']) + length cells"
    and shapes: "list_all (\<lambda>t. has_shape2 t b r) h" "list_all (\<lambda>t. has_shape2 t b r) c"
    and out: "cells \<noteq> [] \<longrightarrow> has_shape2 inp' b r"
    using Cons.IH [OF cells' nxs le' acc', of "snd nx"] by blast
  have "has_shape2 inp' b r"
  proof (cases cells)
    case Nil
    then show ?thesis using rest nxs by simp
  next
    case (Cons x xs)
    then show ?thesis using out by simp
  qed
  then show ?case using step rest lens shapes by simp
qed

lemma StackedLSTM_forward_returns:
  assumes cells: "\<forall>k < l. cell_fits (sl_layers s ! k) b (if k = 0 then n else r) r"
    and len: "length (sl_layers s) = l" "0 < l"
    and inp: "has_shape2 input b n" and h: "has_shape3 h l b r" and c: "has_shape3 c l b r"
  shows "\<exists>out h' c' g'. StackedLSTM_forward s input (h, c) g = Inr ((out, (h', c')), g') \<and>
           has_shape2 out b r \<and> has_shape3 h' l b r \<and> has_shape3 c' l b r"
proof -
  have cells0: "\<forall>k < length (sl_layers s).
      cell_fits (sl_layers s ! k) b (if 0 + k = 0 then n else r) r"
    using cells len by simp
  have inp0: "has_shape2 input b (if (0::nat) = 0 then n else r)" using inp by simp
  have le: "0 + length (sl_layers s) \<le> l" using len by simp
  obtain inp' h' c' g' where
    loop: "StackedLSTM_loop s 0 (sl_layers s) input h c [] [] g = Inr (inp', h', c', g')"
    and lens: "length h' = l" "length c' = l"
    and shapes: "list_all (\<lambda>t. has_shape2 t b r) h'" "list_all (\<lambda>t. has_shape2 t b r) c'"
    and out: "has_shape2 inp' b r"
    using StackedLSTM_loop_returns [OF h c cells0 inp0 le, of "[]" "[]" s g] len by auto
  have ne: "h' \<noteq> []" "c' \<noteq> []" using lens len(2) by auto
  have st: "stack h' = Inr h'" "stack c' = Inr c'"
    using stack_same_shape ne shapes by blast+
  have "StackedLSTM_forward s input (h, c) g = Inr ((inp', (h', c')), g')"
    using loop st by (simp add: StackedLSTM_forward_def and_then_def)
  then show ?thesis using out lens shapes by (auto simp: has_shape3_def)
qed

lemma Embedding_forward1_shape:
  assumes lut: "list_all (\<lambda>row. length row = n) lut" and ids: "valid_ids lut ids"
  shows "Embedding_forward1 lut ids = Inr (map (\<lambda>t. lut ! nat t) ids) \<and>
         has_shape2 (map (\<lambda>t. lut ! nat t) ids) (length ids) n"
proof -
  have "\<And>t. t \<in> set ids \<Longrightarrow> length (lut ! nat t) = n"
  proof -
    fix t assume "t \<in> set ids"
    then have "nat t < length lut" using ids by (auto simp: valid_ids_def list_all_iff)
    then show "length (lut ! nat t) = n" using lut by (simp add: list_all_length)
  qed
  then show ?thesis using ids
    by (simp add: Embedding_forward1_def has_shape2_def list_all_iff)
qed

text \<open>
  The state of the loop of the decoder keeps its shapes: under the contracts of the
  cells and of the generator, every iteration returns.
\<close>

lemma Decoder_step_returns:
  assumes cells: "\<forall>k < l. cell_fits (sl_layers (dec_rnn d) ! k) b (if k = 0 then n else r) r"
    and len: "length (sl_layers (dec_rnn d)) = l" "0 < l"
    and gen: "generator_accepts (dec_generator d) b r v"
    and voc: "dec_dynamic_decode d \<longrightarrow> 0 < v \<and> v \<le> length (dec_word_lut d)"
    and lut: "list_all (\<lambda>row. length row = n) (dec_word_lut d)"
    and h: "has_shape3 h l b r" and c: "has_shape3 c l b r"
    and emb: "has_shape2 emb_t b n"
    and inp: "i = 0 \<or> (\<exists>x. input_t = Some x \<and> has_shape2 x b n)"
  shows "\<exists>x h' c' g' logit.
           Decoder_step d i emb_t (input_t, (h, c), g, outputs)
             = Inr (Some x, (h', c'), g', outputs @ [logit]) \<and>
           has_shape2 x b n \<and> has_shape3 h' l b r \<and> has_shape3 c' l b r \<and> has_shape2 logit b v"
proof -
  define sel where "sel = (if \<not> dec_dynamic_decode d \<or> i = 0 then Inr emb_t
      else (case input_t of None \<Rightarrow> Inl UnboundLocalError | Some v \<Rightarrow> Inr v))"
  have "\<exists>fed. sel = Inr fed \<and> has_shape2 fed b n"
  proof (cases "\<not> dec_dynamic_decode d \<or> i = 0")
    case True
    then show ?thesis using emb by (simp add: sel_def)
  next
    case False
    then obtain x where "input_t = Some x" "has_shape2 x b n" using inp by auto
    then show ?thesis using False by (simp add: sel_def)
  qed
  then obtain fed where fed: "sel = Inr fed" "has_shape2 fed b n" by blast
  obtain out h' c' g1 where
    rnn: "StackedLSTM_forward (dec_rnn d) fed (h, c) g = Inr ((out, (h', c')), g1)"
    and sh: "has_shape2 out b r" "has_shape3 h' l b r" "has_shape3 c' l b r"
    using StackedLSTM_forward_returns [OF cells len fed(2) h c] by blast
  define out' where "out' = fst (Dropout_forward (dec_dropout d) out g1)"
  define g2 where "g2 = snd (Dropout_forward (dec_dropout d) out g1)"
  have dr: "Dropout_forward (dec_dropout d) out g1 = (out', g2)"
    by (simp add: out'_def g2_def)
  have "has_shape2 out' b r" unfolding out'_def using sh(1) by (rule Dropout_forward_shape)
  then obtain logit where logit: "dec_generator d out' = Inr logit" "has_shape2 logit b v"
    using gen unfolding generator_accepts_def by blast
  have unfold: "Decoder_step d i emb_t (input_t, (h, c), g, outputs) =
      (if dec_dynamic_decode d
       then and_then (max_indices logit) (\<lambda>indices.
            and_then (Embedding_forward1 (dec_word_lut d) (map int indices)) (\<lambda>input_t'.
              Inr (Some input_t', (h', c'), g2, outputs @ [logit])))
       else Inr (Some fed, (h', c'), g2, outputs @ [logit]))"
    using fed(1) rnn dr logit(1)
    by (simp add: Decoder_step_def sel_def and_then_def del: Dropout_forward_def)
  show ?thesis
  proof (cases "dec_dynamic_decode d")
    case False
    then show ?thesis using unfold fed(2) sh(2,3) logit(2) by simp
  next
    case True
    have rows: "\<And>row. row \<in> set logit \<Longrightarrow> length row = v"
      using logit(2) by (simp add: has_shape2_def list_all_iff)
    have v: "0 < v" "v \<le> length (dec_word_lut d)" using voc True by simp_all
    have ne: "[] \<notin> set logit" using rows v(1) by fastforce
    have mi: "max_indices logit = Inr (map argmax logit)" using ne by (simp add: max_indices_def)
    have "\<And>row. row \<in> set logit \<Longrightarrow> argmax row < length (dec_word_lut d)"
    proof -
      fix row assume row: "row \<in> set logit"
      then have "row \<noteq> []" using ne by auto
      then have "argmax row < length row" using argmax_is_max by blast
      then show "argmax row < length (dec_word_lut d)" using rows [OF row] v(2) by simp
    qed
    then have ids: "valid_ids (dec_word_lut d) (map int (map argmax logit))"
      by (simp add: valid_ids_def list_all_iff)
    define x where "x = map (\<lambda>t. dec_word_lut d ! nat t) (map int (map argmax logit))"
    have e: "Embedding_forward1 (dec_word_lut d) (map int (map argmax logit)) = Inr x"
      and xs: "has_shape2 x (length (map int (map argmax logit))) n"
      using Embedding_forward1_shape [OF lut ids] by (simp_all add: x_def)
    have "length logit = b" using logit(2) by (simp add: has_shape2_def)
    then have xs': "has_shape2 x b n" using xs by simp
    have "Decoder_step d i emb_t (input_t, (h, c), g, outputs)
        = Inr (Some x, (h', c'), g2, outputs @ [logit])"
      using unfold True mi e by (simp add: and_then_def)
    then show ?thesis using xs' sh(2,3) logit(2) by blast
  qed
qed

lemma Decoder_loop_returns:
  assumes cells: "\<forall>k < l. cell_fits (sl_layers (dec_rnn d) ! k) b (if k = 0 then n else r) r"
    and len: "length (sl_layers (dec_rnn d)) = l" "0 < l"
    and gen: "generator_accepts (dec_generator d) b r v"
    and voc: "dec_dynamic_decode d \<longrightarrow> 0 < v \<and> v \<le> length (dec_word_lut d)"
    and lut: "list_all (\<lambda>row. length row = n) (dec_word_lut d)"
    and h: "has_shape3 h l b r" and c: "has_shape3 c l b r"
    and emb: "list_all (\<lambda>e. has_shape2 e b n) emb"
    and inp: "i = 0 \<or> (\<exists>x. input_t = Some x \<and> has_shape2 x b n)"
    and outs: "list_all (\<lambda>t. has_shape2 t b v) outputs"
  shows "\<exists>input_t' hidden' g' outputs'.
           Decoder_loop d i emb (input_t, (h, c), g, outputs) = Inr (input_t', hidden', g', outputs') \<and>
           list_all (\<lambda>t. has_shape2 t b v) outputs'"
  using h c emb inp outs
proof (induction emb arbitrary: i input_t h c g outputs)
  case Nil
  then show ?case by simp
next
  case (Cons e emb)
  have e: "has_shape2 e b n" and rest: "list_all (\<lambda>e. has_shape2 e b n) emb"
    using Cons.prems(3) by simp_all
  obtain x h' c' g' logit where
    step: "Decoder_step d i e (input_t, (h, c), g, outputs)
             = Inr (Some x, (h', c'), g', outputs @ [logit])"
    and sh: "has_shape2 x b n" "has_shape3 h' l b r" "has_shape3 c' l b r" "has_shape2 logit b v"
    using Decoder_step_returns [OF cells len gen voc lut Cons.prems(1,2) e Cons.prems(4)] by blast
  have inp': "Suc i = 0 \<or> (\<exists>y. Some x = Some y \<and> has_shape2 y b n)" using sh(1) by simp
  have outs': "list_all (\<lambda>t. has_shape2 t b v) (outputs @ [logit])"
    using Cons.prems(5) sh(4) by simp
  from Cons.IH [OF sh(2,3) rest inp' outs', of g'] step
  show ?case by (simp add: and_then_def)
qed

lemma Embedding_forward_shape:
  assumes lut: "list_all (\<lambda>row. length row = n) lut" and ids: "list_all (valid_ids lut) input"
    and sh: "has_shape2 input t b"
  shows "Embedding_forward lut input = Inr (map (map (\<lambda>t. lut ! nat t)) input) \<and>
         list_all (\<lambda>e. has_shape2 e b n) (map (map (\<lambda>t. lut ! nat t)) input)"
proof -
  have "\<And>row. row \<in> set input \<Longrightarrow> has_shape2 (map (\<lambda>t. lut ! nat t) row) b n"
  proof -
    fix row assume row: "row \<in> set input"
    then have "valid_ids lut row" and "length row = b"
      using ids sh by (auto simp: list_all_iff has_shape2_def)
    then show "has_shape2 (map (\<lambda>t. lut ! nat t) row) b n"
      using Embedding_forward1_shape [OF lut, of row] by simp
  qed
  then show ?thesis using ids by (simp add: Embedding_forward_def list_all_iff)
qed

lemma Decoder_forward_returns:
  assumes cells: "\<forall>k < l. cell_fits (sl_layers (dec_rnn d) ! k) b (if k = 0 then n else r) r"
    and len: "length (sl_layers (dec_rnn d)) = l" "0 < l"
    and gen: "generator_accepts (dec_generator d) b r v"
    and voc: "dec_dynamic_decode d \<longrightarrow> 0 < v \<and> v \<le> length (dec_word_lut d)"
    and lut: "list_all (\<lambda>row. length row = n) (dec_word_lut d)"
    and h: "has_shape3 h l b r" and c: "has_shape3 c l b r"
    and ids: "list_all (valid_ids (dec_word_lut d)) input"
    and sh: "has_shape2 input t b" and ne: "input \<noteq> []"
  shows "\<exists>r. Decoder_forward d input (h, c) init_output step g = Inr r"
proof -
  let ?emb = "map (map (\<lambda>t. dec_word_lut d ! nat t)) input"
  have emb: "Embedding_forward (dec_word_lut d) input = Inr ?emb"
    and embs: "list_all (\<lambda>e. has_shape2 e b n) ?emb"
    using Embedding_forward_shape [OF lut ids sh] by simp_all
  have inp: "(0::nat) = 0 \<or> (\<exists>x. None = Some x \<and> has_shape2 x b n)" by simp
  have outs: "list_all (\<lambda>t. has_shape2 t b v) []" by simp
  obtain it hid g' outs where
    loop: "Decoder_loop d 0 ?emb (None, (h, c), g, []) = Inr (it, hid, g', outs)"
    and shapes: "list_all (\<lambda>t. has_shape2 t b v) outs"
    using Decoder_loop_returns [OF cells len gen voc lut h c embs inp outs, of g] by blast
  have "length outs = length input"
    using Decoder_loop_outputs [OF loop] by simp
  then have "outs \<noteq> []" using ne by auto
  then have "stack outs = Inr outs" using shapes by (rule stack_same_shape)
  then show ?thesis using emb loop by (simp add: Decoder_forward_def and_then_def)
qed

lemma Decoder_forward_length:
  assumes "Decoder_forward d input hidden init_output step g = Inr ((outputs, hidden'), g')"
  shows "length outputs = length input \<and> input \<noteq> []"
proof -
  note r = Decoder_forward_Inr [OF assms]
  obtain it where loop: "Decoder_loop d 0 (map (map (\<lambda>t. dec_word_lut d ! nat t)) input)
      (None, hidden, g, []) = Inr (it, hidden', g', outputs)"
    using r(2) by blast
  have "length outputs = length input" using Decoder_loop_outputs [OF loop] by simp
  then show ?thesis using r(3) by auto
qed

text \<open>
  What \<open>NMTModel_forward\<close> has computed when it returns: the target without its last time
  step, after the replacement of tokens if that is on, is what the decoder has run on.
\<close>

lemma forward_decodes_truncated_target:
  assumes "NMTModel_forward UNK m (src, tgt) step g = Inr ((out, mu, logvar), g')"
  shows "\<exists>tgt' g1 hidden init_output hidden' g3.
           (if m_training m \<and> m_feed_gt_prob m < 1
            then replace_by_unk UNK m (butlast tgt) (m_feed_gt_prob m) g
            else Inr (butlast tgt, g)) = Inr (tgt', g1) \<and>
           length tgt' = length tgt - 1 \<and>
           Decoder_forward (m_decoder m) tgt' hidden init_output step g3
             = Inr ((out, hidden'), g')"
proof -
  obtain tgt' g1 where
    rep: "(if m_training m \<and> m_feed_gt_prob m < 1
           then replace_by_unk UNK m (butlast tgt) (m_feed_gt_prob m) g else Inr (butlast tgt, g))
          = Inr (tgt', g1)"
    using assms by (auto simp: NMTModel_forward_def and_then_def Let_def split: sum.splits)
  have lt: "length tgt' = length tgt - 1"
    using rep replace_by_unk_length by (auto split: if_splits)
  obtain z g3 where dec: "NMTModel_decode m z tgt' step g3 = Inr (out, g')"
    using assms rep
    by (auto simp: NMTModel_forward_def and_then_def Let_def split: sum.splits prod.splits)
  then obtain st hid io where "Decoder_forward (m_decoder m) tgt' st io step g3 = Inr ((out, hid), g')"
    by (auto simp: NMTModel_decode_def and_then_def Let_def split: sum.splits prod.splits)
  then show ?thesis using rep lt by blast
qed

lemma forward_logits_length:
  assumes "NMTModel_forward UNK m (src, tgt) step g = Inr ((out, mu, logvar), g')"
  shows "length out = length tgt - 1 \<and> 2 \<le> length tgt"
proof -
  obtain tgt' hidden init_output hidden' g3 where
    lt: "length tgt' = length tgt - 1" and
    dec: "Decoder_forward (m_decoder m) tgt' hidden init_output step g3 = Inr ((out, hidden'), g')"
    using forward_decodes_truncated_target [OF assms] by blast
  from Decoder_forward_length [OF dec] lt show ?thesis
    by (cases tgt') auto
qed


lemma sample_z_shape:
  assumes mu: "has_shape2 mu b n" and lv: "has_shape2 logvar b n"
  shows "\<exists>z g'. sample_z m mu logvar g = Inr (z, g') \<and> has_shape2 z b n"
proof (cases "m_deterministic m")
  case True
  then show ?thesis using mu by (simp add: sample_z_def)
next
  case False
  have sh: "map length mu = map length logvar"
    using shape2_lengths [OF mu] shape2_lengths [OF lv] by simp
  let ?z = "map2 (map2 (+))
              (map2 (map2 (*)) (draw_like (rng_normal g) (rng_pos g) logvar)
                 (map (map (\<lambda>v. exp (v * 0.5))) logvar)) mu"
  have "has_shape2 ?z b n"
    using mu lv by (simp add: has_shape2_def list_all_length draw_like_def)
  then show ?thesis
    using False reparameterize_same_shape [OF sh, of m g] by (simp add: sample_z_def)
qed

lemma NMTModel_decode_returns:
  assumes dec: "Decoder_init opt word_lut generator dtraining update = Inr d"
    and m: "NMTModel_init enc d opt training ps = Inr m"
    and z: "has_shape2 z b (opt_latent_size opt)"
    and pos: "0 < opt_layers opt" "0 < opt_rnn_size opt" "0 < b"
    and upd: "\<forall>k < opt_layers opt. update_keeps_shape (update k) b
                  (if k = 0 then opt_word_vec_size opt else nat (opt_rnn_size opt))
                  (nat (opt_rnn_size opt))"
    and gen: "generator_accepts generator b (nat (opt_rnn_size opt)) v"
    and voc: "opt_dynamic_decode opt \<longrightarrow> 0 < v \<and> v \<le> length word_lut"
    and lut: "list_all (\<lambda>row. length row = opt_word_vec_size opt) word_lut"
    and ids: "list_all (valid_ids word_lut) tgt"
    and sh: "has_shape2 tgt t b" and ne: "tgt \<noteq> []"
  shows "\<exists>r. NMTModel_decode m z tgt step g = Inr r"
proof -
  obtain h c where hc: "decode_states m z = Inr (h, c)"
      "has_shape3 h (opt_layers opt) b (nat (opt_rnn_size opt))"
      "has_shape3 c (opt_layers opt) b (nat (opt_rnn_size opt))"
    using decode_states_shape [OF m z pos] by blast
  note d = Decoder_init_Inr [OF dec]
  have built: "StackedLSTM_layers update 0 (opt_layers opt)
        (int (opt_word_vec_size opt)) (opt_rnn_size opt) =
      Inr (map (\<lambda>k. \<lparr>cell_input_size = nat (if k = 0 then int (opt_word_vec_size opt)
                                              else opt_rnn_size opt),
                      cell_hidden_size = nat (opt_rnn_size opt),
                      cell_update = update (0 + k)\<rparr>) [0..<opt_layers opt])"
    by (rule StackedLSTM_layers_Inr) (use pos(2) in simp_all)
  have layers: "sl_layers (dec_rnn d) =
      map (\<lambda>k. \<lparr>cell_input_size = nat (if k = 0 then int (opt_word_vec_size opt)
                                         else opt_rnn_size opt),
                 cell_hidden_size = nat (opt_rnn_size opt),
                 cell_update = update (0 + k)\<rparr>) [0..<opt_layers opt]"
    using d(1) built by auto
  have l: "length (sl_layers (dec_rnn d)) = opt_layers opt"
    unfolding layers by simp
  have cells: "\<forall>k < opt_layers opt. cell_fits (sl_layers (dec_rnn d) ! k) b
                  (if k = 0 then opt_word_vec_size opt else nat (opt_rnn_size opt))
                  (nat (opt_rnn_size opt))"
    unfolding layers using upd by (simp add: cell_fits_def)
  have md: "m_decoder m = d" by (rule NMTModel_init_Inr(6) [OF m])
  have io: "make_init_decoder_output m z
      = Inr (replicate (length z) (replicate (nat (opt_rnn_size opt)) 0))"
    using pos(2) md d(7) by (simp add: make_init_decoder_output_def Let_def)
  have gen': "generator_accepts (dec_generator d) b (nat (opt_rnn_size opt)) v"
    using gen d(4) by simp
  have voc': "dec_dynamic_decode d \<longrightarrow> 0 < v \<and> v \<le> length (dec_word_lut d)"
    using voc d(3,5) by simp
  have lut': "list_all (\<lambda>row. length row = opt_word_vec_size opt) (dec_word_lut d)"
    using lut d(3) by simp
  have ids': "list_all (valid_ids (dec_word_lut d)) tgt" using ids d(3) by simp
  obtain r where "Decoder_forward d tgt (h, c)
      (replicate (length z) (replicate (nat (opt_rnn_size opt)) 0)) step g = Inr r"
    using Decoder_forward_returns [OF cells l pos(1) gen' voc' lut' hc(2,3) ids' sh ne] by blast
  then show ?thesis
    using hc(1) io md by (cases r) (auto simp: NMTModel_decode_def and_then_def)
qed

lemma replaced_ids_valid:
  assumes sh: "has_shape2 seqs s b" and r: "has_shape2 r s b"
    and el: "\<forall>i<s. \<forall>j<b. r ! i ! j = (if P i j then seqs ! i ! j else UNK)"
    and ids: "list_all (valid_ids lut) seqs" and unk: "0 \<le> UNK" "UNK < int (length lut)"
  shows "list_all (valid_ids lut) r"
proof -
  have ls: "length seqs = s" "length r = s" using sh r by (simp_all add: has_shape2_def)
  have rows: "\<And>i. i < s \<Longrightarrow> length (seqs ! i) = b \<and> length (r ! i) = b"
    using sh r by (simp add: has_shape2_def list_all_length)
  have old: "\<And>i j. i < s \<Longrightarrow> j < b \<Longrightarrow> 0 \<le> seqs ! i ! j \<and> seqs ! i ! j < int (length lut)"
    using ids ls rows by (simp add: valid_ids_def list_all_length)
  have "\<And>i j. i < s \<Longrightarrow> j < b \<Longrightarrow> 0 \<le> r ! i ! j \<and> r ! i ! j < int (length lut)"
    using el old unk by simp
  then show ?thesis using ls rows by (simp add: valid_ids_def list_all_length)
qed

lemma forward_returns:
  assumes enc: "Encoder_init opt word_lut_e forward = Inr enc"
    and dec: "Decoder_init opt word_lut_d generator dtraining update = Inr d"
    and m: "NMTModel_init enc d opt training ps = Inr m"
    and pos: "0 < opt_layers opt" "0 < opt_rnn_size opt" "0 < b"
    and len: "2 \<le> length tgt"
    and sh: "has_shape2 tgt (length tgt) b"
    and ids: "list_all (valid_ids word_lut_d) (butlast tgt)"
    and lut: "list_all (\<lambda>row. length row = opt_word_vec_size opt) word_lut_d"
    and state: "\<forall>g0. \<exists>h c outs g1.
                  Encoder_forward enc src None g0 = Inr (((h, c), outs), g1) \<and>
                  has_shape3 h (enc_layers enc * enc_num_directions enc) b
                    (nat (enc_hidden_size enc)) \<and>
                  has_shape3 c (enc_layers enc * enc_num_directions enc) b
                    (nat (enc_hidden_size enc))"
    and upd: "\<forall>k < opt_layers opt. update_keeps_shape (update k) b
                  (if k = 0 then opt_word_vec_size opt else nat (opt_rnn_size opt))
                  (nat (opt_rnn_size opt))"
    and gen: "generator_accepts generator b (nat (opt_rnn_size opt)) v"
    and voc: "opt_dynamic_decode opt \<longrightarrow> 0 < v \<and> v \<le> length word_lut_d"
    and repl: "\<not> (training \<and> opt_feed_gt_prob opt < 1) \<or>
               (opt_gpus opt \<noteq> [] \<and> 0 \<le> opt_feed_gt_prob opt \<and>
                0 \<le> UNK \<and> UNK < int (length word_lut_d))"
  shows "\<exists>r. NMTModel_forward UNK m (src, tgt) step g = Inr r"
proof -
  note f = NMTModel_init_Inr [OF m]
  have shb: "has_shape2 (butlast tgt) (length tgt - 1) b"
    using sh by (auto simp: has_shape2_def list_all_iff dest: in_set_butlastD)
  have "\<exists>tgt' g1. (if m_training m \<and> m_feed_gt_prob m < 1
           then replace_by_unk UNK m (butlast tgt) (m_feed_gt_prob m) g else Inr (butlast tgt, g))
          = Inr (tgt', g1) \<and> tgt' \<noteq> [] \<and> has_shape2 tgt' (length tgt - 1) b \<and>
          list_all (valid_ids word_lut_d) tgt'"
  proof (cases "training \<and> opt_feed_gt_prob opt < 1")
    case False
    have "butlast tgt \<noteq> []" using len by (cases tgt rule: rev_cases) auto
    then show ?thesis using False f(9,10) shb ids by auto
  next
    case True
    then have r: "opt_gpus opt \<noteq> []" "0 \<le> opt_feed_gt_prob opt"
        "0 \<le> UNK" "UNK < int (length word_lut_d)"
      using repl by auto
    have gp: "m_gpus m \<noteq> []" using r(1) f(8) by simp
    have p1: "opt_feed_gt_prob opt \<le> 1" using True by simp
    have s: "0 < length tgt - 1" using len by simp
    obtain rr where rr: "replace_by_unk UNK m (butlast tgt) (opt_feed_gt_prob opt) g
        = Inr (rr, advance g (butlast tgt))" "has_shape2 rr (length tgt - 1) b"
      "\<forall>i<length tgt - 1. \<forall>j<b. rr ! i ! j =
         (if draw_like (rng_uniform g) (rng_pos g) (butlast tgt) ! i ! j
               < (if i = 0 then 1 else opt_feed_gt_prob opt)
          then butlast tgt ! i ! j else UNK)"
      using replace_by_unk_gpu [OF gp r(2) p1 shb s, of UNK g] by blast
    have v: "list_all (valid_ids word_lut_d) rr"
      by (rule replaced_ids_valid [OF shb rr(2) rr(3) ids r(3,4)])
    have "rr \<noteq> []" using rr(2) s by (auto simp: has_shape2_def)
    then show ?thesis using True f(9,10) rr(1,2) v by auto
  qed
  then obtain tgt' g1 where
    rep: "(if m_training m \<and> m_feed_gt_prob m < 1
           then replace_by_unk UNK m (butlast tgt) (m_feed_gt_prob m) g else Inr (butlast tgt, g))
          = Inr (tgt', g1)" and ne: "tgt' \<noteq> []"
    and sh': "has_shape2 tgt' (length tgt - 1) b" and ids': "list_all (valid_ids word_lut_d) tgt'"
    by blast
  obtain h0 c0 outs g2 where ef: "Encoder_forward enc src None g1 = Inr (((h0, c0), outs), g2)"
    and sh0: "has_shape3 h0 (enc_layers enc * enc_num_directions enc) b (nat (enc_hidden_size enc))"
      "has_shape3 c0 (enc_layers enc * enc_num_directions enc) b (nat (enc_hidden_size enc))"
    using state by blast
  note e = Encoder_init_Inr(1-3) [OF enc]
  have nd: "0 < enc_num_directions enc" using e(2) by simp
  have hs: "0 < enc_hidden_size enc"
  proof (rule ccontr)
    assume "\<not> 0 < enc_hidden_size enc"
    then have "int (enc_num_directions enc) * enc_hidden_size enc \<le> 0"
      by (simp add: mult_le_0_iff)
    then show False using e(3) pos(2) by simp
  qed
  have r: "enc_num_directions enc * nat (enc_hidden_size enc) = nat (opt_rnn_size opt)"
    using e(3) hs by (metis nat_int nat_mult_distrib of_nat_0_le_iff)
  have k: "0 < enc_layers enc * enc_num_directions enc"
    using e(1) pos(1) nd by simp
  have "nat (int (opt_layers opt) * opt_rnn_size opt * 2) = opt_layers opt * nat (opt_rnn_size opt) * 2"
    using pos(2) by (simp add: nat_mult_distrib)
  then have w: "enc_layers enc * enc_num_directions enc * (2 * nat (enc_hidden_size enc))
             = nat (int (opt_layers opt) * opt_rnn_size opt * 2)"
    using e(1) r by (metis mult.assoc mult.commute)
  obtain mu logvar where el: "encode_hidden m (h0, c0) = Inr (mu, logvar)"
      "has_shape2 mu b (opt_latent_size opt)" "has_shape2 logvar b (opt_latent_size opt)"
    using encode_hidden_shape [OF m sh0 k pos(3) w] by blast
  have en: "NMTModel_encode m src g1 = Inr ((mu, logvar), g2)"
    using ef el(1) f(5) by (simp add: NMTModel_encode_def and_then_def)
  obtain z g3 where sz: "sample_z m mu logvar g2 = Inr (z, g3)"
      "has_shape2 z b (opt_latent_size opt)"
    using sample_z_shape [OF el(2,3)] by blast
  obtain r where "NMTModel_decode m z tgt' step g3 = Inr r"
    using NMTModel_decode_returns [OF dec m sz(2) pos upd gen voc lut ids' sh' ne] by blast
  then show ?thesis
    using rep en sz(1)
    by (cases r) (simp add: NMTModel_forward_def and_then_def Let_def)
qed

lemma sum_update_keeps_shape: "update_keeps_shape sum_update b n r"
  by (auto simp: update_keeps_shape_def sum_update_def has_shape2_def list_all_length)

lemma demo_gen_accepts: "generator_accepts demo_gen b r 3"
  by (simp add: generator_accepts_def demo_gen_def has_shape2_def list_all_iff)

lemma demo_forward:
  "NMTModel_forward 1 (demo_model bi_opt False) (Padded [[2], [5], [1]], [[2], [7], [3], [1]]) 0 demo_rng
     = Inr (([[[0, 8, 1]], [[0, 22, 1]], [[0, 28, 1]]],
             [[1, 3, 2, 4]], [[- 80, - 80, - 80, - 80]]), demo_rng)"
proof -
  have dec: "decode_states (demo_model bi_opt False) [[1, 3, 2, 4]] = Inr ([[[1, 3]]], [[[2, 4]]])"
    by (simp add: decode_states_def demo_defs tensor_defs upt_rec)
  have run: "Decoder_forward (demo_decoder bi_opt False) [[2], [7], [3]] ([[[1, 3]]], [[[2, 4]]])
       [[0, 0]] 0 demo_rng
     = Inr (([[[0, 8, 1]], [[0, 22, 1]], [[0, 28, 1]]], ([[[13, 15]]], [[[2, 4]]])), demo_rng)"
    by (simp add: decoder_defs demo_defs tensor_defs upt_rec)
  have f: "m_decoder (demo_model bi_opt False) = demo_decoder bi_opt False"
      "\<not> m_training (demo_model bi_opt False)" "m_deterministic (demo_model bi_opt False)"
    by (simp_all add: demo_model_fields bi_opt_def)
  have hs: "dec_hidden_size (demo_decoder bi_opt False) = 2"
    by (simp add: demo_decoder_eq bi_opt_def)
  have io: "make_init_decoder_output (demo_model bi_opt False) [[1, 3, 2, 4]] = Inr [[0, 0]]"
    by (simp add: make_init_decoder_output_def f(1) hs numeral_2_eq_2)
  show ?thesis
    using demo_encode dec run io f
    by (simp add: NMTModel_forward_def NMTModel_decode_def sample_z_def and_then_def)
qed


text \<open>
  C7. Whenever \<open>NMTModel_forward\<close> returns for a target of \<open>T\<close> time steps, \<open>T\<close> is at least
  2 and the logits have exactly \<open>T - 1\<close> time steps: they are the logits that the decoder
  returns on the target without its last time step (after the replacement of tokens, when
  that is on, which keeps the number of time steps), one for each time step. The last time
  step of the target is not read: two targets that differ in it only give the same
  result. And the forward pass does return, for every target of at least two time steps
  of a batch of \<open>b\<close> sequences whose tokens are ids of the embedding table of the decoder,
  when the model is built by the constructors from one configuration with positive
  layers and \<open>rnn_size\<close>, the rows of the embedding table have the configured width, the
  encoder returns, on this source, final states of shape (layers * directions, batch,
  hidden_size) for the same batch, the updates of the cells and the generator keep their
  contracts (with dynamic decoding the generator returns at least one logit and no more
  logits than the table has rows), and the replacement of target tokens is off, or runs
  on the branch with accelerators with an unknown-token id of the table.
\<close>

theorem forward_logits_timesteps:
  "(NMTModel_forward UNK m (src, tgt) step g = Inr ((out, mu, logvar), g') \<longrightarrow>
      length out = length tgt - 1 \<and> 2 \<le> length tgt \<and>
      (\<exists>tgt' g1 hidden init_output hidden' g3.
         (if m_training m \<and> m_feed_gt_prob m < 1
          then replace_by_unk UNK m (butlast tgt) (m_feed_gt_prob m) g
          else Inr (butlast tgt, g)) = Inr (tgt', g1) \<and>
         length tgt' = length tgt - 1 \<and>
         Decoder_forward (m_decoder m) tgt' hidden init_output step g3
           = Inr ((out, hidden'), g'))) \<and>
   (\<forall>tgt2. butlast tgt2 = butlast tgt \<longrightarrow>
      NMTModel_forward UNK m (src, tgt2) step g = NMTModel_forward UNK m (src, tgt) step g) \<and>
   (Encoder_init opt word_lut_e forward = Inr enc \<and>
    Decoder_init opt word_lut_d generator dtraining update = Inr d \<and>
    NMTModel_init enc d opt training ps = Inr m \<and>
    0 < opt_layers opt \<and> 0 < opt_rnn_size opt \<and> 0 < b \<and> 2 \<le> length tgt \<and>
    has_shape2 tgt (length tgt) b \<and>
    list_all (valid_ids word_lut_d) (butlast tgt) \<and>
    list_all (\<lambda>row. length row = opt_word_vec_size opt) word_lut_d \<and>
    (\<forall>g0. \<exists>h c outs g1.
       Encoder_forward enc src None g0 = Inr (((h, c), outs), g1) \<and>
       has_shape3 h (enc_layers enc * enc_num_directions enc) b (nat (enc_hidden_size enc)) \<and>
       has_shape3 c (enc_layers enc * enc_num_directions enc) b (nat (enc_hidden_size enc))) \<and>
    (\<forall>k < opt_layers opt. update_keeps_shape (update k) b
       (if k = 0 then opt_word_vec_size opt else nat (opt_rnn_size opt))
       (nat (opt_rnn_size opt))) \<and>
    generator_accepts generator b (nat (opt_rnn_size opt)) v \<and>
    (opt_dynamic_decode opt \<longrightarrow> 0 < v \<and> v \<le> length word_lut_d) \<and>
    (\<not> (training \<and> opt_feed_gt_prob opt < 1) \<or>
       (opt_gpus opt \<noteq> [] \<and> 0 \<le> opt_feed_gt_prob opt \<and>
        0 \<le> UNK \<and> UNK < int (length word_lut_d))) \<longrightarrow>
      (\<exists>out' mu' logvar' g''.
         NMTModel_forward UNK m (src, tgt) step g = Inr ((out', mu', logvar'), g'') \<and>
         length out' = length tgt - 1))"
proof -
  have returned: "length out = length tgt - 1 \<and> 2 \<le> length tgt \<and>
      (\<exists>tgt' g1 hidden init_output hidden' g3.
         (if m_training m \<and> m_feed_gt_prob m < 1
          then replace_by_unk UNK m (butlast tgt) (m_feed_gt_prob m) g
          else Inr (butlast tgt, g)) = Inr (tgt', g1) \<and>
         length tgt' = length tgt - 1 \<and>
         Decoder_forward (m_decoder m) tgt' hidden init_output step g3
           = Inr ((out, hidden'), g'))"
    if "NMTModel_forward UNK m (src, tgt) step g = Inr ((out, mu, logvar), g')"
    using forward_logits_length [OF that] forward_decodes_truncated_target [OF that] by simp
  have dropped: "NMTModel_forward UNK m (src, tgt2) step g = NMTModel_forward UNK m (src, tgt) step g"
    if "butlast tgt2 = butlast tgt" for tgt2
    using that by (simp add: NMTModel_forward_def)
  have returns: "\<exists>out' mu' logvar' g''.
         NMTModel_forward UNK m (src, tgt) step g = Inr ((out', mu', logvar'), g'') \<and>
         length out' = length tgt - 1"
    if a: "Encoder_init opt word_lut_e forward = Inr enc \<and>
      Decoder_init opt word_lut_d generator dtraining update = Inr d \<and>
      NMTModel_init enc d opt training ps = Inr m \<and>
      0 < opt_layers opt \<and> 0 < opt_rnn_size opt \<and> 0 < b \<and> 2 \<le> length tgt \<and>
      has_shape2 tgt (length tgt) b \<and>
      list_all (valid_ids word_lut_d) (butlast tgt) \<and>
      list_all (\<lambda>row. length row = opt_word_vec_size opt) word_lut_d \<and>
      (\<forall>g0. \<exists>h c outs g1.
         Encoder_forward enc src None g0 = Inr (((h, c), outs), g1) \<and>
         has_shape3 h (enc_layers enc * enc_num_directions enc) b (nat (enc_hidden_size enc)) \<and>
         has_shape3 c (enc_layers enc * enc_num_directions enc) b (nat (enc_hidden_size enc))) \<and>
      (\<forall>k < opt_layers opt. update_keeps_shape (update k) b
         (if k = 0 then opt_word_vec_size opt else nat (opt_rnn_size opt))
         (nat (opt_rnn_size opt))) \<and>
      generator_accepts generator b (nat (opt_rnn_size opt)) v \<and>
      (opt_dynamic_decode opt \<longrightarrow> 0 < v \<and> v \<le> length word_lut_d) \<and>
      (\<not> (training \<and> opt_feed_gt_prob opt < 1) \<or>
         (opt_gpus opt \<noteq> [] \<and> 0 \<le> opt_feed_gt_prob opt \<and>
          0 \<le> UNK \<and> UNK < int (length word_lut_d)))"
  proof -
    have "\<exists>r. NMTModel_forward UNK m (src, tgt) step g = Inr r"
      by (rule forward_returns [where b = b and v = v and opt = opt and enc = enc and d = d
            and word_lut_e = word_lut_e and forward = forward and word_lut_d = word_lut_d
            and generator = generator and dtraining = dtraining and update = update
            and training = training and ps = ps]) (use a in simp_all)
    then obtain r where r: "NMTModel_forward UNK m (src, tgt) step g = Inr r" ..
    obtain out' mu' logvar' g'' where "r = ((out', mu', logvar'), g'')"
      by (metis prod.exhaust)
    then show ?thesis using r forward_logits_length by blast
  qed
  show ?thesis using returned dropped returns by blast
qed

theorem forward_logits_timesteps_witness:
  "NMTModel_forward 1 (demo_model bi_opt False) (Padded [[2], [5], [1]], [[2], [7], [3], [1]]) 0 demo_rng
     = Inr (([[[0, 8, 1]], [[0, 22, 1]], [[0, 28, 1]]],
             [[1, 3, 2, 4]], [[- 80, - 80, - 80, - 80]]), demo_rng) \<and>
   length [[[0, 8, 1]], [[0, 22, 1]], [[0, 28, 1 :: real]]] = length [[2], [7], [3], [1 :: int]] - 1 \<and>
   (\<exists>hidden init_output hidden' g3.
      Decoder_forward (m_decoder (demo_model bi_opt False)) [[2], [7], [3]] hidden init_output 0 g3
        = Inr (([[[0, 8, 1]], [[0, 22, 1]], [[0, 28, 1]]], hidden'), demo_rng)) \<and>
   NMTModel_forward 1 (demo_model bi_opt False) (Padded [[2], [5], [1]], [[2], [7], [3], [9]]) 0 demo_rng
     = Inr (([[[0, 8, 1]], [[0, 22, 1]], [[0, 28, 1]]],
             [[1, 3, 2, 4]], [[- 80, - 80, - 80, - 80]]), demo_rng) \<and>
   (\<exists>out' mu' logvar' g''.
      NMTModel_forward 1 (demo_model bi_opt False) (Padded [[2], [5], [1]], [[2], [7], [3], [1]]) 0 demo_rng
        = Inr ((out', mu', logvar'), g'') \<and>
      length out' = 3)"
proof -
  let ?m = "demo_model bi_opt False"
  let ?src = "Padded [[2], [5], [1]]"
  let ?tgt = "[[2], [7], [3], [1 :: int]]"
  have enc: "Encoder_init bi_opt demo_lut (const_lstm bi_state) = Inr (demo_encoder 2 bi_state)"
    by (simp add: Encoder_init_def LSTM_def and_then_def bi_opt_def demo_encoder_def)
  have dec: "Decoder_init bi_opt demo_lut demo_gen False (\<lambda>i. sum_update)
      = Inr (demo_decoder bi_opt False)"
    by (rule demo_decoder_built) (simp_all add: bi_opt_def)
  have m: "NMTModel_init (demo_encoder 2 bi_state) (demo_decoder bi_opt False) bi_opt False demo_ps
      = Inr ?m"
    by (rule demo_model_built) (simp add: bi_opt_def)
  have pos: "0 < opt_layers bi_opt" "0 < opt_rnn_size bi_opt" "0 < (1::nat)" "2 \<le> length ?tgt"
    by (simp_all add: bi_opt_def)
  have sh: "has_shape2 ?tgt (length ?tgt) 1" by (simp add: has_shape2_def)
  have ids: "list_all (valid_ids demo_lut) (butlast ?tgt)"
    by (simp add: valid_ids_def demo_lut_def)
  have lut: "list_all (\<lambda>row. length row = opt_word_vec_size bi_opt) demo_lut"
    by (simp add: demo_lut_def bi_opt_def)
  have st: "\<forall>g0. \<exists>h c outs g1.
       Encoder_forward (demo_encoder 2 bi_state) ?src None g0 = Inr (((h, c), outs), g1) \<and>
       has_shape3 h (enc_layers (demo_encoder 2 bi_state) * enc_num_directions (demo_encoder 2 bi_state))
         1 (nat (enc_hidden_size (demo_encoder 2 bi_state))) \<and>
       has_shape3 c (enc_layers (demo_encoder 2 bi_state) * enc_num_directions (demo_encoder 2 bi_state))
         1 (nat (enc_hidden_size (demo_encoder 2 bi_state)))"
    by (simp add: Encoder_forward_def demo_encoder_def const_lstm_def bi_state_def demo_lut_def
        tensor_defs)
  have cells: "\<forall>k < opt_layers bi_opt.
       update_keeps_shape sum_update 1
         (if k = 0 then opt_word_vec_size bi_opt else nat (opt_rnn_size bi_opt))
         (nat (opt_rnn_size bi_opt))"
    by (simp add: sum_update_keeps_shape)
  have gen: "generator_accepts demo_gen 1 (nat (opt_rnn_size bi_opt)) 3"
    by (rule demo_gen_accepts)
  have voc: "opt_dynamic_decode bi_opt \<longrightarrow> 0 < (3::nat) \<and> 3 \<le> length demo_lut"
    by (simp add: bi_opt_def)
  have repl: "\<not> (False \<and> opt_feed_gt_prob bi_opt < 1) \<or>
       (opt_gpus bi_opt \<noteq> [] \<and> 0 \<le> opt_feed_gt_prob bi_opt \<and>
        0 \<le> (1::int) \<and> 1 < int (length demo_lut))"
    by simp
  have off: "\<not> (m_training ?m \<and> m_feed_gt_prob ?m < 1)"
    by (simp add: demo_model_fields bi_opt_def)
  have bl: "butlast [[2], [7], [3], [9 :: int]] = butlast ?tgt" by simp
  note inst = forward_logits_timesteps
    [where UNK = 1 and m = ?m and src = ?src and tgt = ?tgt and step = 0 and g = demo_rng
       and out = "[[[0, 8, 1]], [[0, 22, 1]], [[0, 28, 1]]]" and mu = "[[1, 3, 2, 4]]"
       and logvar = "[[- 80, - 80, - 80, - 80]]" and g' = demo_rng
       and opt = bi_opt and word_lut_e = demo_lut and forward = "const_lstm bi_state"
       and enc = "demo_encoder 2 bi_state" and word_lut_d = demo_lut and generator = demo_gen
       and dtraining = False and update = "\<lambda>i. sum_update"
       and d = "demo_decoder bi_opt False" and training = False and ps = demo_ps
       and b = 1 and v = 3]
  have c1: "\<exists>hidden init_output hidden' g3.
      Decoder_forward (m_decoder ?m) [[2], [7], [3]] hidden init_output 0 g3
        = Inr (([[[0, 8, 1]], [[0, 22, 1]], [[0, 28, 1]]], hidden'), demo_rng)"
    using inst demo_forward off by auto
  have c2: "NMTModel_forward 1 ?m (?src, [[2], [7], [3], [9]]) 0 demo_rng
      = NMTModel_forward 1 ?m (?src, ?tgt) 0 demo_rng"
    using inst bl by blast
  have c3: "\<exists>out' mu' logvar' g''.
      NMTModel_forward 1 ?m (?src, ?tgt) 0 demo_rng = Inr ((out', mu', logvar'), g'') \<and>
      length out' = 3"
  proof -
    have "\<exists>out' mu' logvar' g''.
        NMTModel_forward 1 ?m (?src, ?tgt) 0 demo_rng = Inr ((out', mu', logvar'), g'') \<and>
        length out' = length ?tgt - 1"
      by (rule inst [THEN conjunct2, THEN conjunct2, THEN mp])
        (intro conjI enc dec m pos sh ids lut st cells gen voc repl)
    then show ?thesis by (simp add: eval_nat_numeral)
  qed
  show ?thesis using demo_forward c1 c2 c3 by simp
qed

subsection \<open>The tensors of the caller\<close>

text \<open>
  The runs over the store compute what \<open>replace_by_unk\<close>, \<open>reparameterize\<close> and
  \<open>NMTModel_forward\<close> compute on the values read, and every storage that existed before
  the call is left as it was.
\<close>

lemma and_then_Inr: "and_then (Inr x) f = f x"
  by (simp add: and_then_def)

lemma and_then_Inl: "and_then (Inl e) f = Inl e"
  by (simp add: and_then_def)

lemma read_long_old:
  "read_long st r = Inr v \<Longrightarrow> read_long (st @ xs) r = Inr v"
  by (cases r) (auto simp: read_long_def nth_append split: if_splits)

lemma read_float_old:
  "read_float st r = Inr v \<Longrightarrow> read_float (st @ xs) r = Inr v"
  by (cases r) (auto simp: read_float_def nth_append split: if_splits)

lemma fill_fresh:
  "fill_inplace (st @ [Float (replicate n (replicate c x))]) (View (length st) 0 n) v
     = Inr (st @ [Float (replicate n (replicate c v))])"
  by (simp add: fill_inplace_def read_float_def write_rows_def rows_of_def and_then_def)

lemma read_float_new: "read_float (st @ [Float t]) (View (length st) 0 (length t)) = Inr t"
  by (simp add: read_float_def rows_of_def)

lemma read_long_new: "read_long (st @ [Long t]) (View (length st) 0 (length t)) = Inr t"
  by (simp add: read_long_def rows_of_def)

lemma float_op_run:
  "read_float st a = Inr x \<Longrightarrow> f x = Inr y \<Longrightarrow>
   float_op st a f = Inr (View (length st) 0 (length y), st @ [Float y])"
  by (simp add: float_op_def and_then_def alloc_float_def)

lemma to_long_run:
  "read_float st a = Inr x \<Longrightarrow>
   to_long st a = Inr (View (length st) 0 (length x), st @ [Long (map (map long) x)])"
  by (simp add: to_long_def and_then_def alloc_long_def)

lemma long_op2_run:
  "read_long st a = Inr x \<Longrightarrow> read_long st b = Inr y \<Longrightarrow> f x y = Inr z \<Longrightarrow>
   long_op2 st a b f = Inr (View (length st) 0 (length z), st @ [Long z])"
  by (simp add: long_op2_def and_then_def alloc_long_def)

lemma long_op2_fail:
  "read_long st a = Inr x \<Longrightarrow> read_long st b = Inr y \<Longrightarrow> f x y = Inl e \<Longrightarrow>
   long_op2 st a b f = Inl e"
  by (simp add: long_op2_def and_then_def)

lemma replace_by_unk_st_refines:
  assumes "read_long st seqs = Inr seqs_v"
  shows "case replace_by_unk_st UNK m st seqs prob g of
           Inl e \<Rightarrow> replace_by_unk UNK m seqs_v prob g = Inl e
         | Inr (r, st', g') \<Rightarrow>
             take (length st) st' = st \<and> length st \<le> base r \<and>
             (\<exists>r_v. read_long st' r = Inr r_v \<and>
                    replace_by_unk UNK m seqs_v prob g = Inr (r_v, g'))"
proof -
  define n where "n = (if m_gpus m \<noteq> [] then int (length seqs_v) - 1 else int (length seqs_v) - 2)"
  define b where "b = size1 seqs_v"
  show ?thesis
  proof (cases "n < 0")
    case True
    then show ?thesis
      using assms
      by (simp add: replace_by_unk_st_def replace_by_unk_def Let_def n_def FloatTensor_def
          and_then_Inr and_then_Inl)
  next
    case False
    define probs where "probs = replicate b (1::real) # replicate (nat n) (replicate b prob)"
    have prep: "replace_by_unk_st UNK m st seqs prob g =
      and_then (bernoulli probs g) (\<lambda>(samples_v, g').
       let (samples, st) = alloc_float (st @ [Float (replicate (nat n) (replicate b prob)),
                              Float [replicate b 1], Float probs]) samples_v in
       and_then (float_op st samples (\<lambda>x. Inr (map (map (\<lambda>s. 1 - s)) x))) (\<lambda>(one_minus, st).
       and_then (float_op st one_minus (\<lambda>x. Inr (map (map (\<lambda>s. s * real_of_int UNK)) x)))
         (\<lambda>(added, st).
       and_then (to_long st samples) (\<lambda>(samples_long, st).
       and_then (long_op2 st seqs samples_long (broadcast2 (*))) (\<lambda>(kept, st).
       and_then (to_long st added) (\<lambda>(added_long, st).
       and_then (long_op2 st kept added_long (broadcast2 (+))) (\<lambda>(r, st).
         Inr (r, st, g'))))))))"
      using assms False
      apply (simp add: replace_by_unk_st_def Let_def n_def [symmetric] b_def [symmetric]
          FloatTensor_def alloc_float_def and_then_Inr fill_fresh)
      apply (simp add: fill_fresh [of "st @ [Float (replicate (nat n) (replicate b prob))]" 1 b 0 1,
            simplified] and_then_Inr float_op2_def read_float_def rows_of_def nth_append
          alloc_float_def probs_def)
      done
    have pure: "replace_by_unk UNK m seqs_v prob g =
      and_then (bernoulli probs g) (\<lambda>(samples, g').
        let added = map (map (\<lambda>s. (1 - s) * real_of_int UNK)) samples in
        and_then (broadcast2 (*) seqs_v (map (map long) samples)) (\<lambda>kept.
        and_then (broadcast2 (+) kept (map (map long) added)) (\<lambda>r. Inr (r, g'))))"
      using False
      by (simp add: replace_by_unk_def Let_def n_def [symmetric] b_def [symmetric] probs_def)
    have seqs_old: "\<And>xs. read_long (st @ xs) seqs = Inr seqs_v"
      using assms by (rule read_long_old)
    show ?thesis
    proof (cases "bernoulli probs g")
      case (Inl e)
      then show ?thesis by (simp add: prep pure and_then_Inl)
    next
      case (Inr p)
      obtain samples_v g' where p: "p = (samples_v, g')" by (cases p) auto
      define om where "om = map (map (\<lambda>s. 1 - s)) samples_v"
      define added where "added = map (map (\<lambda>s. s * real_of_int UNK)) om"
      define S3 where "S3 = st @ [Float (replicate (nat n) (replicate b prob)),
                              Float [replicate b 1], Float probs]"
      define S4 where "S4 = S3 @ [Float samples_v]"
      define S5 where "S5 = S4 @ [Float om]"
      define S6 where "S6 = S5 @ [Float added]"
      define S7 where "S7 = S6 @ [Long (map (map long) samples_v)]"
      define r4 where "r4 = View (length S3) 0 (length samples_v)"
      define r5 where "r5 = View (length S4) 0 (length om)"
      define r6 where "r6 = View (length S5) 0 (length added)"
      define r7 where "r7 = View (length S6) 0 (length samples_v)"
      have a4: "alloc_float S3 samples_v = (r4, S4)"
        by (simp add: alloc_float_def r4_def S4_def)
      have v4: "read_float S4 r4 = Inr samples_v"
        unfolding S4_def r4_def by (rule read_float_new)
      have o5: "float_op S4 r4 (\<lambda>x. Inr (map (map (\<lambda>s. 1 - s)) x)) = Inr (r5, S5)"
        using float_op_run [where f = "\<lambda>x. Inr (map (map (\<lambda>s. 1 - s)) x)" and y = om, OF v4]
        by (simp add: om_def r5_def S5_def)
      have v5: "read_float S5 r5 = Inr om"
        unfolding S5_def r5_def by (rule read_float_new)
      have o6: "float_op S5 r5 (\<lambda>x. Inr (map (map (\<lambda>s. s * real_of_int UNK)) x)) = Inr (r6, S6)"
        using float_op_run [where f = "\<lambda>x. Inr (map (map (\<lambda>s. s * real_of_int UNK)) x)" and y = added, OF v5]
        by (simp add: added_def r6_def S6_def)
      have v4a: "read_float S5 r4 = Inr samples_v"
        unfolding S5_def using v4 by (rule read_float_old)
      have v4': "read_float S6 r4 = Inr samples_v"
        unfolding S6_def using v4a by (rule read_float_old)
      have o7: "to_long S6 r4 = Inr (r7, S7)"
        using to_long_run [OF v4'] by (simp add: r7_def S7_def)
      have v7: "read_long S7 r7 = Inr (map (map long) samples_v)"
        using read_long_new [of S6 "map (map long) samples_v"] by (simp add: S7_def r7_def)
      have s7: "read_long S7 seqs = Inr seqs_v"
        unfolding S7_def S6_def S5_def S4_def S3_def
        by (intro read_long_old) (rule assms)
      have v6a: "read_float S6 r6 = Inr added"
        unfolding S6_def r6_def by (rule read_float_new)
      have v6: "read_float S7 r6 = Inr added"
        unfolding S7_def using v6a by (rule read_float_old)
      have add_eq: "map (map long) added
          = map (map long) (map (map (\<lambda>s. (1 - s) * real_of_int UNK)) samples_v)"
        by (simp add: added_def om_def comp_def)
      have lhs: "replace_by_unk_st UNK m st seqs prob g =
        and_then (long_op2 S7 seqs r7 (broadcast2 (*))) (\<lambda>(kept, st).
        and_then (to_long st r6) (\<lambda>(added_long, st).
        and_then (long_op2 st kept added_long (broadcast2 (+))) (\<lambda>(r, st).
          Inr (r, st, g'))))"
        unfolding prep Inr p S3_def [symmetric]
        by (simp add: and_then_Inr a4 o5 o6 o7)
      have rhs: "replace_by_unk UNK m seqs_v prob g =
        and_then (broadcast2 (*) seqs_v (map (map long) samples_v)) (\<lambda>kept.
        and_then (broadcast2 (+) kept (map (map long) added)) (\<lambda>r. Inr (r, g')))"
        unfolding pure Inr p by (simp add: and_then_Inr add_eq)
      show ?thesis
      proof (cases "broadcast2 (*) seqs_v (map (map long) samples_v)")
        case (Inl e)
        then show ?thesis
          using long_op2_fail [where f = "broadcast2 (*)", OF s7 v7 Inl] by (simp add: lhs rhs and_then_Inl)
      next
        case kept: (Inr kept_v)
        define S8 where "S8 = S7 @ [Long kept_v]"
        define r8 where "r8 = View (length S7) 0 (length kept_v)"
        define S9 where "S9 = S8 @ [Long (map (map long) added)]"
        define r9 where "r9 = View (length S8) 0 (length added)"
        have o8: "long_op2 S7 seqs r7 (broadcast2 (*)) = Inr (r8, S8)"
          using long_op2_run [where f = "broadcast2 (*)", OF s7 v7 kept] by (simp add: r8_def S8_def)
        have v6': "read_float S8 r6 = Inr added"
          unfolding S8_def using v6 by (rule read_float_old)
        have o9: "to_long S8 r6 = Inr (r9, S9)"
          using to_long_run [OF v6'] by (simp add: r9_def S9_def)
        have v8a: "read_long S8 r8 = Inr kept_v"
          unfolding S8_def r8_def by (rule read_long_new)
        have v8: "read_long S9 r8 = Inr kept_v"
          unfolding S9_def using v8a by (rule read_long_old)
        have v9: "read_long S9 r9 = Inr (map (map long) added)"
          using read_long_new [of S8 "map (map long) added"] by (simp add: S9_def r9_def)
        show ?thesis
        proof (cases "broadcast2 (+) kept_v (map (map long) added)")
          case (Inl e)
          then show ?thesis
            using long_op2_fail [where f = "broadcast2 (+)", OF v8 v9 Inl] kept
            by (simp add: lhs rhs and_then_Inr and_then_Inl o8 o9)
        next
          case res: (Inr r_v)
          have o10: "long_op2 S9 r8 r9 (broadcast2 (+))
              = Inr (View (length S9) 0 (length r_v), S9 @ [Long r_v])"
            by (rule long_op2_run [where f = "broadcast2 (+)", OF v8 v9 res])
          have frame: "take (length st) (S9 @ [Long r_v]) = st" "length st \<le> length S9"
            by (simp_all add: S9_def S8_def S7_def S6_def S5_def S4_def S3_def)
          show ?thesis
            using kept res frame read_long_new [of S9 r_v]
            by (simp add: lhs rhs and_then_Inr o8 o9 o10)
        qed
      qed
    qed
  qed
qed


lemma float_op2_run:
  "read_float st a = Inr x \<Longrightarrow> read_float st b = Inr y \<Longrightarrow> f x y = Inr z \<Longrightarrow>
   float_op2 st a b f = Inr (View (length st) 0 (length z), st @ [Float z])"
  by (simp add: float_op2_def and_then_def alloc_float_def)

lemma float_op2_fail:
  "read_float st a = Inr x \<Longrightarrow> read_float st b = Inr y \<Longrightarrow> f x y = Inl e \<Longrightarrow>
   float_op2 st a b f = Inl e"
  by (simp add: float_op2_def and_then_def)

lemma normal_inplace_fresh:
  assumes "map length t = map length like"
  shows "normal_inplace (st @ [Float t]) (View (length st) 0 (length t)) g
           = Inr (st @ [Float (fst (normal_like like g))], snd (normal_like like g))"
proof -
  have "normal_like t g = normal_like like g"
    by (simp add: normal_like_def draw_like_cong [OF assms] advance_cong [OF assms])
  then show ?thesis
    by (simp add: normal_inplace_def read_float_new and_then_def write_rows_def
        split: prod.splits)
qed

lemma make_init_decoder_output_st_run:
  assumes "read_float st z = Inr z_v"
  shows "make_init_decoder_output_st m st z
           = and_then (make_init_decoder_output m z_v)
               (\<lambda>io. Inr (View (length st) 0 (length z_v), st @ [Float io]))"
  using assms
  by (simp add: make_init_decoder_output_st_def make_init_decoder_output_def and_then_Inr
      and_then_Inl Let_def FloatTensor_def alloc_float_def fill_fresh)

lemma make_init_decoder_output_length:
  "make_init_decoder_output m z = Inr io \<Longrightarrow> length io = length z"
  by (auto simp: make_init_decoder_output_def Let_def split: if_splits)

lemma reparameterize_st_refines:
  assumes mu: "read_float st mu = Inr mu_v" and lv: "read_float st logvar = Inr lv_v"
  shows "case reparameterize_st m st mu logvar g of
           Inl e \<Rightarrow> reparameterize m mu_v lv_v g = Inl e
         | Inr (z, st', g') \<Rightarrow>
             take (length st) st' = st \<and>
             (\<exists>z_v. read_float st' z = Inr z_v \<and> reparameterize m mu_v lv_v g = Inr (z_v, g'))"
proof -
  define half where "half = map (map (\<lambda>v. v * 0.5)) lv_v"
  define std where "std = map (map exp) half"
  define zeros where "zeros = map (map (\<lambda>_. 0::real)) std"
  define eps where "eps = fst (normal_like std g)"
  define g' where "g' = snd (normal_like std g)"
  define S1 where "S1 = st @ [Float half]"
  define S2 where "S2 = S1 @ [Float std]"
  define S3 where "S3 = S2 @ [Float zeros]"
  define S4 where "S4 = S2 @ [Float eps]"
  define r1 where "r1 = View (length st) 0 (length half)"
  define r2 where "r2 = View (length S1) 0 (length std)"
  define r3 where "r3 = View (length S2) 0 (length zeros)"
  have std_eq: "std = map (map (\<lambda>v. exp (v * 0.5))) lv_v"
    by (simp add: std_def half_def comp_def)
  have o1: "float_op st logvar (\<lambda>x. Inr (map (map (\<lambda>v. v * 0.5)) x)) = Inr (r1, S1)"
    using float_op_run [where f = "\<lambda>x. Inr (map (map (\<lambda>v. v * 0.5)) x)" and y = half, OF lv]
    by (simp add: half_def r1_def S1_def)
  have v1: "read_float S1 r1 = Inr half"
    unfolding S1_def r1_def by (rule read_float_new)
  have o2: "float_op S1 r1 (\<lambda>x. Inr (map (map exp) x)) = Inr (r2, S2)"
    using float_op_run [where f = "\<lambda>x. Inr (map (map exp) x)" and y = std, OF v1]
    by (simp add: std_def r2_def S2_def)
  have v2: "read_float S2 r2 = Inr std"
    unfolding S2_def r2_def by (rule read_float_new)
  have o3: "float_op S2 r2 (\<lambda>x. Inr (map (map (\<lambda>_. 0)) x)) = Inr (r3, S3)"
    using float_op_run [where f = "\<lambda>x. Inr (map (map (\<lambda>_. 0)) x)" and y = zeros, OF v2]
    by (simp add: zeros_def r3_def S3_def)
  have sh: "map length zeros = map length std" by (simp add: zeros_def comp_def)
  have o4: "normal_inplace S3 r3 g = Inr (S4, g')"
    unfolding S3_def r3_def S4_def eps_def g'_def using sh by (rule normal_inplace_fresh)
  have lz: "length zeros = length eps"
    by (simp add: zeros_def eps_def normal_like_def draw_like_def)
  have v3: "read_float S4 r3 = Inr eps"
    using read_float_new [of S2 eps] by (simp add: S4_def r3_def lz)
  have v2': "read_float S4 r2 = Inr std"
    unfolding S4_def using v2 by (rule read_float_old)
  have mu4: "read_float S4 mu = Inr mu_v"
    unfolding S4_def S2_def S1_def by (intro read_float_old) (rule mu)
  have lhs: "reparameterize_st m st mu logvar g =
     and_then (float_op2 S4 r3 r2 (broadcast2 (*))) (\<lambda>(es, st).
     and_then (float_op2 st es mu (broadcast2 (+))) (\<lambda>(z, st). Inr (z, st, g')))"
    unfolding reparameterize_st_def o1 o2 o3 o4 and_then_Inr prod.case ..
  have rhs: "reparameterize m mu_v lv_v g =
     and_then (broadcast2 (*) eps std) (\<lambda>es.
     and_then (broadcast2 (+) es mu_v) (\<lambda>z. Inr (z, g')))"
    unfolding reparameterize_def Let_def if_cancel std_eq [symmetric]
    by (simp add: eps_def g'_def split: prod.splits)
  show ?thesis
  proof (cases "broadcast2 (*) eps std")
    case (Inl e)
    then show ?thesis
      using float_op2_fail [where f = "broadcast2 (*)", OF v3 v2' Inl]
      by (simp add: lhs rhs and_then_Inl)
  next
    case es: (Inr es_v)
    define S5 where "S5 = S4 @ [Float es_v]"
    define r5 where "r5 = View (length S4) 0 (length es_v)"
    have o5: "float_op2 S4 r3 r2 (broadcast2 (*)) = Inr (r5, S5)"
      using float_op2_run [where f = "broadcast2 (*)", OF v3 v2' es] by (simp add: r5_def S5_def)
    have v5: "read_float S5 r5 = Inr es_v"
      unfolding S5_def r5_def by (rule read_float_new)
    have mu5: "read_float S5 mu = Inr mu_v"
      unfolding S5_def using mu4 by (rule read_float_old)
    show ?thesis
    proof (cases "broadcast2 (+) es_v mu_v")
      case (Inl e)
      then show ?thesis
        using float_op2_fail [where f = "broadcast2 (+)", OF v5 mu5 Inl] es
        by (simp add: lhs rhs and_then_Inl and_then_Inr o5)
    next
      case z: (Inr z_v)
      have o6: "float_op2 S5 r5 mu (broadcast2 (+))
          = Inr (View (length S5) 0 (length z_v), S5 @ [Float z_v])"
        by (rule float_op2_run [where f = "broadcast2 (+)", OF v5 mu5 z])
      have frame: "take (length st) (S5 @ [Float z_v]) = st"
        by (simp add: S5_def S4_def S2_def S1_def)
      show ?thesis
        using es z frame read_float_new [of S5 z_v]
        by (simp add: lhs rhs and_then_Inr o5 o6)
    qed
  qed
qed


lemma butlast_view_run:
  assumes "read_long st r = Inr t"
  shows "\<exists>r'. butlast_view st r = Inr r' \<and> read_long st r' = Inr (butlast t)"
proof -
  obtain a lo n where r: "r = View a lo n" by (cases r) auto
  obtain T where T: "a < length st" "st ! a = Long T" "t = rows_of lo n T"
    using assms unfolding r by (auto simp: read_long_def split: if_splits tval.splits)
  have "rows_of lo (length t - 1) T = butlast t"
    unfolding T(3) rows_of_def by (simp add: butlast_conv_take min_def)
  then show ?thesis
    using assms T(1,2) by (simp add: butlast_view_def r and_then_def read_long_def)
qed

lemma read_src_old: "read_src st s = Inr x \<Longrightarrow> read_src (st @ xs) s = Inr x"
  by (cases s) (auto simp: read_src_def and_then_def read_long_old split: sum.splits)

lemma prefix_take: "take (length st) st' = st \<Longrightarrow> st' = st @ drop (length st) st'"
  by (metis append_take_drop_id)

lemma forward_st_refines:
  assumes tgt: "read_long st tgt = Inr tgt_v" and src: "read_src st src = Inr x"
  shows "case NMTModel_forward_st UNK m st (src, tgt) step g of
           Inl e \<Rightarrow> NMTModel_forward UNK m (x, tgt_v) step g = Inl e
         | Inr ((out, mu, logvar), st', g') \<Rightarrow>
             take (length st) st' = st \<and>
             (\<exists>out_v mu_v logvar_v.
                read_float3 st' out = Inr out_v \<and> read_float st' mu = Inr mu_v \<and>
                read_float st' logvar = Inr logvar_v \<and>
                NMTModel_forward UNK m (x, tgt_v) step g = Inr ((out_v, mu_v, logvar_v), g'))"
proof -
  obtain tb where tb: "butlast_view st tgt = Inr tb" "read_long st tb = Inr (butlast tgt_v)"
    using butlast_view_run [OF tgt] by blast
  define R where "R = (if m_training m \<and> m_feed_gt_prob m < 1
      then replace_by_unk_st UNK m st tb (m_feed_gt_prob m) g else Inr (tb, st, g))"
  define P where "P = (if m_training m \<and> m_feed_gt_prob m < 1
      then replace_by_unk UNK m (butlast tgt_v) (m_feed_gt_prob m) g else Inr (butlast tgt_v, g))"
  have step2: "case R of Inl e \<Rightarrow> P = Inl e
      | Inr (t2, st2, g1) \<Rightarrow> take (length st) st2 = st \<and>
          (\<exists>t2_v. read_long st2 t2 = Inr t2_v \<and> P = Inr (t2_v, g1))"
    using replace_by_unk_st_refines [OF tb(2), of UNK m "m_feed_gt_prob m" g] tb(2)
    by (auto simp: R_def P_def split: sum.splits)
  have lhs0: "NMTModel_forward_st UNK m st (src, tgt) step g =
      and_then R (\<lambda>(tgt, st, g1).
      and_then (read_src st src) (\<lambda>x.
      and_then (NMTModel_encode m x g1) (\<lambda>((mu_v, logvar_v), g2).
      let (mu, st) = alloc_float st mu_v;
          (logvar, st) = alloc_float st logvar_v in
      and_then (if \<not> m_deterministic m then reparameterize_st m st mu logvar g2
                else Inr (mu, st, g2)) (\<lambda>(z, st, g3).
      and_then (read_float st z) (\<lambda>z_v.
      and_then (decode_states m z_v) (\<lambda>decStates.
      and_then (make_init_decoder_output_st m st z) (\<lambda>(init_output, st).
      and_then (read_float st init_output) (\<lambda>init_output_v.
      and_then (read_long st tgt) (\<lambda>tgt_v.
      and_then (Decoder_forward (m_decoder m) tgt_v decStates init_output_v step g3)
        (\<lambda>((x, dec_hidden), g4).
      let (out, st) = alloc_float3 st x in
      Inr ((out, mu, logvar), st, g4)))))))))))"
    by (simp add: NMTModel_forward_st_def tb(1) and_then_Inr R_def)
  have rhs0: "NMTModel_forward UNK m (x, tgt_v) step g =
      and_then P (\<lambda>(tgt, g1).
      and_then (NMTModel_encode m x g1) (\<lambda>((mu, logvar), g2).
      and_then (sample_z m mu logvar g2) (\<lambda>(z, g3).
      and_then (NMTModel_decode m z tgt step g3) (\<lambda>(out, g4).
        Inr ((out, mu, logvar), g4)))))"
    by (simp add: NMTModel_forward_def P_def Let_def)
  show ?thesis
  proof (cases R)
    case (Inl e)
    then show ?thesis using step2 by (simp add: lhs0 rhs0 and_then_Inl)
  next
    case (Inr p)
    obtain t2 st2 g1 where p: "p = (t2, st2, g1)" by (cases p) auto
    obtain t2_v where s2: "take (length st) st2 = st" "read_long st2 t2 = Inr t2_v"
        "P = Inr (t2_v, g1)"
      using step2 unfolding Inr p by auto
    have src2: "read_src st2 src = Inr x"
      using read_src_old [OF src, of "drop (length st) st2"] prefix_take [OF s2(1)] by simp
    show ?thesis
    proof (cases "NMTModel_encode m x g1")
      case (Inl e)
      then show ?thesis
        by (simp add: lhs0 rhs0 Inr p s2(3) src2 and_then_Inr and_then_Inl)
    next
      case enc: (Inr q)
      obtain mu_v lv_v g2 where q: "q = ((mu_v, lv_v), g2)" by (cases q) auto
      define st3 where "st3 = st2 @ [Float mu_v]"
      define st4 where "st4 = st3 @ [Float lv_v]"
      define mu_r where "mu_r = View (length st2) 0 (length mu_v)"
      define lv_r where "lv_r = View (length st3) 0 (length lv_v)"
      have mu3: "read_float st3 mu_r = Inr mu_v"
        unfolding st3_def mu_r_def by (rule read_float_new)
      have mu4: "read_float st4 mu_r = Inr mu_v"
        unfolding st4_def using mu3 by (rule read_float_old)
      have lv4: "read_float st4 lv_r = Inr lv_v"
        unfolding st4_def lv_r_def by (rule read_float_new)
      define Z where "Z = (if \<not> m_deterministic m then reparameterize_st m st4 mu_r lv_r g2
                else Inr (mu_r, st4, g2))"
      have stepz: "case Z of Inl e \<Rightarrow> sample_z m mu_v lv_v g2 = Inl e
        | Inr (z, st5, g3) \<Rightarrow> take (length st4) st5 = st4 \<and>
            (\<exists>z_v. read_float st5 z = Inr z_v \<and> sample_z m mu_v lv_v g2 = Inr (z_v, g3))"
        using reparameterize_st_refines [OF mu4 lv4, of m g2] mu4
        by (auto simp: Z_def sample_z_def split: sum.splits)
      have lhs1: "NMTModel_forward_st UNK m st (src, tgt) step g =
        and_then Z (\<lambda>(z, st, g3).
        and_then (read_float st z) (\<lambda>z_v.
        and_then (decode_states m z_v) (\<lambda>decStates.
        and_then (make_init_decoder_output_st m st z) (\<lambda>(init_output, st).
        and_then (read_float st init_output) (\<lambda>init_output_v.
        and_then (read_long st t2) (\<lambda>tgt_v.
        and_then (Decoder_forward (m_decoder m) tgt_v decStates init_output_v step g3)
          (\<lambda>((x, dec_hidden), g4).
        let (out, st) = alloc_float3 st x in
        Inr ((out, mu_r, lv_r), st, g4))))))))"
        by (simp add: lhs0 Inr p src2 enc q and_then_Inr alloc_float_def Z_def
            st3_def st4_def mu_r_def lv_r_def)
      have rhs1: "NMTModel_forward UNK m (x, tgt_v) step g =
        and_then (sample_z m mu_v lv_v g2) (\<lambda>(z, g3).
        and_then (NMTModel_decode m z t2_v step g3) (\<lambda>(out, g4).
          Inr ((out, mu_v, lv_v), g4)))"
        by (simp add: rhs0 s2(3) enc q and_then_Inr)
      show ?thesis
      proof (cases Z)
        case (Inl e)
        then show ?thesis using stepz by (simp add: lhs1 rhs1 and_then_Inl)
      next
        case zr: (Inr w)
        obtain z_r st5 g3 where w: "w = (z_r, st5, g3)" by (cases w) auto
        obtain z_v where s5: "take (length st4) st5 = st4" "read_float st5 z_r = Inr z_v"
            "sample_z m mu_v lv_v g2 = Inr (z_v, g3)"
          using stepz unfolding zr w by auto
        have st5_eq: "st5 = st4 @ drop (length st4) st5" using s5(1) by (rule prefix_take)
        have lhs2: "NMTModel_forward_st UNK m st (src, tgt) step g =
          and_then (decode_states m z_v) (\<lambda>decStates.
          and_then (make_init_decoder_output_st m st5 z_r) (\<lambda>(init_output, st).
          and_then (read_float st init_output) (\<lambda>init_output_v.
          and_then (read_long st t2) (\<lambda>tgt_v.
          and_then (Decoder_forward (m_decoder m) tgt_v decStates init_output_v step g3)
            (\<lambda>((x, dec_hidden), g4).
          let (out, st) = alloc_float3 st x in
          Inr ((out, mu_r, lv_r), st, g4))))))"
          by (simp add: lhs1 zr w s5(2) and_then_Inr)
        have rhs2: "NMTModel_forward UNK m (x, tgt_v) step g =
          and_then (decode_states m z_v) (\<lambda>decStates.
          and_then (make_init_decoder_output m z_v) (\<lambda>init_output.
          and_then (Decoder_forward (m_decoder m) t2_v decStates init_output step g3)
            (\<lambda>((x, dec_hidden), g4). Inr ((x, mu_v, lv_v), g4))))"
          by (simp add: rhs1 s5(3) and_then_Inr NMTModel_decode_def and_then_def
              split: sum.splits prod.splits)
        show ?thesis
        proof (cases "make_init_decoder_output m z_v")
          case (Inl e)
          then have "make_init_decoder_output_st m st5 z_r = Inl e"
            using make_init_decoder_output_st_run [OF s5(2), of m] by (simp add: and_then_Inl)
          then show ?thesis
            unfolding lhs2 rhs2 using Inl
            by (cases "decode_states m z_v") (simp_all add: and_then_Inl and_then_Inr)
        next
          case iov: (Inr io_v)
          define st6 where "st6 = st5 @ [Float io_v]"
          define io_r where "io_r = View (length st5) 0 (length z_v)"
          have io: "make_init_decoder_output_st m st5 z_r = Inr (io_r, st6)"
            using make_init_decoder_output_st_run [OF s5(2), of m] iov
            by (simp add: io_r_def st6_def and_then_Inr)
          have liz: "length io_v = length z_v"
            using iov by (rule make_init_decoder_output_length)
          have io6: "read_float st6 io_r = Inr io_v"
            using read_float_new [of st5 io_v] by (simp add: st6_def io_r_def liz)
          have t6: "read_long st6 t2 = Inr t2_v"
          proof -
            have "read_long st4 t2 = Inr t2_v"
              unfolding st4_def st3_def by (intro read_long_old) (rule s2(2))
            then have "read_long st5 t2 = Inr t2_v"
              using read_long_old [of st4 t2 t2_v "drop (length st4) st5"] st5_eq by simp
            then show ?thesis unfolding st6_def by (rule read_long_old)
          qed
          have frame: "take (length st) (st6 @ ys) = st" for ys
          proof -
            have "st6 @ ys = st @ (drop (length st) st2 @ [Float mu_v, Float lv_v]
                    @ drop (length st4) st5 @ [Float io_v] @ ys)"
              using prefix_take [OF s2(1)] st5_eq
              by (simp add: st6_def st4_def st3_def) (metis append.assoc append_Cons append_Nil)
            then show ?thesis by simp
          qed
          have mu6: "read_float (st6 @ ys) mu_r = Inr mu_v" for ys
          proof -
            have "read_float st5 mu_r = Inr mu_v"
              using read_float_old [OF mu4, of "drop (length st4) st5"] st5_eq by simp
            then show ?thesis unfolding st6_def by (intro read_float_old)
          qed
          have lv6: "read_float (st6 @ ys) lv_r = Inr lv_v" for ys
          proof -
            have "read_float st5 lv_r = Inr lv_v"
              using read_float_old [OF lv4, of "drop (length st4) st5"] st5_eq by simp
            then show ?thesis unfolding st6_def by (intro read_float_old)
          qed
          have lhs3: "NMTModel_forward_st UNK m st (src, tgt) step g =
            and_then (decode_states m z_v) (\<lambda>decStates.
            and_then (Decoder_forward (m_decoder m) t2_v decStates io_v step g3)
              (\<lambda>((x, dec_hidden), g4).
                 Inr ((View (length st6) 0 (length x), mu_r, lv_r), st6 @ [Float3 x], g4)))"
            by (simp add: lhs2 io io6 t6 and_then_Inr alloc_float3_def)
          have rhs3: "NMTModel_forward UNK m (x, tgt_v) step g =
            and_then (decode_states m z_v) (\<lambda>decStates.
            and_then (Decoder_forward (m_decoder m) t2_v decStates io_v step g3)
              (\<lambda>((x, dec_hidden), g4). Inr ((x, mu_v, lv_v), g4)))"
            by (simp add: rhs2 iov and_then_Inr)
          have out6: "read_float3 (st6 @ [Float3 t]) (View (length st6) 0 (length t)) = Inr t" for t
            by (simp add: read_float3_def rows_of_def)
          show ?thesis
            unfolding lhs3 rhs3
            using frame mu6 lv6 out6
            by (auto simp: and_then_def split: sum.splits prod.splits)
        qed
      qed
    qed
  qed
qed


lemma gpu_forward_returns:
  "\<exists>r. NMTModel_forward 1 gpu_model (Padded [[2], [5], [1]], [[2], [7], [3], [1]]) 0 demo_rng = Inr r"
proof -
  let ?opt = "bi_opt\<lparr>opt_feed_gt_prob := 0, opt_gpus := [0]\<rparr>"
  have enc: "Encoder_init ?opt demo_lut (const_lstm bi_state) = Inr (demo_encoder 2 bi_state)"
    by (simp add: Encoder_init_def LSTM_def and_then_def bi_opt_def demo_encoder_def)
  have dec: "Decoder_init ?opt demo_lut demo_gen True (\<lambda>i. sum_update)
      = Inr (demo_decoder ?opt True)"
    by (rule demo_decoder_built) (simp_all add: bi_opt_def)
  have m: "NMTModel_init (demo_encoder 2 bi_state) (demo_decoder ?opt True) ?opt True demo_ps
      = Inr gpu_model"
    unfolding gpu_model_def by (rule demo_model_built) (simp add: bi_opt_def)
  show ?thesis
    by (rule forward_returns [OF enc dec m, where b = 1 and v = 3])
      (auto simp: bi_opt_def demo_encoder_def Encoder_forward_def const_lstm_def
        bi_state_def demo_lut_def tensor_defs sum_update_keeps_shape demo_gen_accepts)
qed

text \<open>
  C9. Let \<open>src\<close> and \<open>tgt\<close> refer to token tensors in the store of the caller, and let the
  forward pass return. Then every storage that existed before the call is unchanged,
  so that \<open>src\<close> and \<open>tgt\<close> hold the same token ids after the call as before; the
  results are the values that \<open>NMTModel_forward\<close> computes from these token ids; and
  whenever the replacement of tokens runs on the target, its result is a tensor with a
  new storage and the target is as before.
\<close>

theorem forward_leaves_inputs_unchanged:
  assumes tgt: "read_long st tgt = Inr tgt_v" and src: "read_src st src = Inr x"
    and run: "NMTModel_forward_st UNK m st (src, tgt) step g = Inr ((out, mu, logvar), st', g')"
  shows "take (length st) st' = st \<and>
         read_long st' tgt = Inr tgt_v \<and> read_src st' src = Inr x \<and>
         (\<exists>out_v mu_v logvar_v.
            read_float3 st' out = Inr out_v \<and> read_float st' mu = Inr mu_v \<and>
            read_float st' logvar = Inr logvar_v \<and>
            NMTModel_forward UNK m (x, tgt_v) step g = Inr ((out_v, mu_v, logvar_v), g')) \<and>
         (\<forall>prob r st1 g1.
            replace_by_unk_st UNK m st tgt prob g = Inr (r, st1, g1) \<longrightarrow>
              length st \<le> base r \<and> take (length st) st1 = st \<and> read_long st1 tgt = Inr tgt_v)"
proof -
  have frame: "take (length st) st' = st" and
    vals: "\<exists>out_v mu_v logvar_v.
            read_float3 st' out = Inr out_v \<and> read_float st' mu = Inr mu_v \<and>
            read_float st' logvar = Inr logvar_v \<and>
            NMTModel_forward UNK m (x, tgt_v) step g = Inr ((out_v, mu_v, logvar_v), g')"
    using forward_st_refines [OF tgt src, of UNK m step g] run by simp_all
  have st': "st' = st @ drop (length st) st'" using frame by (rule prefix_take)
  have t: "read_long st' tgt = Inr tgt_v"
    using read_long_old [OF tgt, of "drop (length st) st'"] st' by simp
  have s: "read_src st' src = Inr x"
    using read_src_old [OF src, of "drop (length st) st'"] st' by simp
  have rep: "length st \<le> base r \<and> take (length st) st1 = st \<and> read_long st1 tgt = Inr tgt_v"
    if r: "replace_by_unk_st UNK m st tgt prob g = Inr (r, st1, g1)" for prob r st1 g1
  proof -
    have f: "take (length st) st1 = st" "length st \<le> base r"
      using replace_by_unk_st_refines [OF tgt, of UNK m prob g] r by simp_all
    have "read_long st1 tgt = Inr tgt_v"
      using read_long_old [OF tgt, of "drop (length st) st1"] prefix_take [OF f(1)] by simp
    then show ?thesis using f by simp
  qed
  show ?thesis using frame t s vals rep by blast
qed

theorem forward_leaves_inputs_unchanged_witness:
  "\<exists>out mu logvar st' g'.
     NMTModel_forward_st 1 gpu_model demo_store (PaddedRef (View 0 0 3), View 1 0 4) 0 demo_rng
       = Inr ((out, mu, logvar), st', g') \<and>
     take (length demo_store) st' = demo_store \<and>
     read_long st' (View 1 0 4) = Inr [[2], [7], [3], [1]] \<and>
     read_src st' (PaddedRef (View 0 0 3)) = Inr (Padded [[2], [5], [1]])"
proof -
  have tgt: "read_long demo_store (View 1 0 4) = Inr [[2], [7], [3], [1]]"
    by (simp add: read_long_def demo_store_def rows_of_def)
  have src: "read_src demo_store (PaddedRef (View 0 0 3)) = Inr (Padded [[2], [5], [1]])"
    by (simp add: read_src_def read_long_def demo_store_def rows_of_def and_then_def)
  obtain r where "NMTModel_forward 1 gpu_model (Padded [[2], [5], [1]], [[2], [7], [3], [1]]) 0 demo_rng = Inr r"
    using gpu_forward_returns by blast
  then obtain out mu logvar st' g' where
    run: "NMTModel_forward_st 1 gpu_model demo_store (PaddedRef (View 0 0 3), View 1 0 4) 0 demo_rng
       = Inr ((out, mu, logvar), st', g')"
    using forward_st_refines [OF tgt src, of 1 gpu_model 0 demo_rng]
    by (cases "NMTModel_forward_st 1 gpu_model demo_store (PaddedRef (View 0 0 3), View 1 0 4) 0 demo_rng")
      auto
  from forward_leaves_inputs_unchanged [OF tgt src run] run
  show ?thesis by blast
qed

subsection \<open>Construction of the encoder\<close>




end
